(* ===== verification/Prelude.thy ===== *)
theory Prelude
  imports Main "HOL-Library.Word"
begin

text \<open>
  Shared vocabulary of the development: Go's fixed-width integers, keyed tables (a SQL
  table is the list of its rows), and the small state-and-error monad in which handlers,
  stores and the saga are written. The collections declared here carry the proofs of the
  component theories: \<open>table_simps\<close> (selects and updates on keyed tables) and
  \<open>prog_elims\<close> (inversion of a program's run, one rule per construct).
\<close>

named_theorems table_simps \<open>selects and updates on keyed tables\<close>
named_theorems prog_elims \<open>inversion rules for runs of programs\<close>

section \<open>Machine integers and identifiers\<close>

text \<open>Go's \<open>int64\<close> and the 16 bytes of a \<open>uuid.UUID\<close>; \<open>uuid.Nil\<close> is zero.\<close>

type_synonym int64 = "64 word"
type_synonym uuid = "128 word"

abbreviation uuid_Nil :: uuid where "uuid_Nil \<equiv> 0"

lemma sint64_bounds: "- (2 ^ 63) \<le> sint (x :: int64)" "sint (x :: int64) < 2 ^ 63"
  using sint_ge [of x] sint_lt [of x] by simp_all

lemma signed_take_bit63_id:
  "- (2 ^ 63) \<le> n \<Longrightarrow> n < 2 ^ 63 \<Longrightarrow> signed_take_bit 63 n = (n :: int)"
  by (simp add: signed_take_bit_int_eq_self)

lemma sint_sub_exact:
  assumes "0 \<le> sint b" and "sint b \<le> sint (a :: int64)"
  shows "sint (a - b) = sint a - sint b"
proof -
  have "sint (a - b) = signed_take_bit 63 (sint a - sint b)"
    by (simp add: sint_word_diff)
  moreover have "sint a - sint b < 2 ^ 63" "- (2 ^ 63) \<le> sint a - sint b"
    using assms sint64_bounds [of a] by simp_all
  ultimately show ?thesis by (simp only: signed_take_bit63_id)
qed

text \<open>
  Adding two non-negative \<open>int64\<close>s either is exact or wraps to a negative number, so a
  sign test on the result detects the overflow.
\<close>

lemma sint_add_exact:
  assumes "sint a + sint (b :: int64) < 2 ^ 63" and "- (2 ^ 63) \<le> sint a + sint b"
  shows "sint (a + b) = sint a + sint b"
  using assms by (simp add: sint_word_add signed_take_bit63_id)

lemma sint_add_overflow:
  assumes "2 ^ 63 \<le> sint a + sint (b :: int64)"
  shows "sint (a + b) = sint a + sint b - 2 ^ 64"
proof -
  let ?s = "sint a + sint b"
  have b: "?s < 2 ^ 64" using sint64_bounds [of a] sint64_bounds [of b] by simp
  have "signed_take_bit 63 ?s = signed_take_bit 63 (?s - 2 ^ 64)"
  proof -
    have "take_bit 64 ?s = take_bit 64 (?s - 2 ^ 64)"
      by (simp add: take_bit_eq_mod)
    then show ?thesis
      by (simp add: signed_take_bit_eq_iff_take_bit_eq)
  qed
  also have "\<dots> = ?s - 2 ^ 64"
    using assms b by (intro signed_take_bit63_id) simp_all
  finally show ?thesis by (simp add: sint_word_add)
qed

lemma sint_add_nonneg:
  assumes "0 \<le> sint a" and "0 \<le> sint (b :: int64)" and "0 \<le> sint (a + b)"
  shows "sint (a + b) = sint a + sint b"
proof (cases "sint a + sint b < 2 ^ 63")
  case True
  with assms show ?thesis by (intro sint_add_exact) simp_all
next
  case False
  then have "sint (a + b) = sint a + sint b - 2 ^ 64"
    by (intro sint_add_overflow) simp
  with assms sint64_bounds [of a] sint64_bounds [of b] show ?thesis by simp
qed

lemma sint_uminus_pos: "0 < sint (a :: int64) \<Longrightarrow> sint (- a) = - sint a"
proof -
  assume "0 < sint a"
  then have "- (2 ^ 63) \<le> - sint a" "- sint a < 2 ^ 63"
    using sint64_bounds [of a] by simp_all
  then show ?thesis
    by (simp add: sint_word_minus signed_take_bit63_id)
qed

section \<open>Keyed tables\<close>

text \<open>
  \<open>sel key i rows\<close> is \<open>SELECT \<dots> WHERE key = i\<close> on a primary key (the first match),
  \<open>upd key i f rows\<close> is \<open>UPDATE \<dots> SET \<dots> WHERE key = i\<close> (every match).
\<close>

definition sel :: "('r \<Rightarrow> 'k) \<Rightarrow> 'k \<Rightarrow> 'r list \<Rightarrow> 'r option" where
  "sel key i rows = find (\<lambda>r. key r = i) rows"

definition upd :: "('r \<Rightarrow> 'k) \<Rightarrow> 'k \<Rightarrow> ('r \<Rightarrow> 'r) \<Rightarrow> 'r list \<Rightarrow> 'r list" where
  "upd key i f rows = map (\<lambda>r. if key r = i then f r else r) rows"

lemma sel_Nil [table_simps, simp]: "sel key i [] = None"
  and sel_Cons [table_simps]: "sel key i (r # rs) = (if key r = i then Some r else sel key i rs)"
  by (simp_all add: sel_def)

lemma upd_Nil [table_simps, simp]: "upd key i f [] = []"
  and upd_Cons [table_simps]:
    "upd key i f (r # rs) = (if key r = i then f r else r) # upd key i f rs"
  by (simp_all add: upd_def)

lemma sel_SomeD: "sel key i rs = Some r \<Longrightarrow> r \<in> set rs \<and> key r = i"
  by (auto simp: sel_def find_Some_iff)

lemma sel_None_iff: "sel key i rs = None \<longleftrightarrow> i \<notin> key ` set rs"
  by (auto simp: sel_def find_None_iff)

lemma sel_eq_Some_iff:
  "distinct (map key rs) \<Longrightarrow> sel key i rs = Some r \<longleftrightarrow> r \<in> set rs \<and> key r = i"
  by (induction rs) (auto simp: sel_Cons dest: sel_SomeD)

lemma sel_append [table_simps]:
  "sel key i (rs @ ss) = (case sel key i rs of None \<Rightarrow> sel key i ss | Some r \<Rightarrow> Some r)"
  by (induction rs) (auto simp: sel_Cons)

lemma map_upd [table_simps]:
  "(\<And>r. g (f r) = g r) \<Longrightarrow> map g (upd key i f rs) = map g rs"
  by (simp add: upd_def)

lemma set_upd: "set (upd key i f rs) = (\<lambda>r. if key r = i then f r else r) ` set rs"
  by (simp add: upd_def)

lemma in_set_updE:
  assumes "r \<in> set (upd key i f rs)"
  obtains q where "q \<in> set rs" "key q = i" "r = f q" | "r \<in> set rs" "key r \<noteq> i"
  using assms by (auto simp: set_upd split: if_splits)

lemma sel_upd:
  "(\<And>r. key (f r) = key r) \<Longrightarrow>
   sel key j (upd key i f rs) = (if j = i then map_option f (sel key i rs) else sel key j rs)"
  by (induction rs) (auto simp: sel_Cons upd_Cons)

lemma upd_absent: "sel key i rs = None \<Longrightarrow> upd key i f rs = rs"
  by (auto simp: sel_None_iff upd_def intro!: map_idI)

lemma sum_list_upd:
  fixes g :: "'r \<Rightarrow> int"
  assumes "distinct (map key rs)" and "sel key i rs = Some r"
  shows "sum_list (map g (upd key i f rs)) = sum_list (map g rs) - g r + g (f r)"
  using assms
proof (induction rs)
  case Nil
  then show ?case by simp
next
  case (Cons q qs)
  show ?case
  proof (cases "key q = i")
    case True
    with Cons.prems have "sel key i qs = None" and "q = r"
      by (auto simp: sel_None_iff sel_Cons)
    with True show ?thesis by (simp add: upd_Cons upd_absent)
  next
    case False
    with Cons show ?thesis by (simp add: upd_Cons sel_Cons)
  qed
qed

lemma length_upd [simp]: "length (upd key i f rs) = length rs"
  by (simp add: upd_def)

section \<open>Programs: state, early return and errors\<close>

text \<open>
  A program runs in a state and returns either \<open>Inl\<close> of what it stopped with (a Go
  \<open>error\<close>, or the response an HTTP handler wrote before its early \<open>return\<close>) or \<open>Inr\<close>
  of its value. The state survives an early return, as it does in Go.
\<close>

type_synonym ('s, 'e, 'a) prog = "'s \<Rightarrow> ('e + 'a) \<times> 's"

definition ret :: "'a \<Rightarrow> ('s, 'e, 'a) prog" where
  "ret x s = (Inr x, s)"

definition raise :: "'e \<Rightarrow> ('s, 'e, 'a) prog" where
  "raise e s = (Inl e, s)"

text \<open>\<open>x, err := m(); if err != nil { return err }; f(x)\<close>\<close>

definition bnd :: "('s, 'e, 'a) prog \<Rightarrow> ('a \<Rightarrow> ('s, 'e, 'b) prog) \<Rightarrow> ('s, 'e, 'b) prog" where
  "bnd m f s = (case m s of (Inl e, s') \<Rightarrow> (Inl e, s') | (Inr x, s') \<Rightarrow> f x s')"

text \<open>The error is mapped before it is returned, to a response or to a wrapping error.\<close>

definition map_err :: "('e \<Rightarrow> 'f) \<Rightarrow> ('s, 'e, 'a) prog \<Rightarrow> ('s, 'f, 'a) prog" where
  "map_err h m s = (case m s of (Inl e, s') \<Rightarrow> (Inl (h e), s') | (Inr x, s') \<Rightarrow> (Inr x, s'))"

text \<open>The error is a value: the code looks at it, or logs it and goes on.\<close>

definition attempt :: "('s, 'e, 'a) prog \<Rightarrow> ('s, 'f, 'e + 'a) prog" where
  "attempt m s = (case m s of (r, s') \<Rightarrow> (Inr r, s'))"

text \<open>
  Inversion: what a run that stopped (\<open>Inl\<close>) or finished (\<open>Inr\<close>) says about its parts.
\<close>

lemma ret_InrE [prog_elims]:
  assumes "ret x s = (Inr y, s')" obtains "y = x" "s' = s"
  using assms by (simp add: ret_def)

lemma ret_InlE [prog_elims]: "ret x s = (Inl e, s') \<Longrightarrow> P"
  by (simp add: ret_def)

lemma raise_InlE [prog_elims]:
  assumes "raise e s = (Inl e', s')" obtains "e' = e" "s' = s"
  using assms by (simp add: raise_def)

lemma raise_InrE [prog_elims]: "raise e s = (Inr y, s') \<Longrightarrow> P"
  by (simp add: raise_def)

lemma bnd_InrE [prog_elims]:
  assumes "bnd m f s = (Inr y, s')"
  obtains x s1 where "m s = (Inr x, s1)" "f x s1 = (Inr y, s')"
  using assms by (auto simp: bnd_def split: prod.splits sum.splits)

lemma bnd_InlE [prog_elims]:
  assumes "bnd m f s = (Inl e, s')"
  obtains (stop) "m s = (Inl e, s')" | (go) x s1 where "m s = (Inr x, s1)" "f x s1 = (Inl e, s')"
  using assms by (auto simp: bnd_def split: prod.splits sum.splits)

lemma map_err_InrE [prog_elims]:
  assumes "map_err h m s = (Inr x, s')" obtains "m s = (Inr x, s')"
  using assms by (auto simp: map_err_def split: prod.splits sum.splits)

lemma map_err_InlE [prog_elims]:
  assumes "map_err h m s = (Inl e, s')" obtains e' where "m s = (Inl e', s')" "e = h e'"
  using assms by (auto simp: map_err_def split: prod.splits sum.splits)

lemma attempt_InrE [prog_elims]:
  assumes "attempt m s = (Inr q, s')" obtains "m s = (q, s')"
  using assms by (auto simp: attempt_def split: prod.splits)

lemma attempt_InlE [prog_elims]: "attempt m s = (Inl e, s') \<Longrightarrow> P"
  by (simp add: attempt_def split: prod.splits)

lemma if_app_eqE [prog_elims]:
  assumes "(if b then m else m') s = q"
  obtains (yes) "b" "m s = q" | (no) "\<not> b" "m' s = q"
  using assms by (cases b) auto

lemma bnd_eqE:
  assumes "bnd m f s = (q, s')"
  obtains (stop) e where "m s = (Inl e, s')" "q = Inl e"
  | (go) x s1 where "m s = (Inr x, s1)" "f x s1 = (q, s')"
  using assms by (auto simp: bnd_def split: prod.splits sum.splits)

lemma bnd_ret [simp]: "bnd (ret x) f = f x"
  and bnd_raise [simp]: "bnd (raise e) f = raise e"
  by (simp_all add: fun_eq_iff bnd_def ret_def raise_def)

lemma ret_app [simp]: "ret x s = (Inr x, s)"
  and raise_app [simp]: "raise e s = (Inl e, s)"
  by (simp_all add: ret_def raise_def)

lemmas prog_defs = bnd_def map_err_def attempt_def ret_def raise_def

end
