(* ===== verification/Session.thy ===== *)
theory Session
  imports Prelude
begin

text \<open>
  A service's connection to its database, and what can go wrong on it. The services talk to
  PostgreSQL (pgx) or MySQL (database/sql); both are modelled by a committed state, the view
  of the open transaction, a clock for \<open>now()\<close> and a stream of generated ids. Every call over
  the network takes its outcome from a fault plan, so a theorem that holds for every plan
  holds for every pattern of failures: a call that never reached the peer, and a call that
  took effect although its reply was lost.
\<close>

section \<open>Faults and sessions\<close>

datatype fault = Fine | Before | After

text \<open>
  \<open>s_faults\<close> is the plan, consumed from the front; the calls after its end are fine.
  \<open>s_gen\<close> yields the ids of \<open>gen_random_uuid()\<close> (payments, jobs-api) and \<open>uuid.New()\<close>
  (contracts); nothing is assumed about it, and a repeated id runs into the primary key.
\<close>

record ('d, 'k) sess =
  s_db :: 'd
  s_tx :: 'd
  s_faults :: "fault list"
  s_now :: int
  s_gen :: "nat \<Rightarrow> 'k"
  s_used :: nat

text \<open>
  What a statement reports: no row (\<open>pgx.ErrNoRows\<close>, \<open>sql.ErrNoRows\<close>), a violated
  constraint, a value that does not fit the Go variable it is scanned into, an argument the
  server refuses, or a lost connection.
\<close>

datatype db_err = ErrNoRows | ErrConstraint | ErrScan | ErrArgument | ErrConn

definition pop_fault :: "('d, 'k, 'z) sess_scheme \<Rightarrow> fault \<times> ('d, 'k, 'z) sess_scheme" where
  "pop_fault s = (case s_faults s of [] \<Rightarrow> (Fine, s) | f # fs \<Rightarrow> (f, s\<lparr>s_faults := fs\<rparr>))"

text \<open>The next generated id.\<close>

definition next_id :: "('d, 'k, 'z) sess_scheme \<Rightarrow> 'k" where
  "next_id s = s_gen s (s_used s)"

definition draw_id :: "(('d, 'k, 'z) sess_scheme, 'e, 'k) prog" where
  "draw_id s = (Inr (next_id s), s\<lparr>s_used := Suc (s_used s)\<rparr>)"

text \<open>
  A statement is a function of the clock, a fresh id for a \<open>DEFAULT gen_random_uuid()\<close>
  column and the rows it sees; it fails or returns a value and the new rows.
\<close>

type_synonym ('d, 'k, 'a) sql = "int \<Rightarrow> 'k \<Rightarrow> 'd \<Rightarrow> db_err + ('a \<times> 'd)"

section \<open>Transactions\<close>

definition begin_tx :: "(('d, 'k, 'z) sess_scheme, db_err, unit) prog" where
  "begin_tx s =
     (case pop_fault s of
        (Fine, s') \<Rightarrow> (Inr (), s'\<lparr>s_tx := s_db s'\<rparr>)
      | (_, s') \<Rightarrow> (Inl ErrConn, s'))"

text \<open>A statement inside the transaction; a failed one leaves the transaction's view.\<close>

definition stmt :: "('d, 'k, 'a) sql \<Rightarrow> (('d, 'k, 'z) sess_scheme, db_err, 'a) prog" where
  "stmt f s =
     (case pop_fault s of
        (Fine, s') \<Rightarrow>
          (case f (s_now s') (next_id s') (s_tx s') of
             Inl e \<Rightarrow> (Inl e, s')
           | Inr (x, d) \<Rightarrow> (Inr x, s'\<lparr>s_tx := d, s_used := Suc (s_used s')\<rparr>))
      | (_, s') \<Rightarrow> (Inl ErrConn, s'))"

text \<open>
  A commit publishes the transaction's view. Its reply can get lost after the server has
  committed: the caller sees an error, the effect is there.
\<close>

definition commit_tx :: "(('d, 'k, 'z) sess_scheme, db_err, unit) prog" where
  "commit_tx s =
     (case pop_fault s of
        (Fine, s') \<Rightarrow> (Inr (), s'\<lparr>s_db := s_tx s'\<rparr>)
      | (Before, s') \<Rightarrow> (Inl ErrConn, s')
      | (After, s') \<Rightarrow> (Inl ErrConn, s'\<lparr>s_db := s_tx s'\<rparr>))"

text \<open>\<open>defer tx.Rollback()\<close>: whatever was not committed is dropped on every way out.\<close>

definition defer_rollback ::
  "(('d, 'k, 'z) sess_scheme, 'e, 'a) prog \<Rightarrow> (('d, 'k, 'z) sess_scheme, 'e, 'a) prog" where
  "defer_rollback m s = (case m s of (r, s') \<Rightarrow> (r, s'\<lparr>s_tx := s_db s'\<rparr>))"

text \<open>A statement on the pool (\<open>h.pool\<close>, \<open>s.db\<close>) is its own transaction.\<close>

definition auto_stmt :: "('d, 'k, 'a) sql \<Rightarrow> (('d, 'k, 'z) sess_scheme, db_err, 'a) prog" where
  "auto_stmt f s =
     (case pop_fault s of
        (Before, s') \<Rightarrow> (Inl ErrConn, s')
      | (flt, s') \<Rightarrow>
          (case f (s_now s') (next_id s') (s_db s') of
             Inl e \<Rightarrow> (Inl e, s')
           | Inr (x, d) \<Rightarrow>
               (if flt = Fine then Inr x else Inl ErrConn,
                s'\<lparr>s_db := d, s_used := Suc (s_used s')\<rparr>)))"

section \<open>What the calls can do\<close>

lemma pop_fault_fields [simp]:
  assumes "pop_fault s = (flt, s')"
  shows "s_db s' = s_db s" "s_tx s' = s_tx s" "s_now s' = s_now s" "s_gen s' = s_gen s"
    "s_used s' = s_used s" "sess.more s' = sess.more s"
  using assms by (auto simp: pop_fault_def split: list.splits)

text \<open>
  The frame of a call: everything but the committed rows, the transaction's view and the two
  counters stays.
\<close>

definition same_env :: "('d, 'k, 'z) sess_scheme \<Rightarrow> ('d, 'k, 'z) sess_scheme \<Rightarrow> bool" where
  "same_env s s' \<longleftrightarrow>
     s_now s' = s_now s \<and> s_gen s' = s_gen s \<and> sess.more s' = sess.more s"

lemma same_env_refl [simp, intro]: "same_env s s"
  by (simp add: same_env_def)

lemma same_env_trans [trans]: "same_env s t \<Longrightarrow> same_env t u \<Longrightarrow> same_env s u"
  by (simp add: same_env_def)

lemma draw_id_eqE:
  assumes "draw_id s = (r, s')"
  obtains "r = Inr (next_id s)" "s_db s' = s_db s" "s_tx s' = s_tx s" "same_env s s'"
  using assms by (auto simp: draw_id_def same_env_def)

lemma begin_tx_eqE:
  assumes "begin_tx s = (r, s')"
  obtains (err) "r = Inl ErrConn" "s_db s' = s_db s" "same_env s s'"
  | (ok) "r = Inr ()" "s_db s' = s_db s" "s_tx s' = s_db s" "same_env s s'"
  using assms
  by (auto simp: begin_tx_def same_env_def split: prod.splits fault.splits)

lemma stmt_eqE:
  assumes "stmt f s = (r, s')"
  obtains (err) e where "r = Inl e" "s_db s' = s_db s" "s_tx s' = s_tx s" "same_env s s'"
      "e = ErrConn \<or> (\<exists>u. f (s_now s) u (s_tx s) = Inl e)"
  | (ok) x u where "r = Inr x" "f (s_now s) u (s_tx s) = Inr (x, s_tx s')" "s_db s' = s_db s"
      "same_env s s'"
proof (cases "pop_fault s")
  case (Pair flt s1)
  note [simp] = pop_fault_fields [OF Pair] Pair
  show thesis
  proof (cases "flt = Fine")
    case False
    with assms have "r = Inl ErrConn" "s' = s1" by (auto simp: stmt_def split: fault.splits)
    then show thesis by (intro err [of ErrConn]) (simp_all add: same_env_def)
  next
    case fine: True
    show thesis
    proof (cases "f (s_now s) (next_id s1) (s_tx s)")
      case (Inl e)
      with fine assms have "r = Inl e" "s' = s1" by (simp_all add: stmt_def)
      with Inl show thesis by (intro err [of e]) (auto simp: same_env_def)
    next
      case (Inr p)
      with fine assms have "r = Inr (fst p)" "s' = s1\<lparr>s_tx := snd p, s_used := Suc (s_used s1)\<rparr>"
        by (simp_all add: stmt_def split: prod.splits)
      with Inr show thesis by (intro ok [of "fst p" "next_id s1"]) (simp_all add: same_env_def)
    qed
  qed
qed

lemma commit_tx_eqE:
  assumes "commit_tx s = (r, s')"
  obtains (failed) "r = Inl ErrConn" "s_db s' = s_db s" "s_tx s' = s_tx s" "same_env s s'"
  | (lost) "r = Inl ErrConn" "s_db s' = s_tx s" "s_tx s' = s_tx s" "same_env s s'"
  | (ok) "r = Inr ()" "s_db s' = s_tx s" "s_tx s' = s_tx s" "same_env s s'"
  using assms
  by (auto simp: commit_tx_def same_env_def split: prod.splits fault.splits)

lemma defer_rollback_eqE:
  assumes "defer_rollback m s = (r, s')"
  obtains s1 where "m s = (r, s1)" "s' = s1\<lparr>s_tx := s_db s1\<rparr>"
  using assms by (auto simp: defer_rollback_def split: prod.splits)

lemma auto_stmt_eqE:
  assumes "auto_stmt f s = (r, s')"
  obtains (err) e where "r = Inl e" "s_db s' = s_db s" "s_tx s' = s_tx s" "same_env s s'"
      "e = ErrConn \<or> (\<exists>u. f (s_now s) u (s_db s) = Inl e)"
  | (lost) x u where "r = Inl ErrConn" "f (s_now s) u (s_db s) = Inr (x, s_db s')"
      "s_tx s' = s_tx s" "same_env s s'"
  | (ok) x u where "r = Inr x" "f (s_now s) u (s_db s) = Inr (x, s_db s')"
      "s_tx s' = s_tx s" "same_env s s'"
proof (cases "pop_fault s")
  case (Pair flt s1)
  note [simp] = pop_fault_fields [OF Pair] Pair
  show thesis
  proof (cases "flt = Before")
    case True
    with assms have "r = Inl ErrConn" "s' = s1" by (auto simp: auto_stmt_def)
    then show thesis by (intro err [of ErrConn]) (simp_all add: same_env_def)
  next
    case served: False
    show thesis
    proof (cases "f (s_now s) (next_id s1) (s_db s)")
      case (Inl e)
      with served assms have "r = Inl e" "s' = s1"
        by (auto simp: auto_stmt_def split: fault.splits)
      with Inl show thesis by (intro err [of e]) (auto simp: same_env_def)
    next
      case (Inr p)
      with served assms have r: "r = (if flt = Fine then Inr (fst p) else Inl ErrConn)"
        and s': "s' = s1\<lparr>s_db := snd p, s_used := Suc (s_used s1)\<rparr>"
        by (cases flt; simp add: auto_stmt_def split: prod.splits)+
      show thesis
      proof (cases "flt = Fine")
        case True
        with r s' Inr show thesis
          by (intro ok [of "fst p" "next_id s1"]) (simp_all add: same_env_def)
      next
        case False
        with r s' Inr show thesis
          by (intro lost [of "next_id s1" "fst p"]) (simp_all add: same_env_def)
      qed
    qed
  qed
qed

text \<open>The same facts, one rule for a stopped run and one for a finished run.\<close>

lemma draw_id_InrE [prog_elims]:
  assumes "draw_id s = (Inr i, s')"
  obtains "i = next_id s" "s_db s' = s_db s" "s_tx s' = s_tx s" "same_env s s'"
  using draw_id_eqE [OF assms] by blast

lemma draw_id_InlE [prog_elims]: "draw_id s = (Inl e, s') \<Longrightarrow> P"
  by (simp add: draw_id_def)

lemma begin_tx_InrE [prog_elims]:
  assumes "begin_tx s = (Inr x, s')"
  obtains "s_db s' = s_db s" "s_tx s' = s_db s" "same_env s s'"
  using assms by (cases rule: begin_tx_eqE) auto

lemma begin_tx_InlE [prog_elims]:
  assumes "begin_tx s = (Inl e, s')"
  obtains "e = ErrConn" "s_db s' = s_db s" "same_env s s'"
  using assms by (cases rule: begin_tx_eqE) auto

lemma stmt_InrE [prog_elims]:
  assumes "stmt f s = (Inr x, s')"
  obtains u where "f (s_now s) u (s_tx s) = Inr (x, s_tx s')" "s_db s' = s_db s" "same_env s s'"
  using assms by (cases rule: stmt_eqE) auto

lemma stmt_InlE [prog_elims]:
  assumes "stmt f s = (Inl e, s')"
  obtains "s_db s' = s_db s" "s_tx s' = s_tx s" "same_env s s'"
    "e = ErrConn \<or> (\<exists>u. f (s_now s) u (s_tx s) = Inl e)"
  using assms by (cases rule: stmt_eqE) auto

lemma commit_tx_InrE [prog_elims]:
  assumes "commit_tx s = (Inr x, s')"
  obtains "s_db s' = s_tx s" "s_tx s' = s_tx s" "same_env s s'"
  using assms by (cases rule: commit_tx_eqE) auto

lemma commit_tx_InlE [prog_elims]:
  assumes "commit_tx s = (Inl e, s')"
  obtains "e = ErrConn" "s_db s' = s_db s \<or> s_db s' = s_tx s" "s_tx s' = s_tx s" "same_env s s'"
  using assms by (cases rule: commit_tx_eqE) auto

lemma defer_rollback_pairE [prog_elims]:
  assumes "defer_rollback m s = (r, s')"
  obtains s1 where "m s = (r, s1)" "s_db s' = s_db s1" "s_tx s' = s_db s1" "same_env s1 s'"
  using assms by (cases rule: defer_rollback_eqE) (auto simp: same_env_def)

lemma auto_stmt_InrE [prog_elims]:
  assumes "auto_stmt f s = (Inr x, s')"
  obtains u where "f (s_now s) u (s_db s) = Inr (x, s_db s')" "s_tx s' = s_tx s" "same_env s s'"
  using assms by (cases rule: auto_stmt_eqE) auto

lemma auto_stmt_InlE [prog_elims]:
  assumes "auto_stmt f s = (Inl e, s')"
  obtains (err) "s_db s' = s_db s" "s_tx s' = s_tx s" "same_env s s'"
      "e = ErrConn \<or> (\<exists>u. f (s_now s) u (s_db s) = Inl e)"
  | (lost) x u where "e = ErrConn" "f (s_now s) u (s_db s) = Inr (x, s_db s')"
      "s_tx s' = s_tx s" "same_env s s'"
  using assms by (cases rule: auto_stmt_eqE) auto

section \<open>Runs without faults\<close>

lemma pop_fault_fine [simp]: "s_faults s = [] \<Longrightarrow> pop_fault s = (Fine, s)"
  by (simp add: pop_fault_def)

lemma begin_tx_fine: "s_faults s = [] \<Longrightarrow> begin_tx s = (Inr (), s\<lparr>s_tx := s_db s\<rparr>)"
  by (simp add: begin_tx_def)

lemma commit_tx_fine: "s_faults s = [] \<Longrightarrow> commit_tx s = (Inr (), s\<lparr>s_db := s_tx s\<rparr>)"
  by (simp add: commit_tx_def)

lemma stmt_fine:
  "s_faults s = [] \<Longrightarrow>
   stmt f s = (case f (s_now s) (next_id s) (s_tx s) of
      Inl e \<Rightarrow> (Inl e, s)
    | Inr (x, d) \<Rightarrow> (Inr x, s\<lparr>s_tx := d, s_used := Suc (s_used s)\<rparr>))"
  by (simp add: stmt_def split: sum.splits prod.splits)

lemma auto_stmt_fine:
  "s_faults s = [] \<Longrightarrow>
   auto_stmt f s = (case f (s_now s) (next_id s) (s_db s) of
      Inl e \<Rightarrow> (Inl e, s)
    | Inr (x, d) \<Rightarrow> (Inr x, s\<lparr>s_db := d, s_used := Suc (s_used s)\<rparr>))"
  by (simp add: auto_stmt_def split: sum.splits prod.splits)

lemma defer_rollback_app:
  "defer_rollback m s = (fst (m s), (snd (m s))\<lparr>s_tx := s_db (snd (m s))\<rparr>)"
  by (simp add: defer_rollback_def split: prod.splits)

lemmas fine_runs = begin_tx_fine commit_tx_fine stmt_fine auto_stmt_fine defer_rollback_app next_id_def

end
