(* ===== verification/Json.thy ===== *)
theory Json
  imports Prelude
begin

text \<open>
  The JSON values the services exchange, as far as the code looks at them: what
  \<open>encoding/json\<close> does with a struct it decodes into, and HTTP responses. A document that is
  not JSON at all is \<open>None\<close> where a body is read. Numbers are the integers the code writes.
\<close>

datatype json =
    JNull
  | JBool bool
  | JNum int
  | JStr string
  | JArr "json list"
  | JObj "(string \<times> json) list"

text \<open>
  How two values that the code only passes on are rendered: \<open>uuid.UUID.String\<close> (a package
  outside the repository) and the RFC 3339 form of a \<open>time.Time\<close>.
\<close>

record codec =
  uuid_String :: "uuid \<Rightarrow> string"
  time_String :: "int \<Rightarrow> string"

definition json_uuid :: "codec \<Rightarrow> uuid \<Rightarrow> json" where
  "json_uuid c u = JStr (uuid_String c u)"

definition json_time :: "codec \<Rightarrow> int \<Rightarrow> json" where
  "json_time c t = JStr (time_String c t)"

definition json_int64 :: "int64 \<Rightarrow> json" where
  "json_int64 x = JNum (sint x)"

text \<open>A field tagged \<open>omitzero\<close>: left out when the pointer is nil.\<close>

definition omitzero :: "string \<Rightarrow> ('a \<Rightarrow> json) \<Rightarrow> 'a option \<Rightarrow> (string \<times> json) list" where
  "omitzero name f x = (case x of None \<Rightarrow> [] | Some y \<Rightarrow> [(name, f y)])"

section \<open>Decoding a string field\<close>

text \<open>
  \<open>json.Unmarshal\<close> matches a member to a struct field by its exact name, else ignoring
  case. Later members overwrite earlier ones, \<open>null\<close> leaves the field, and a value of
  another type is an \<open>UnmarshalTypeError\<close>, reported after the rest has been decoded.
\<close>

definition lower_char :: "char \<Rightarrow> char" where
  "lower_char ch =
     (case map_of (zip ''ABCDEFGHIJKLMNOPQRSTUVWXYZ'' ''abcdefghijklmnopqrstuvwxyz'') ch of
        None \<Rightarrow> ch | Some l \<Rightarrow> l)"

definition to_lower :: "string \<Rightarrow> string" where
  "to_lower = map lower_char"

fun scan_string :: "string \<Rightarrow> (string \<times> json) list \<Rightarrow> bool \<times> string \<Rightarrow> bool \<times> string" where
  "scan_string name [] (bad, v) = (bad, v)"
| "scan_string name ((k, j) # rest) (bad, v) =
     (if to_lower k = name then
        (case j of
           JStr x \<Rightarrow> scan_string name rest (bad, x)
         | JNull \<Rightarrow> scan_string name rest (bad, v)
         | _ \<Rightarrow> scan_string name rest (True, v))
      else scan_string name rest (bad, v))"

definition string_field :: "string \<Rightarrow> json \<Rightarrow> string option" where
  "string_field name j =
     (case j of
        JNull \<Rightarrow> Some ''''
      | JObj members \<Rightarrow>
          (case scan_string name members (False, '''') of (bad, v) \<Rightarrow> if bad then None else Some v)
      | _ \<Rightarrow> None)"

section \<open>Responses\<close>

datatype response = Resp (code: nat) (body: json)

definition error_body :: "string \<Rightarrow> json" where
  "error_body msg = JObj [(''error'', JStr msg)]"

abbreviation error_resp :: "nat \<Rightarrow> string \<Rightarrow> response" where
  "error_resp n msg \<equiv> Resp n (error_body msg)"

abbreviation internal_error :: response where
  "internal_error \<equiv> error_resp 500 ''internal server error''"

text \<open>A handler's run ends in the response it wrote, early or at its end.\<close>

definition run_handler :: "('s, response, response) prog \<Rightarrow> 's \<Rightarrow> response \<times> 's" where
  "run_handler m s = (case m s of (Inl r, s') \<Rightarrow> (r, s') | (Inr r, s') \<Rightarrow> (r, s'))"

lemma run_handler_eqE:
  assumes "run_handler m s = (r, s')"
  obtains "m s = (Inl r, s')" | "m s = (Inr r, s')"
  using assms by (auto simp: run_handler_def split: prod.splits sum.splits)

lemma run_handler_sumE:
  assumes "run_handler m s = (r, s')"
  obtains q where "m s = (q, s')" "q = Inl r \<or> q = Inr r"
  using assms by (cases rule: run_handler_eqE) blast+

definition status_ok :: "response \<Rightarrow> bool" where
  "status_ok r \<longleftrightarrow> 200 \<le> code r \<and> code r < 300"

end
