(* ===== verification/Outbox.thy ===== *)
theory Outbox
  imports Session Json "HOL-Library.Sublist"
begin

text \<open>
  The transactional outbox of pkg/outbox: the entry, the \<open>Store\<close> interface and its
  PostgreSQL implementation, and the \<open>Publisher\<close> that polls the table and hands the entries
  to a broker. The broker's client is outside the repository: it is a parameter \<open>pub\<close> of the
  publisher. The contracts service has its own copy over MySQL (theory ContractsOutbox); the
  lemmas about a publisher are proved once, in the locale \<open>outbox_store\<close>.
\<close>

section \<open>Entries and the Store interface\<close>

record 'k entry =
  e_id :: 'k
  e_aggregate_type :: string
  e_aggregate_id :: 'k
  e_event_type :: string
  e_payload :: json
  e_created_at :: int
  e_published_at :: "int option"

text \<open>
  The operations a service passes to its publisher. \<open>FetchUnpublished\<close> gets the set of rows
  other transactions have locked, which \<open>SKIP LOCKED\<close> leaves out.
\<close>

record ('d, 'k) store =
  Insert :: "'k entry \<Rightarrow> ('d, 'k, unit) sql"
  FetchUnpublished :: "'k set \<Rightarrow> int \<Rightarrow> ('d, 'k, 'k entry list) sql"
  MarkPublished :: "'k list \<Rightarrow> ('d, 'k, unit) sql"

definition unpublished :: "'k entry \<Rightarrow> bool" where
  "unpublished e \<longleftrightarrow> e_published_at e = None"

definition stamp :: "int \<Rightarrow> 'k list \<Rightarrow> 'k entry \<Rightarrow> 'k entry" where
  "stamp now ids e = (if e_id e \<in> set ids then e\<lparr>e_published_at := Some now\<rparr> else e)"

text \<open>The rows \<open>ORDER BY created_at LIMIT n FOR UPDATE SKIP LOCKED\<close> returns.\<close>

definition oldest :: "'k set \<Rightarrow> nat \<Rightarrow> 'k entry list \<Rightarrow> 'k entry list" where
  "oldest locked n rows =
     take n (sort_key e_created_at (filter (\<lambda>e. unpublished e \<and> e_id e \<notin> locked) rows))"

section \<open>PostgresStore\<close>

text \<open>
  The table is one column of a service's database: \<open>rows\<close> reads it, \<open>put\<close> replaces it. The
  id and the two timestamps are the columns' defaults.
\<close>

definition pg_Insert ::
  "('d \<Rightarrow> 'k entry list) \<Rightarrow> ('k entry list \<Rightarrow> 'd \<Rightarrow> 'd) \<Rightarrow> 'k entry \<Rightarrow> ('d, 'k, unit) sql" where
  "pg_Insert rows put e now u d =
     (if u \<in> e_id ` set (rows d) then Inl ErrConstraint
      else Inr ((), put (rows d @ [e\<lparr>e_id := u, e_created_at := now, e_published_at := None\<rparr>]) d))"

definition pg_FetchUnpublished ::
  "('d \<Rightarrow> 'k entry list) \<Rightarrow> 'k set \<Rightarrow> int \<Rightarrow> ('d, 'k, 'k entry list) sql" where
  "pg_FetchUnpublished rows locked limit now u d =
     (if limit < 0 then Inl ErrArgument else Inr (oldest locked (nat limit) (rows d), d))"

definition pg_MarkPublished ::
  "('d \<Rightarrow> 'k entry list) \<Rightarrow> ('k entry list \<Rightarrow> 'd \<Rightarrow> 'd) \<Rightarrow> 'k list \<Rightarrow> ('d, 'k, unit) sql" where
  "pg_MarkPublished rows put ids now u d = Inr ((), put (map (stamp now ids) (rows d)) d)"

definition PostgresStore ::
  "('d \<Rightarrow> 'k entry list) \<Rightarrow> ('k entry list \<Rightarrow> 'd \<Rightarrow> 'd) \<Rightarrow> ('d, 'k) store" where
  "PostgresStore rows put =
     \<lparr>Insert = pg_Insert rows put, FetchUnpublished = pg_FetchUnpublished rows,
      MarkPublished = pg_MarkPublished rows put\<rparr>"

section \<open>Publisher\<close>

text \<open>
  A publisher's session also carries the broker's state. \<open>pub\<close> is \<open>EventPublisher.Publish\<close>:
  subject, data, and an error or nothing.
\<close>

record ('d, 'k, 'n) pub_sess = "('d, 'k) sess" +
  s_nats :: 'n

type_synonym 'n publish = "string \<Rightarrow> json \<Rightarrow> 'n \<Rightarrow> (string + unit) \<times> 'n"

definition Publish :: "'n publish \<Rightarrow> 'k entry \<Rightarrow> (('d, 'k, 'n) pub_sess, string, unit) prog" where
  "Publish pub e s =
     (case pub (e_event_type e) (e_payload e) (s_nats s) of (r, n) \<Rightarrow> (r, s\<lparr>s_nats := n\<rparr>))"

text \<open>The loop over the batch: a failed publish is logged and skipped.\<close>

fun publish_each ::
  "'n publish \<Rightarrow> 'k entry list \<Rightarrow> (('d, 'k, 'n) pub_sess, db_err, 'k list) prog" where
  "publish_each pub [] = ret []"
| "publish_each pub (e # es) =
     bnd (attempt (Publish pub e)) (\<lambda>r.
     bnd (publish_each pub es) (\<lambda>published.
     ret (case r of Inl _ \<Rightarrow> published | Inr _ \<Rightarrow> e_id e # published)))"

definition PublishBatch ::
  "('d, 'k) store \<Rightarrow> 'n publish \<Rightarrow> int \<Rightarrow> 'k set
   \<Rightarrow> (('d, 'k, 'n) pub_sess, db_err, unit) prog" where
  "PublishBatch store pub batch locked =
     bnd begin_tx (\<lambda>_. defer_rollback (
     bnd (stmt (FetchUnpublished store locked batch)) (\<lambda>entries.
     if entries = [] then ret ()
     else
       bnd (publish_each pub entries) (\<lambda>published.
       bnd (if published \<noteq> [] then stmt (MarkPublished store published) else ret ()) (\<lambda>_.
       commit_tx)))))"

text \<open>\<open>NewPublisher\<close> fixes the batch size.\<close>

definition batch_size :: int where
  "batch_size = 100"

text \<open>
  \<open>Run\<close>: one batch per tick, errors logged. A tick comes with the rows other publishers hold
  locked at that moment; the list ends where the context is cancelled.
\<close>

fun Run :: "('d, 'k) store \<Rightarrow> 'n publish \<Rightarrow> 'k set list
   \<Rightarrow> ('d, 'k, 'n) pub_sess \<Rightarrow> ('d, 'k, 'n) pub_sess" where
  "Run store pub [] s = s"
| "Run store pub (locked # ticks) s =
     Run store pub ticks (snd (PublishBatch store pub batch_size locked s))"

section \<open>What a batch hands over\<close>

lemma subseq_set_subset: "subseq xs ys \<Longrightarrow> set xs \<subseteq> set ys"
  by (induction rule: list_emb.induct) auto

text \<open>
  The loop as a function: the ids the broker acknowledged, and the broker afterwards. \<open>wire\<close>
  is what an entry looks like on the wire.
\<close>

definition wire :: "'k entry \<Rightarrow> string \<times> json" where
  "wire e = (e_event_type e, e_payload e)"

fun hand_over :: "'n publish \<Rightarrow> 'k entry list \<Rightarrow> 'n \<Rightarrow> 'k list \<times> 'n" where
  "hand_over pub [] n = ([], n)"
| "hand_over pub (e # es) n =
     (case pub (e_event_type e) (e_payload e) n of (r, n1) \<Rightarrow>
       case hand_over pub es n1 of (ids, n2) \<Rightarrow>
         ((case r of Inl _ \<Rightarrow> ids | Inr _ \<Rightarrow> e_id e # ids), n2))"

lemma publish_each_eq:
  "publish_each pub es s =
    (Inr (fst (hand_over pub es (s_nats s))), s\<lparr>s_nats := snd (hand_over pub es (s_nats s))\<rparr>)"
  by (induction es arbitrary: s)
    (auto simp: prog_defs Publish_def split: prod.splits sum.splits)

text \<open>
  What the publishers rely on: an acknowledged message is stored, an error says nothing (the
  acknowledgement may have been lost), and the broker forgets nothing by itself. \<open>log\<close> is the
  list of messages a broker has stored.
\<close>

definition broker_ok :: "'n publish \<Rightarrow> ('n \<Rightarrow> (string \<times> json) list) \<Rightarrow> bool" where
  "broker_ok pub log \<longleftrightarrow> (\<forall>subject data n. case pub subject data n of
     (Inr _, n') \<Rightarrow> log n' = log n @ [(subject, data)]
   | (Inl _, n') \<Rightarrow> log n' = log n \<or> log n' = log n @ [(subject, data)])"

definition broker_up :: "'n publish \<Rightarrow> bool" where
  "broker_up pub \<longleftrightarrow> (\<forall>subject data n. fst (pub subject data n) = Inr ())"

lemma broker_okD:
  assumes "broker_ok pub log" "pub subject data n = (r, n')"
  shows "log n' = log n \<and> r \<noteq> Inr () \<or> log n' = log n @ [(subject, data)]"
  using assms(1) [unfolded broker_ok_def, rule_format, where subject = subject and data = data and n = n] assms(2)
  by (auto split: sum.splits)

lemma hand_over_stored:
  assumes "broker_ok pub log" "hand_over pub es n = (ids, n')"
  shows "set (log n) \<subseteq> set (log n')" "set ids \<subseteq> e_id ` set es"
    "\<exists>sent. log n' = log n @ map wire sent \<and> subseq sent es \<and> set ids \<subseteq> e_id ` set sent"
proof -
  show *: "\<exists>sent. log n' = log n @ map wire sent \<and> subseq sent es \<and> set ids \<subseteq> e_id ` set sent"
    using assms(2)
  proof (induction es arbitrary: n ids)
    case (Cons e es)
    obtain r n1 where p: "pub (e_event_type e) (e_payload e) n = (r, n1)" by fastforce
    obtain ids' where h: "hand_over pub es n1 = (ids', n')" "ids = (case r of Inl _ \<Rightarrow> ids' | Inr _ \<Rightarrow> e_id e # ids')"
      using Cons.prems p by (auto split: prod.splits)
    from Cons.IH [OF h(1)] obtain sent where s: "log n' = log n1 @ map wire sent" "subseq sent es"
      "set ids' \<subseteq> e_id ` set sent" by blast
    from broker_okD [OF assms(1) p] show ?case
    proof
      assume "log n1 = log n \<and> r \<noteq> Inr ()"
      with s h(2) show ?thesis by (intro exI [of _ sent]) (auto split: sum.splits)
    next
      assume "log n1 = log n @ [(e_event_type e, e_payload e)]"
      with s h(2) show ?thesis
        by (intro exI [of _ "e # sent"]) (auto simp: wire_def split: sum.splits)
    qed
  qed simp
  then show "set (log n) \<subseteq> set (log n')" "set ids \<subseteq> e_id ` set es"
    by (auto dest!: subseq_set_subset)
qed

lemma hand_over_up:
  assumes "broker_ok pub log" "broker_up pub"
  shows "hand_over pub es n = (map e_id es, snd (hand_over pub es n)) \<and>
    log (snd (hand_over pub es n)) = log n @ map wire es"
proof (induction es arbitrary: n)
  case (Cons e es)
  obtain r n1 where p: "pub (e_event_type e) (e_payload e) n = (r, n1)" by fastforce
  have r: "r = Inr ()" using assms(2) p unfolding broker_up_def by (metis fst_conv)
  from Cons.IH [of n1] broker_okD [OF assms(1) p] show ?case
    by (auto simp: wire_def p r split: prod.splits)
qed simp

lemma same_env_pubD:
  assumes "same_env s (s' :: ('d, 'k, 'n) pub_sess)"
  shows "s_nats s' = s_nats s \<and> s_now s' = s_now s"
  using assms by (cases s; cases s') (simp add: same_env_def)

lemma publish_each_bnd:
  "bnd (publish_each pub es) f s =
    f (fst (hand_over pub es (s_nats s))) (s\<lparr>s_nats := snd (hand_over pub es (s_nats s))\<rparr>)"
  by (simp add: bnd_def publish_each_eq)

section \<open>The contract of a Store\<close>

text \<open>
  The laws a publisher and the writers of events rely on. \<open>rows\<close> is the outbox table of the
  database, \<open>rest\<close> everything else in it.
\<close>

locale outbox_store =
  fixes st :: "('d, 'k) store" and rows :: "'d \<Rightarrow> 'k entry list" and rest :: "'d \<Rightarrow> 'r"
  assumes insert_row: "Insert st e now u d = Inr (x, d') \<Longrightarrow>
      \<exists>i. i \<notin> e_id ` set (rows d) \<and> rest d' = rest d \<and>
        rows d' = rows d @ [e\<lparr>e_id := i, e_created_at := now, e_published_at := None\<rparr>]"
    and fetch: "0 \<le> n \<Longrightarrow>
      FetchUnpublished st locked n now u d = Inr (oldest locked (nat n) (rows d), d)"
    and mark: "ids \<noteq> [] \<Longrightarrow> \<exists>d'. MarkPublished st ids now u d = Inr ((), d') \<and>
      rows d' = map (stamp now ids) (rows d) \<and> rest d' = rest d"
begin

text \<open>After the loop: the marks, if any, and the commit.\<close>

lemma settle_cases:
  assumes "bnd (if ids \<noteq> [] then stmt (MarkPublished st ids) else ret ()) (\<lambda>_. commit_tx)
      (s :: ('d, 'k, 'n) pub_sess) = (q, s')"
    and "s_tx s = s_db s"
  shows "s_nats s' = s_nats s" "s_db s' = s_db s \<or>
    rows (s_db s') = map (stamp (s_now s) ids) (rows (s_db s)) \<and> rest (s_db s') = rest (s_db s)"
proof -
  have marks: "rows d' = map (stamp now ids) (rows d) \<and> rest d' = rest d"
    if "MarkPublished st ids now u d = Inr (x, d')" "ids \<noteq> []" for now u d x d'
    using mark [OF that(2), of now u d] that(1) by auto
  have "s_nats s' = s_nats s \<and> (s_db s' = s_db s \<or>
    rows (s_db s') = map (stamp (s_now s) ids) (rows (s_db s)) \<and> rest (s_db s') = rest (s_db s))"
  proof (cases rule: bnd_eqE [OF assms(1)])
    case (1 e)
    then show ?thesis by (cases "ids = []") (auto elim!: prog_elims dest!: same_env_pubD)
  next
    case (2 x s1)
    from 2(2) have s': "s_db s' = s_db s1 \<or> s_db s' = s_tx s1" "s_nats s' = s_nats s1"
      by (cases rule: commit_tx_eqE; auto dest!: same_env_pubD)+
    show ?thesis
    proof (cases "ids = []")
      case True
      with 2(1) s' assms(2) show ?thesis by simp
    next
      case False
      with 2(1) obtain u where "MarkPublished st ids (s_now s) u (s_tx s) = Inr (x, s_tx s1)"
        "s_db s1 = s_db s" "same_env s s1" by (auto elim!: stmt_InrE)
      with marks [OF this(1) False] s' assms(2) show ?thesis by (auto dest!: same_env_pubD)
    qed
  qed
  then show "s_nats s' = s_nats s" "s_db s' = s_db s \<or>
    rows (s_db s') = map (stamp (s_now s) ids) (rows (s_db s)) \<and> rest (s_db s') = rest (s_db s)"
    by simp_all
qed

lemma PublishBatch_cases:
  assumes "PublishBatch st pub n locked s = (q, s')" "0 \<le> n"
  defines "ids \<equiv> fst (hand_over pub (oldest locked (nat n) (rows (s_db s))) (s_nats s))"
    and "nats \<equiv> snd (hand_over pub (oldest locked (nat n) (rows (s_db s))) (s_nats s))"
  obtains (unchanged) "s_db s' = s_db s" "s_nats s' \<in> {s_nats s, nats}"
  | (marked) "rows (s_db s') = map (stamp (s_now s) ids) (rows (s_db s))"
      "rest (s_db s') = rest (s_db s)" "s_nats s' = nats"
proof (cases rule: bnd_eqE [OF assms(1) [unfolded PublishBatch_def]])
  case (1 e)
  then show thesis by (auto elim!: begin_tx_InlE dest!: same_env_pubD intro: unchanged)
next
  case (2 x s1)
  from 2(1) have s1: "s_db s1 = s_db s" "s_tx s1 = s_db s" "s_nats s1 = s_nats s" "s_now s1 = s_now s"
    by (auto elim!: begin_tx_InrE dest!: same_env_pubD)
  let ?body = "bnd (stmt (FetchUnpublished st locked n)) (\<lambda>entries. if entries = [] then ret ()
       else bnd (publish_each pub entries) (\<lambda>published.
         bnd (if published \<noteq> [] then stmt (MarkPublished st published) else ret ()) (\<lambda>_. commit_tx)))"
  from 2(2) obtain s4 where s4: "?body s1 = (q, s4)" "s_db s' = s_db s4" "s_nats s' = s_nats s4"
    by (auto elim!: defer_rollback_pairE dest!: same_env_pubD)
  show thesis
  proof (cases rule: bnd_eqE [OF s4(1)])
    case (1 e)
    with s1 s4 show thesis by (auto elim!: stmt_InlE dest!: same_env_pubD intro: unchanged)
  next
    case fetched: (2 es s2)
    from fetched(1) assms(2) s1 have s2: "es = oldest locked (nat n) (rows (s_db s))" "s_db s2 = s_db s"
      "s_tx s2 = s_db s" "s_nats s2 = s_nats s" "s_now s2 = s_now s"
      by (auto elim!: stmt_InrE dest!: same_env_pubD simp: fetch)
    show thesis
    proof (cases "es = []")
      case True
      with fetched(2) s2 s4 show thesis by (auto intro: unchanged)
    next
      case False
      with fetched(2) s2 have "bnd (if ids \<noteq> [] then stmt (MarkPublished st ids) else ret ())
          (\<lambda>_. commit_tx) (s2\<lparr>s_nats := nats\<rparr>) = (q, s4)"
        by (simp add: publish_each_bnd ids_def nats_def split del: if_split cong: if_cong)
      from settle_cases [OF this] s2 s4 show thesis by (auto intro: unchanged marked)
    qed
  qed
qed

end

text \<open>The entries still to be handed over, in the order they are.\<close>

definition pending :: "'k entry list \<Rightarrow> 'k entry list" where
  "pending es = sort_key e_created_at (filter unpublished es)"

definition unstamped :: "'k entry list \<Rightarrow> 'k entry list" where
  "unstamped = map (\<lambda>e. e\<lparr>e_published_at := None\<rparr>)"

text \<open>The outbox entries of one event type about one aggregate.\<close>

definition events :: "string \<Rightarrow> 'k \<Rightarrow> 'k entry list \<Rightarrow> nat" where
  "events typ i es = length (filter (\<lambda>e. e_event_type e = typ \<and> e_aggregate_id e = i) es)"

lemma events_snoc [simp]:
  "events typ i (es @ [e]) = events typ i es + of_bool (e_event_type e = typ \<and> e_aggregate_id e = i)"
  by (simp add: events_def)

lemma events_unstamped [simp]: "events t i (unstamped es) = events t i es"
  by (simp add: events_def unstamped_def filter_map o_def)

text \<open>No entry is marked published that the broker has not stored.\<close>

definition marks_stored :: "('n \<Rightarrow> (string \<times> json) list) \<Rightarrow> 'k entry list \<Rightarrow> 'n \<Rightarrow> bool" where
  "marks_stored log es n \<longleftrightarrow> list_all (\<lambda>e. unpublished e \<or> wire e \<in> set (log n)) es"

lemma unpublished_stamp: "unpublished (stamp now ids e) \<longleftrightarrow> unpublished e \<and> e_id e \<notin> set ids"
  by (simp add: unpublished_def stamp_def)

lemma stamp_simps [simp]:
  "e_id (stamp now ids e) = e_id e" "wire (stamp now ids e) = wire e"
  "e_created_at (stamp now ids e) = e_created_at e"
  by (simp_all add: stamp_def wire_def)

lemma unstamped_stamp [simp]: "unstamped (map (stamp now ids) es) = unstamped es"
  by (simp add: unstamped_def stamp_def)

lemma map_unstamped: "map e_id (unstamped es) = map e_id es"
  by (simp add: unstamped_def)

lemma set_oldest: "set (oldest locked n es) \<subseteq> set es"
  by (auto simp: oldest_def dest!: in_set_takeD)

lemma oldest_free: "oldest {} n es = take n (pending es)"
  by (simp add: oldest_def pending_def)

lemma filter_notin_take:
  assumes "distinct (map f ys)"
  shows "filter (\<lambda>y. f y \<notin> f ` set (take n ys)) ys = drop n ys"
proof -
  let ?P = "\<lambda>y. f y \<notin> f ` set (take n ys)"
  have "distinct (map f (take n ys) @ map f (drop n ys))"
    using assms by (metis append_take_drop_id map_append)
  then have "\<forall>y\<in>set (drop n ys). ?P y"
    by (simp only: distinct_append set_map) blast
  then have "filter ?P (take n ys) = []" "filter ?P (drop n ys) = drop n ys"
    by (simp_all add: filter_empty_conv)
  then show ?thesis by (metis append_take_drop_id filter_append append_Nil)
qed

lemma filter_stamped:
  "filter unpublished (map (stamp now ids) es) = filter (\<lambda>e. e_id e \<notin> set ids) (filter unpublished es)"
proof (induction es)
  case (Cons e es)
  moreover have "e_id e \<notin> set ids \<Longrightarrow> stamp now ids e = e" by (simp add: stamp_def)
  ultimately show ?case by (auto simp: unpublished_stamp)
qed simp

lemma distinct_pending:
  assumes "distinct (map e_id es)"
  shows "distinct (map e_id (pending es))"
  using assms by (simp add: pending_def distinct_map inj_on_def)

lemma pending_after:
  assumes "distinct (map e_id es)"
  shows "pending (map (stamp now (map e_id (take n (pending es)))) es) = drop n (pending es)"
proof -
  have "pending (map (stamp now (map e_id (take n (pending es)))) es)
      = filter (\<lambda>e. e_id e \<notin> e_id ` set (take n (pending es))) (pending es)"
    unfolding pending_def filter_stamped filter_sort [symmetric] by simp
  also have "\<dots> = drop n (pending es)"
    using distinct_pending [OF assms] by (rule filter_notin_take)
  finally show ?thesis .
qed

context outbox_store
begin

lemma PublishBatch_rest:
  assumes "PublishBatch st pub n locked s = (q, s')" "0 \<le> n"
  shows "rest (s_db s') = rest (s_db s) \<and> unstamped (rows (s_db s')) = unstamped (rows (s_db s))"
  using assms by (cases rule: PublishBatch_cases) simp_all

lemma PublishBatch_marks_stored:
  assumes "PublishBatch st pub n locked s = (q, s')" "0 \<le> n" and ok: "broker_ok pub log"
    and "distinct (map e_id (rows (s_db s)))" "marks_stored log (rows (s_db s)) (s_nats s)"
  shows "marks_stored log (rows (s_db s')) (s_nats s')"
proof -
  define es where "es = oldest locked (nat n) (rows (s_db s))"
  obtain ids nats where h: "hand_over pub es (s_nats s) = (ids, nats)" by fastforce
  note stored = hand_over_stored [OF ok h]
  from stored(3) obtain sent where sent: "log nats = log (s_nats s) @ map wire sent"
    "set sent \<subseteq> set es" "set ids \<subseteq> e_id ` set sent" by (auto dest: subseq_set_subset)
  have old: "unpublished e \<or> wire e \<in> set (log nats)" if "e \<in> set (rows (s_db s))" for e
    using assms(5) stored(1) that by (auto simp: marks_stored_def list_all_iff)
  have new: "wire e \<in> set (log nats)" if "e \<in> set (rows (s_db s))" "e_id e \<in> set ids" for e
  proof -
    from that(2) sent obtain x where "x \<in> set sent" "e_id x = e_id e" by auto
    moreover from this sent set_oldest have "x \<in> set (rows (s_db s))" by (fastforce simp: es_def)
    ultimately have "x = e"
      using assms(4) that(1) by (metis inj_onD distinct_map)
    with \<open>x \<in> set sent\<close> sent(1) show ?thesis by simp
  qed
  from assms(1,2) show ?thesis
  proof (cases rule: PublishBatch_cases)
    case unchanged
    with h old assms(5) show ?thesis by (auto simp: es_def marks_stored_def list_all_iff)
  next
    case marked
    with h old new show ?thesis
      by (auto simp: es_def marks_stored_def list_all_iff unpublished_stamp)
  qed
qed

lemma Run_marks_stored:
  assumes "broker_ok pub log" "distinct (map e_id (rows (s_db s)))"
    "marks_stored log (rows (s_db s)) (s_nats s)"
  shows "marks_stored log (rows (s_db (Run st pub ticks s))) (s_nats (Run st pub ticks s))
    \<and> rest (s_db (Run st pub ticks s)) = rest (s_db s)
    \<and> unstamped (rows (s_db (Run st pub ticks s))) = unstamped (rows (s_db s))"
  using assms(2,3)
proof (induction ticks arbitrary: s)
  case (Cons locked ticks)
  obtain q s' where p: "PublishBatch st pub batch_size locked s = (q, s')" by fastforce
  have n: "0 \<le> batch_size" by (simp add: batch_size_def)
  note same = PublishBatch_rest [OF p n]
  with map_unstamped have "map e_id (rows (s_db s')) = map e_id (rows (s_db s))" by metis
  with Cons.IH [of s'] PublishBatch_marks_stored [OF p n assms(1) Cons.prems] Cons.prems same
  show ?case by (simp add: p)
qed simp

text \<open>With the database and the broker up, a batch hands over its entries and marks them.\<close>

lemma PublishBatch_fine:
  assumes "s_faults s = []" "broker_ok pub log" "broker_up pub"
    "distinct (map e_id (rows (s_db s)))" "0 \<le> n"
  obtains s' where "PublishBatch st pub n {} s = (Inr (), s')" "s_faults s' = []"
    "pending (rows (s_db s')) = drop (nat n) (pending (rows (s_db s)))"
    "unstamped (rows (s_db s')) = unstamped (rows (s_db s))" "rest (s_db s') = rest (s_db s)"
    "log (s_nats s') = log (s_nats s) @ map wire (take (nat n) (pending (rows (s_db s))))"
proof -
  let ?es = "take (nat n) (pending (rows (s_db s)))"
  obtain nats where h: "hand_over pub ?es (s_nats s) = (map e_id ?es, nats)"
    "log nats = log (s_nats s) @ map wire ?es"
    using hand_over_up [OF assms(2,3), of ?es "s_nats s"] by blast
  show thesis
  proof (cases "?es = []")
    case True
    then have "PublishBatch st pub n {} s = (Inr (), s\<lparr>s_tx := s_db s, s_used := Suc (s_used s)\<rparr>)"
      using assms(1,5) by (simp add: PublishBatch_def bnd_def fine_runs fetch oldest_free)
    with True assms(1) show thesis by (intro that) (assumption, auto)
  next
    case False
    obtain d where d: "MarkPublished st (map e_id ?es) (s_now s) (s_gen s (Suc (s_used s))) (s_db s) = Inr ((), d)"
      "rows d = map (stamp (s_now s) (map e_id ?es)) (rows (s_db s))" "rest d = rest (s_db s)"
      using mark False by (metis map_is_Nil_conv)
    show thesis
    proof (rule that)
      show "PublishBatch st pub n {} s = (Inr (), s\<lparr>s_tx := d, s_db := d,
          s_used := Suc (Suc (s_used s)), s_nats := nats\<rparr>)"
        using assms(1,5) False h d(1)
        by (simp add: PublishBatch_def bnd_def fine_runs fetch oldest_free publish_each_eq)
    qed (use assms d h pending_after in auto)
  qed
qed

lemma Run_drains:
  assumes "broker_ok pub log" "broker_up pub" "s_faults s = []"
    "distinct (map e_id (rows (s_db s)))" "length (pending (rows (s_db s))) \<le> 100 * k"
  shows "pending (rows (s_db (Run st pub (replicate k {}) s))) = []
    \<and> log (s_nats (Run st pub (replicate k {}) s)) = log (s_nats s) @ map wire (pending (rows (s_db s)))"
  using assms(3-)
proof (induction k arbitrary: s)
  case (Suc k)
  have "0 \<le> batch_size" by (simp add: batch_size_def)
  from PublishBatch_fine [OF Suc.prems(1) assms(1,2) Suc.prems(2) this] obtain s' where s':
    "PublishBatch st pub batch_size {} s = (Inr (), s')" "s_faults s' = []"
    "pending (rows (s_db s')) = drop 100 (pending (rows (s_db s)))"
    "unstamped (rows (s_db s')) = unstamped (rows (s_db s))"
    "log (s_nats s') = log (s_nats s) @ map wire (take 100 (pending (rows (s_db s))))"
    by (auto simp: batch_size_def)
  moreover have "map e_id (rows (s_db s')) = map e_id (rows (s_db s))"
    using s'(4) map_unstamped by metis
  ultimately show ?case
    using Suc.IH [of s'] Suc.prems by (simp flip: map_append)
qed simp

end

text \<open>
  The PostgreSQL store keeps the contract on any database of which its table is a part.
\<close>

lemma PostgresStore_contract:
  assumes "\<And>es d. rows (put es d) = es" "\<And>es d. rest (put es d) = rest d"
  shows "outbox_store (PostgresStore rows put) rows rest"
  by unfold_locales
    (auto simp: PostgresStore_def pg_Insert_def pg_FetchUnpublished_def pg_MarkPublished_def assms
      split: if_splits)

end
