(* ===== verification/PaymentsStore.thy ===== *)
theory PaymentsStore
  imports Outbox
begin

text \<open>
  The payments database (services/payments/migrations) and its stores (wallet_store.go,
  hold_store.go, transaction_store.go): a table is a list of rows, a store method is the SQL
  statement it sends, with the schema's keys, foreign keys and checks as the errors it can
  report. Amounts are Go \<open>int64\<close>s and PostgreSQL \<open>BIGINT\<close>s; \<open>SUM\<close> over \<open>BIGINT\<close> is a
  \<open>NUMERIC\<close>, so sums are exact integers until they are scanned into an \<open>int64\<close>.
\<close>

section \<open>Tables\<close>

record wallet_row =
  w_id :: uuid
  w_user_id :: uuid
  w_balance :: int64
  w_currency :: string
  w_created_at :: int
  w_updated_at :: int

text \<open>The Go \<open>Wallet\<close> adds the computed available balance.\<close>

record Wallet = wallet_row +
  w_available :: int64

record Hold =
  h_id :: uuid
  h_wallet_id :: uuid
  h_amount :: int64
  h_status :: string
  h_contract_id :: uuid
  h_created_at :: int
  h_expires_at :: "int option"

record Transaction =
  t_id :: uuid
  t_wallet_id :: uuid
  t_amount :: int64
  t_type :: string
  t_hold_id :: "uuid option"
  t_reference_id :: "uuid option"
  t_created_at :: int

record pdb =
  wallets :: "wallet_row list"
  holds :: "Hold list"
  transactions :: "Transaction list"
  outbox :: "uuid entry list"

type_synonym psess = "(pdb, uuid) sess"
type_synonym 'a psql = "(pdb, uuid, 'a) sql"

definition payments_outbox :: "(pdb, uuid) store" where
  "payments_outbox = PostgresStore outbox (\<lambda>es d. d\<lparr>outbox := es\<rparr>)"

interpretation payments_events: outbox_store payments_outbox outbox "\<lambda>d. d\<lparr>outbox := []\<rparr>"
  unfolding payments_outbox_def by (rule PostgresStore_contract) simp_all

definition hold_statuses :: "string list" where
  "hold_statuses = [''active'', ''released'', ''transferred'']"

definition transaction_types :: "string list" where
  "transaction_types =
     [''hold'', ''hold_failed'', ''release'', ''transfer_debit'', ''transfer_credit'']"

section \<open>Wallets\<close>

definition active :: "Hold \<Rightarrow> bool" where
  "active h \<longleftrightarrow> h_status h = ''active''"

text \<open>\<open>SUM(amount) \<dots> WHERE wallet_id = w AND status = 'active'\<close>, 0 when there is none.\<close>

definition held :: "uuid \<Rightarrow> Hold list \<Rightarrow> int" where
  "held w hs = sum_list (map (\<lambda>h. sint (h_amount h)) (filter (\<lambda>h. h_wallet_id h = w \<and> active h) hs))"

definition available :: "pdb \<Rightarrow> wallet_row \<Rightarrow> int" where
  "available d r = sint (w_balance r) - held (w_id r) (holds d)"

definition scan_int64 :: "int \<Rightarrow> db_err + int64" where
  "scan_int64 n = (if - (2 ^ 63) \<le> n \<and> n < 2 ^ 63 then Inr (word_of_int n) else Inl ErrScan)"

definition with_available :: "wallet_row \<Rightarrow> int64 \<Rightarrow> Wallet" where
  "with_available r a =
     \<lparr>w_id = w_id r, w_user_id = w_user_id r, w_balance = w_balance r, w_currency = w_currency r,
      w_created_at = w_created_at r, w_updated_at = w_updated_at r, w_available = a\<rparr>"

definition scan_wallet :: "pdb \<Rightarrow> wallet_row \<Rightarrow> db_err + Wallet" where
  "scan_wallet d r =
     (case scan_int64 (available d r) of Inl e \<Rightarrow> Inl e | Inr a \<Rightarrow> Inr (with_available r a))"

definition wallet_GetByUserID :: "uuid \<Rightarrow> Wallet psql" where
  "wallet_GetByUserID user now u d =
     (case sel w_user_id user (wallets d) of
        None \<Rightarrow> Inl ErrNoRows
      | Some r \<Rightarrow> (case scan_wallet d r of Inl e \<Rightarrow> Inl e | Inr w \<Rightarrow> Inr (w, d)))"

definition wallet_GetByIDForUpdate :: "uuid \<Rightarrow> Wallet psql" where
  "wallet_GetByIDForUpdate i now u d =
     (case sel w_id i (wallets d) of
        None \<Rightarrow> Inl ErrNoRows
      | Some r \<Rightarrow> (case scan_wallet d r of Inl e \<Rightarrow> Inl e | Inr w \<Rightarrow> Inr (w, d)))"

text \<open>The column's \<open>CHECK (balance >= 0)\<close> refuses a negative balance on any row it would hit.\<close>

definition wallet_UpdateBalance :: "uuid \<Rightarrow> int64 \<Rightarrow> unit psql" where
  "wallet_UpdateBalance i newBalance now u d =
     (if sel w_id i (wallets d) \<noteq> None \<and> newBalance <s 0 then Inl ErrConstraint
      else Inr ((), d\<lparr>wallets := upd w_id i
             (\<lambda>r. r\<lparr>w_balance := newBalance, w_updated_at := now\<rparr>) (wallets d)\<rparr>))"

text \<open>
  An existing user keeps its wallet (\<open>DO UPDATE SET balance = wallets.balance\<close>); the returned
  \<open>available_balance\<close> is the plain balance.
\<close>

definition wallet_Seed :: "uuid \<Rightarrow> int64 \<Rightarrow> string \<Rightarrow> Wallet psql" where
  "wallet_Seed user bal currency now u d =
     (if bal <s 0 then Inl ErrConstraint
      else case sel w_user_id user (wallets d) of
        Some r \<Rightarrow> Inr (with_available r (w_balance r), d)
      | None \<Rightarrow>
          if sel w_id u (wallets d) \<noteq> None then Inl ErrConstraint
          else let r = \<lparr>w_id = u, w_user_id = user, w_balance = bal, w_currency = currency,
                        w_created_at = now, w_updated_at = now\<rparr>
               in Inr (with_available r bal, d\<lparr>wallets := wallets d @ [r]\<rparr>))"

fun scan_wallets :: "pdb \<Rightarrow> wallet_row list \<Rightarrow> db_err + Wallet list" where
  "scan_wallets d [] = Inr []"
| "scan_wallets d (r # rs) =
     (case scan_wallet d r of
        Inl e \<Rightarrow> Inl e
      | Inr w \<Rightarrow> (case scan_wallets d rs of Inl e \<Rightarrow> Inl e | Inr ws \<Rightarrow> Inr (w # ws)))"

definition clamp_limit :: "int \<Rightarrow> int" where
  "clamp_limit limit = (if limit \<le> 0 \<or> 100 < limit then 20 else limit)"

definition wallet_ListAll :: "int \<Rightarrow> int \<Rightarrow> Wallet list psql" where
  "wallet_ListAll limit offset now u d =
     (if offset < 0 then Inl ErrArgument
      else case scan_wallets d (take (nat (clamp_limit limit)) (drop (nat offset)
                  (sort_key (\<lambda>r. - w_created_at r) (wallets d)))) of
        Inl e \<Rightarrow> Inl e
      | Inr ws \<Rightarrow> Inr (ws, d))"

definition wallet_Count :: "int psql" where
  "wallet_Count now u d = Inr (int (length (wallets d)), d)"

section \<open>Holds\<close>

definition hold_Create :: "uuid \<Rightarrow> int64 \<Rightarrow> uuid \<Rightarrow> Hold psql" where
  "hold_Create wallet amount contract now u d =
     (if sel w_id wallet (wallets d) = None \<or> amount <=s 0 \<or> sel h_id u (holds d) \<noteq> None
      then Inl ErrConstraint
      else let h = \<lparr>h_id = u, h_wallet_id = wallet, h_amount = amount, h_status = ''active'',
                    h_contract_id = contract, h_created_at = now, h_expires_at = None\<rparr>
           in Inr (h, d\<lparr>holds := holds d @ [h]\<rparr>))"

definition hold_GetByIDForUpdate :: "uuid \<Rightarrow> Hold psql" where
  "hold_GetByIDForUpdate i now u d =
     (case sel h_id i (holds d) of None \<Rightarrow> Inl ErrNoRows | Some h \<Rightarrow> Inr (h, d))"

definition hold_UpdateStatus :: "uuid \<Rightarrow> string \<Rightarrow> unit psql" where
  "hold_UpdateStatus i status now u d =
     (if sel h_id i (holds d) \<noteq> None \<and> status \<notin> set hold_statuses then Inl ErrConstraint
      else Inr ((), d\<lparr>holds := upd h_id i (\<lambda>h. h\<lparr>h_status := status\<rparr>) (holds d)\<rparr>))"

definition hold_SumActiveByWallet :: "uuid \<Rightarrow> int64 psql" where
  "hold_SumActiveByWallet w now u d =
     (case scan_int64 (held w (holds d)) of Inl e \<Rightarrow> Inl e | Inr n \<Rightarrow> Inr (n, d))"

section \<open>Transactions\<close>

text \<open>The id and the time of the argument are not sent; the row comes back with its own.\<close>

definition transaction_Create :: "Transaction \<Rightarrow> Transaction psql" where
  "transaction_Create t now u d =
     (if sel w_id (t_wallet_id t) (wallets d) = None
         \<or> t_type t \<notin> set transaction_types
         \<or> (case t_hold_id t of None \<Rightarrow> False | Some i \<Rightarrow> sel h_id i (holds d) = None)
         \<or> sel t_id u (transactions d) \<noteq> None
      then Inl ErrConstraint
      else let r = t\<lparr>t_id := u, t_created_at := now\<rparr>
           in Inr (r, d\<lparr>transactions := transactions d @ [r]\<rparr>))"

section \<open>The seed command\<close>

text \<open>
  cmd/seed inserts the test users' wallets, one statement each, and stops at the first error;
  a user that already has a wallet is left alone (\<open>DO NOTHING\<close>).
\<close>

definition seed_insert :: "uuid \<Rightarrow> int64 \<Rightarrow> unit psql" where
  "seed_insert user bal now u d =
     (if bal <s 0 then Inl ErrConstraint
      else if sel w_user_id user (wallets d) \<noteq> None then Inr ((), d)
      else if sel w_id u (wallets d) \<noteq> None then Inl ErrConstraint
      else Inr ((), d\<lparr>wallets := wallets d @
             [\<lparr>w_id = u, w_user_id = user, w_balance = bal, w_currency = ''USD'',
               w_created_at = now, w_updated_at = now\<rparr>]\<rparr>))"

definition testUsers :: "(uuid \<times> int64) list" where
  "testUsers =
     [(0x11111111111111111111111111111111, 100000),
      (0x22222222222222222222222222222222, 50000),
      (0x33333333333333333333333333333333, 0),
      (0x44444444444444444444444444444444, 0),
      (0x55555555555555555555555555555555, 0)]"

fun seed_users :: "(uuid \<times> int64) list \<Rightarrow> (psess, db_err, unit) prog" where
  "seed_users [] = ret ()"
| "seed_users ((user, bal) # us) = bnd (auto_stmt (seed_insert user bal)) (\<lambda>_. seed_users us)"

definition seed_main :: "(psess, db_err, unit) prog" where
  "seed_main = seed_users testUsers"

end
