(* ===== verification/Params.thy ===== *)
theory Params
  imports Json
begin

text \<open>
  Integer parameters of a query string, as the handlers of the payments and contracts services
  read them: absent, decimal, or refused.
\<close>

text \<open>
  \<open>strconv.Atoi\<close> for a 64-bit \<open>int\<close>: an optional sign and decimal digits, in range. The
  value it returns beside an error is the nearest bound for a range error and 0 for a syntax
  error. Reading stops at the first digit that takes the number to \<open>2 ^ 64\<close>, whatever follows.
\<close>

definition digit :: "char \<Rightarrow> int option" where
  "digit ch = (let n = (of_char ch :: int) in if 48 \<le> n \<and> n \<le> 57 then Some (n - 48) else None)"

fun digits :: "int \<Rightarrow> string \<Rightarrow> int option" where
  "digits acc [] = Some acc"
| "digits acc (ch # cs) =
     (case digit ch of
        None \<Rightarrow> None
      | Some n \<Rightarrow> if 2 ^ 64 \<le> 10 * acc + n then Some (10 * acc + n) else digits (10 * acc + n) cs)"

definition Atoi :: "string \<Rightarrow> bool \<times> int" where
  "Atoi s =
     (let (neg, ds) = (case s of
            CHR ''-'' # cs \<Rightarrow> (True, cs)
          | CHR ''+'' # cs \<Rightarrow> (False, cs)
          | _ \<Rightarrow> (False, s))
      in if ds = [] then (False, 0)
         else case digits 0 ds of
           None \<Rightarrow> (False, 0)
         | Some n \<Rightarrow>
             if neg then (if n \<le> 2 ^ 63 then (True, - n) else (False, - (2 ^ 63)))
             else (if n < 2 ^ 63 then (True, n) else (False, 2 ^ 63 - 1)))"

definition int_param :: "string \<Rightarrow> int \<Rightarrow> string \<Rightarrow> ('s, response, int) prog" where
  "int_param v deflt err =
     (if v = '''' then ret deflt
      else case Atoi v of (ok, n) \<Rightarrow> if ok then ret n else raise (error_resp 400 err))"

text \<open>What a parameter says, and the runs that read it.\<close>

definition param :: "string \<Rightarrow> int \<Rightarrow> int option" where
  "param v deflt = (if v = '''' then Some deflt else case Atoi v of (ok, n) \<Rightarrow> if ok then Some n else None)"

lemma int_param_InrE [prog_elims]:
  assumes "int_param v deflt err s = (Inr n, s')" obtains "param v deflt = Some n" "s' = s"
  using assms by (auto simp: int_param_def param_def split: if_splits prod.splits)

lemma int_param_InlE [prog_elims]:
  assumes "int_param v deflt err s = (Inl r, s')" obtains "param v deflt = None" "s' = s" "r = error_resp 400 err"
  using assms by (auto simp: int_param_def param_def split: if_splits prod.splits)

end
