(* ===== verification/PaymentsHandler.thy ===== *)
theory PaymentsHandler
  imports PaymentsStore Params
begin

text \<open>
  The HTTP handlers of the payments service (services/payments/cmd/server/handler.go), one
  program per handler, in the order of its checks, statements and early returns. Gin's binding
  of the request body is outside the repository: a handler gets the bound request, or \<open>None\<close>
  where \<open>ShouldBindJSON\<close> reports an error. Marshalling the payloads cannot fail (no value in
  them has a type \<open>encoding/json\<close> refuses), so those branches do not appear.
\<close>

section \<open>Requests, payloads\<close>

record HoldRequest =
  hr_wallet_id :: uuid
  hr_amount :: int64
  hr_contract_id :: uuid

record ReleaseRequest =
  rr_hold_id :: uuid

record TransferRequest =
  tr_hold_id :: uuid
  tr_recipient_wallet_id :: uuid

definition EventPaymentHeld :: string where
  "EventPaymentHeld = ''payments.payment.held''"

definition EventPaymentReleased :: string where
  "EventPaymentReleased = ''payments.payment.released''"

definition EventPaymentTransferred :: string where
  "EventPaymentTransferred = ''payments.payment.transferred''"

definition EventPaymentFailed :: string where
  "EventPaymentFailed = ''payments.payment.failed''"

lemmas event_names =
  EventPaymentHeld_def EventPaymentReleased_def EventPaymentTransferred_def EventPaymentFailed_def

definition hold_json :: "codec \<Rightarrow> Hold \<Rightarrow> json" where
  "hold_json c h = JObj
     ([(''id'', json_uuid c (h_id h)), (''wallet_id'', json_uuid c (h_wallet_id h)),
       (''amount'', json_int64 (h_amount h)), (''status'', JStr (h_status h)),
       (''contract_id'', json_uuid c (h_contract_id h)),
       (''created_at'', json_time c (h_created_at h))]
      @ omitzero ''expires_at'' (json_time c) (h_expires_at h))"

definition wallet_json :: "codec \<Rightarrow> Wallet \<Rightarrow> json" where
  "wallet_json c w = JObj
     [(''id'', json_uuid c (w_id w)), (''user_id'', json_uuid c (w_user_id w)),
      (''balance'', json_int64 (w_balance w)), (''currency'', JStr (w_currency w)),
      (''available_balance'', json_int64 (w_available w)),
      (''created_at'', json_time c (w_created_at w)), (''updated_at'', json_time c (w_updated_at w))]"

text \<open>A \<open>map[string]any\<close> is marshalled with its keys in order.\<close>

definition failed_payload :: "codec \<Rightarrow> uuid \<Rightarrow> HoldRequest \<Rightarrow> json" where
  "failed_payload c wallet req = JObj
     [(''amount'', json_int64 (hr_amount req)), (''contract_id'', json_uuid c (hr_contract_id req)),
      (''reason'', JStr ''insufficient funds''), (''wallet_id'', json_uuid c wallet)]"

definition transferred_payload :: "codec \<Rightarrow> Hold \<Rightarrow> uuid \<Rightarrow> uuid \<Rightarrow> json" where
  "transferred_payload c h source recipient = JObj
     [(''amount'', json_int64 (h_amount h)), (''contract_id'', json_uuid c (h_contract_id h)),
      (''hold_id'', json_uuid c (h_id h)), (''recipient_wallet_id'', json_uuid c recipient),
      (''source_wallet_id'', json_uuid c source)]"

definition transferred_response :: "codec \<Rightarrow> Hold \<Rightarrow> uuid \<Rightarrow> uuid \<Rightarrow> json" where
  "transferred_response c h source recipient = JObj
     [(''amount'', json_int64 (h_amount h)), (''hold_id'', json_uuid c (h_id h)),
      (''recipient_wallet_id'', json_uuid c recipient),
      (''source_wallet_id'', json_uuid c source), (''status'', JStr ''transferred'')]"

text \<open>Struct literals: the fields the code leaves out are zero.\<close>

definition new_transaction :: "uuid \<Rightarrow> int64 \<Rightarrow> string \<Rightarrow> uuid option \<Rightarrow> Transaction" where
  "new_transaction wallet amount type hold =
     \<lparr>t_id = uuid_Nil, t_wallet_id = wallet, t_amount = amount, t_type = type,
      t_hold_id = hold, t_reference_id = None, t_created_at = 0\<rparr>"

definition new_entry :: "string \<Rightarrow> uuid \<Rightarrow> string \<Rightarrow> json \<Rightarrow> uuid entry" where
  "new_entry aggregate_type aggregate event payload =
     \<lparr>e_id = uuid_Nil, e_aggregate_type = aggregate_type, e_aggregate_id = aggregate,
      e_event_type = event, e_payload = payload, e_created_at = 0, e_published_at = None\<rparr>"

text \<open>What the handlers make of an error of a store.\<close>

definition or_500 :: "('s, db_err, 'a) prog \<Rightarrow> ('s, response, 'a) prog" where
  "or_500 = map_err (\<lambda>_. internal_error)"

definition or_404 :: "string \<Rightarrow> ('s, db_err, 'a) prog \<Rightarrow> ('s, response, 'a) prog" where
  "or_404 msg = map_err (\<lambda>e. if e = ErrNoRows then error_resp 404 msg else internal_error)"

lemma or_500_InrE [prog_elims]:
  assumes "or_500 m s = (Inr x, s')" obtains "m s = (Inr x, s')"
  using assms by (auto simp: or_500_def elim: map_err_InrE)

lemma or_500_InlE [prog_elims]:
  assumes "or_500 m s = (Inl r, s')" obtains e where "m s = (Inl e, s')" "r = internal_error"
  using assms by (auto simp: or_500_def elim: map_err_InlE)

lemma or_404_InrE [prog_elims]:
  assumes "or_404 msg m s = (Inr x, s')" obtains "m s = (Inr x, s')"
  using assms by (auto simp: or_404_def elim: map_err_InrE)

lemma or_404_InlE [prog_elims]:
  assumes "or_404 msg m s = (Inl r, s')"
  obtains e where "m s = (Inl e, s')" "r = (if e = ErrNoRows then error_resp 404 msg else internal_error)"
  using assms by (auto simp: or_404_def elim: map_err_InlE)

section \<open>HoldFunds\<close>

definition hold_insufficient ::
  "codec \<Rightarrow> HoldRequest \<Rightarrow> Wallet \<Rightarrow> (psess, response, response) prog" where
  "hold_insufficient c req wallet =
     bnd (or_500 (stmt (transaction_Create
       (new_transaction (w_id wallet) (- hr_amount req) ''hold_failed'' None)))) (\<lambda>failedTx.
     bnd (or_500 (stmt (Insert payments_outbox
       (new_entry ''payment'' (t_id failedTx) EventPaymentFailed
          (failed_payload c (w_id wallet) req))))) (\<lambda>_.
     bnd (or_500 commit_tx) (\<lambda>_.
     ret (error_resp 422 ''insufficient funds''))))"

definition hold_place ::
  "codec \<Rightarrow> HoldRequest \<Rightarrow> Wallet \<Rightarrow> (psess, response, response) prog" where
  "hold_place c req wallet =
     bnd (or_500 (stmt (hold_Create (w_id wallet) (hr_amount req) (hr_contract_id req)))) (\<lambda>hold.
     bnd (or_500 (stmt (transaction_Create
       (new_transaction (w_id wallet) (- hr_amount req) ''hold'' (Some (h_id hold)))))) (\<lambda>_.
     bnd (or_500 (stmt (Insert payments_outbox
       (new_entry ''payment'' (h_id hold) EventPaymentHeld (hold_json c hold))))) (\<lambda>_.
     bnd (or_500 commit_tx) (\<lambda>_.
     ret (Resp 201 (hold_json c hold))))))"

definition HoldFunds :: "codec \<Rightarrow> HoldRequest option \<Rightarrow> (psess, response, response) prog" where
  "HoldFunds c bound =
     (case bound of None \<Rightarrow> raise (error_resp 400 ''invalid request body'')
      | Some req \<Rightarrow>
          if hr_wallet_id req = uuid_Nil then raise (error_resp 400 ''wallet_id is required'')
          else if hr_amount req <=s 0 then raise (error_resp 400 ''amount must be positive'')
          else if hr_contract_id req = uuid_Nil then raise (error_resp 400 ''contract_id is required'')
          else
            bnd (or_500 begin_tx) (\<lambda>_. defer_rollback (
            bnd (or_404 ''wallet not found'' (stmt (wallet_GetByIDForUpdate (hr_wallet_id req)))) (\<lambda>wallet.
            if w_available wallet <s hr_amount req then hold_insufficient c req wallet
            else hold_place c req wallet))))"

section \<open>ReleaseFunds\<close>

definition ReleaseFunds :: "codec \<Rightarrow> ReleaseRequest option \<Rightarrow> (psess, response, response) prog" where
  "ReleaseFunds c bound =
     (case bound of None \<Rightarrow> raise (error_resp 400 ''invalid request body'')
      | Some req \<Rightarrow>
          if rr_hold_id req = uuid_Nil then raise (error_resp 400 ''hold_id is required'')
          else
            bnd (or_500 begin_tx) (\<lambda>_. defer_rollback (
            bnd (or_404 ''hold not found'' (stmt (hold_GetByIDForUpdate (rr_hold_id req)))) (\<lambda>hold.
            if h_status hold \<noteq> ''active'' then raise (error_resp 409 ''hold is not active'')
            else
              bnd (or_500 (stmt (hold_UpdateStatus (h_id hold) ''released''))) (\<lambda>_.
              let hold = hold\<lparr>h_status := ''released''\<rparr> in
              bnd (or_500 (stmt (transaction_Create
                (new_transaction (h_wallet_id hold) (h_amount hold) ''release'' (Some (h_id hold)))))) (\<lambda>_.
              bnd (or_500 (stmt (Insert payments_outbox
                (new_entry ''payment'' (h_id hold) EventPaymentReleased (hold_json c hold))))) (\<lambda>_.
              bnd (or_500 commit_tx) (\<lambda>_.
              ret (Resp 200 (hold_json c hold))))))))))"

section \<open>TransferFunds\<close>

definition transfer_move ::
  "codec \<Rightarrow> Hold \<Rightarrow> Wallet \<Rightarrow> Wallet \<Rightarrow> (psess, response, response) prog" where
  "transfer_move c hold source recipient =
     bnd (or_500 (stmt (wallet_UpdateBalance (w_id source) (w_balance source - h_amount hold)))) (\<lambda>_.
     bnd (or_500 (stmt (wallet_UpdateBalance (w_id recipient) (w_balance recipient + h_amount hold)))) (\<lambda>_.
     bnd (or_500 (stmt (hold_UpdateStatus (h_id hold) ''transferred''))) (\<lambda>_.
     bnd (or_500 (stmt (transaction_Create
       (new_transaction (w_id source) (- h_amount hold) ''transfer_debit'' (Some (h_id hold)))))) (\<lambda>_.
     bnd (or_500 (stmt (transaction_Create
       (new_transaction (w_id recipient) (h_amount hold) ''transfer_credit'' (Some (h_id hold)))))) (\<lambda>_.
     bnd (or_500 (stmt (Insert payments_outbox
       (new_entry ''payment'' (h_id hold) EventPaymentTransferred
          (transferred_payload c hold (w_id source) (w_id recipient)))))) (\<lambda>_.
     bnd (or_500 commit_tx) (\<lambda>_.
     ret (Resp 200 (transferred_response c hold (w_id source) (w_id recipient))))))))))"

definition TransferFunds :: "codec \<Rightarrow> TransferRequest option \<Rightarrow> (psess, response, response) prog" where
  "TransferFunds c bound =
     (case bound of None \<Rightarrow> raise (error_resp 400 ''invalid request body'')
      | Some req \<Rightarrow>
          if tr_hold_id req = uuid_Nil then raise (error_resp 400 ''hold_id is required'')
          else if tr_recipient_wallet_id req = uuid_Nil
          then raise (error_resp 400 ''recipient_wallet_id is required'')
          else
            bnd (or_500 begin_tx) (\<lambda>_. defer_rollback (
            bnd (or_404 ''hold not found'' (stmt (hold_GetByIDForUpdate (tr_hold_id req)))) (\<lambda>hold.
            if h_status hold \<noteq> ''active'' then raise (error_resp 409 ''hold is not active'')
            else if h_wallet_id hold = tr_recipient_wallet_id req
            then raise (error_resp 400 ''cannot transfer to source wallet'')
            else
              bnd (or_500 (stmt (wallet_GetByIDForUpdate (h_wallet_id hold)))) (\<lambda>source.
              if w_balance source <s h_amount hold then raise internal_error
              else
                bnd (or_404 ''recipient wallet not found''
                  (stmt (wallet_GetByIDForUpdate (tr_recipient_wallet_id req)))) (\<lambda>recipient.
                transfer_move c hold source recipient))))))"

section \<open>GetWallet and ListWallets\<close>

text \<open>\<open>uuid.Parse\<close> is outside the repository: the parsed parameter, or \<open>None\<close>.\<close>

definition GetWallet :: "codec \<Rightarrow> uuid option \<Rightarrow> (psess, response, response) prog" where
  "GetWallet c parsed =
     (case parsed of None \<Rightarrow> raise (error_resp 400 ''invalid user_id'')
      | Some user \<Rightarrow>
          bnd (or_404 ''wallet not found'' (auto_stmt (wallet_GetByUserID user))) (\<lambda>wallet.
          ret (Resp 200 (wallet_json c wallet))))"

definition ListWallets :: "codec \<Rightarrow> string \<Rightarrow> string \<Rightarrow> (psess, response, response) prog" where
  "ListWallets c limit_param offset_param =
     bnd (int_param limit_param 20 ''invalid limit'') (\<lambda>limit.
     bnd (int_param offset_param 0 ''invalid offset'') (\<lambda>offset.
     bnd (or_500 (auto_stmt (wallet_ListAll limit offset))) (\<lambda>ws.
     bnd (or_500 (auto_stmt wallet_Count)) (\<lambda>total.
     ret (Resp 200 (JObj [(''items'', JArr (map (wallet_json c) ws)), (''total'', JNum total)]))))))"

end
