(* ===== verification/PaymentsSpec.thy ===== *)
theory PaymentsSpec
  imports PaymentsHandler
begin

text \<open>
  What the payments service promises, as a relation on its database: the steps \<open>pay_step\<close>
  are the only ways a request changes it. The handlers refine this relation (every call,
  under every fault plan, is one step or none), so invariants are proved on the steps.
\<close>

section \<open>The steps of the ledger\<close>

datatype pay_event =
    Placed Hold
  | Failed HoldRequest
  | Released Hold
  | Transferred Hold uuid

text \<open>A row of the transaction log, and an outbox entry, as the steps add them.\<close>

definition posts :: "pdb \<Rightarrow> uuid \<Rightarrow> int64 \<Rightarrow> string \<Rightarrow> uuid option \<Rightarrow> Transaction \<Rightarrow> bool" where
  "posts d wallet amount type hold t \<longleftrightarrow>
     sel w_id wallet (wallets d) \<noteq> None \<and> sel t_id (t_id t) (transactions d) = None \<and>
     t_wallet_id t = wallet \<and> t_amount t = amount \<and> t_type t = type \<and> t_hold_id t = hold"

definition emits :: "pdb \<Rightarrow> uuid \<Rightarrow> string \<Rightarrow> json \<Rightarrow> uuid entry \<Rightarrow> bool" where
  "emits d aggregate event payload e \<longleftrightarrow>
     e_id e \<notin> e_id ` set (outbox d) \<and> e_aggregate_id e = aggregate \<and> e_event_type e = event \<and>
     e_payload e = payload \<and> unpublished e"

definition set_status :: "uuid \<Rightarrow> string \<Rightarrow> Hold list \<Rightarrow> Hold list" where
  "set_status i st = upd h_id i (\<lambda>h. h\<lparr>h_status := st\<rparr>)"

definition set_balance :: "uuid \<Rightarrow> int64 \<Rightarrow> int \<Rightarrow> wallet_row list \<Rightarrow> wallet_row list" where
  "set_balance i b now = upd w_id i (\<lambda>r. r\<lparr>w_balance := b, w_updated_at := now\<rparr>)"

inductive pay_step :: "codec \<Rightarrow> pdb \<Rightarrow> pay_event \<Rightarrow> pdb \<Rightarrow> bool" for c d where
  placed:
    "\<lbrakk>sel w_id (h_wallet_id h) (wallets d) = Some row; 0 < sint (h_amount h);
      sint (h_amount h) \<le> available d row; active h; sel h_id (h_id h) (holds d) = None;
      posts d (h_wallet_id h) (- h_amount h) ''hold'' (Some (h_id h)) t;
      emits d (h_id h) EventPaymentHeld (hold_json c h) e\<rbrakk>
     \<Longrightarrow> pay_step c d (Placed h)
       (d\<lparr>holds := holds d @ [h], transactions := transactions d @ [t], outbox := outbox d @ [e]\<rparr>)"
| failed:
    "\<lbrakk>sel w_id (hr_wallet_id req) (wallets d) = Some row; 0 < sint (hr_amount req);
      available d row < sint (hr_amount req);
      posts d (hr_wallet_id req) (- hr_amount req) ''hold_failed'' None t;
      emits d (t_id t) EventPaymentFailed (failed_payload c (hr_wallet_id req) req) e\<rbrakk>
     \<Longrightarrow> pay_step c d (Failed req)
       (d\<lparr>transactions := transactions d @ [t], outbox := outbox d @ [e]\<rparr>)"
| released:
    "\<lbrakk>sel h_id (h_id h) (holds d) = Some h; active h;
      posts d (h_wallet_id h) (h_amount h) ''release'' (Some (h_id h)) t;
      emits d (h_id h) EventPaymentReleased (hold_json c (h\<lparr>h_status := ''released''\<rparr>)) e\<rbrakk>
     \<Longrightarrow> pay_step c d (Released h)
       (d\<lparr>holds := set_status (h_id h) ''released'' (holds d),
          transactions := transactions d @ [t], outbox := outbox d @ [e]\<rparr>)"
| transferred:
    "\<lbrakk>sel h_id (h_id h) (holds d) = Some h; active h; recipient \<noteq> h_wallet_id h;
      sel w_id (h_wallet_id h) (wallets d) = Some src; sel w_id recipient (wallets d) = Some rcp;
      sint (h_amount h) \<le> sint (w_balance src); 0 \<le> sint (w_balance src - h_amount h);
      0 \<le> sint (w_balance rcp + h_amount h);
      posts d (h_wallet_id h) (- h_amount h) ''transfer_debit'' (Some (h_id h)) t1;
      posts d recipient (h_amount h) ''transfer_credit'' (Some (h_id h)) t2; t_id t1 \<noteq> t_id t2;
      emits d (h_id h) EventPaymentTransferred
        (transferred_payload c h (h_wallet_id h) recipient) e\<rbrakk>
     \<Longrightarrow> pay_step c d (Transferred h recipient)
       (d\<lparr>wallets := set_balance recipient (w_balance rcp + h_amount h) now2
            (set_balance (h_wallet_id h) (w_balance src - h_amount h) now1 (wallets d)),
          holds := set_status (h_id h) ''transferred'' (holds d),
          transactions := transactions d @ [t1, t2], outbox := outbox d @ [e]\<rparr>)"

inductive_cases placed_stepE: "pay_step c d (Placed h) d'"
inductive_cases failed_stepE: "pay_step c d (Failed req) d'"
inductive_cases released_stepE: "pay_step c d (Released h) d'"
inductive_cases transferred_stepE: "pay_step c d (Transferred h w) d'"

section \<open>What the stores do, as effects\<close>

lemma scan_int64_InrD: "scan_int64 n = Inr a \<Longrightarrow> sint a = n"
  by (auto simp: scan_int64_def signed_take_bit63_id sint_sbintrunc' split: if_splits)

lemma wallet_GetByIDForUpdate_InrE:
  assumes "wallet_GetByIDForUpdate i now u d = Inr (w, d')"
  obtains row where "d' = d" "sel w_id i (wallets d) = Some row" "w_id w = i"
    "w_balance w = w_balance row" "sint (w_available w) = available d row"
  using assms
  by (auto simp: wallet_GetByIDForUpdate_def scan_wallet_def with_available_def
      split: option.splits sum.splits dest!: scan_int64_InrD sel_SomeD)

lemma hold_GetByIDForUpdate_InrE:
  assumes "hold_GetByIDForUpdate i now u d = Inr (h, d')"
  obtains "d' = d" "sel h_id i (holds d) = Some h" "h_id h = i"
  using assms
  by (auto simp: hold_GetByIDForUpdate_def split: option.splits dest: sel_SomeD)

lemma wallet_UpdateBalance_InrE:
  assumes "wallet_UpdateBalance i b now u d = Inr (x, d')"
  obtains "d' = d\<lparr>wallets := set_balance i b now (wallets d)\<rparr>"
    "sel w_id i (wallets d) \<noteq> None \<Longrightarrow> 0 \<le> sint b"
  using assms
  by (auto simp: wallet_UpdateBalance_def set_balance_def word_sless_alt split: if_splits)

lemma hold_UpdateStatus_InrE:
  assumes "hold_UpdateStatus i st now u d = Inr (x, d')"
  obtains "d' = d\<lparr>holds := set_status i st (holds d)\<rparr>"
  using assms by (auto simp: hold_UpdateStatus_def set_status_def split: if_splits)

lemma hold_Create_InrE:
  assumes "hold_Create wallet amount contract now u d = Inr (h, d')"
  obtains "d' = d\<lparr>holds := holds d @ [h]\<rparr>" "h_wallet_id h = wallet" "h_amount h = amount"
    "h_contract_id h = contract" "active h" "h_status h = ''active''" "0 < sint amount"
    "sel h_id (h_id h) (holds d) = None"
  using assms
  by (auto simp: hold_Create_def active_def Let_def word_sle_eq split: if_splits)

lemma transaction_Create_InrE:
  assumes "transaction_Create (new_transaction wallet amount type hold) now u d = Inr (t, d')"
  obtains "d' = d\<lparr>transactions := transactions d @ [t]\<rparr>" "posts d wallet amount type hold t"
  using assms
  by (auto simp: transaction_Create_def new_transaction_def posts_def Let_def split: if_splits)

lemma payments_Insert_InrE:
  assumes "Insert payments_outbox (new_entry typ aggregate event payload) now u d = Inr (x, d')"
  obtains e where "d' = d\<lparr>outbox := outbox d @ [e]\<rparr>" "emits d aggregate event payload e"
proof -
  from payments_events.insert_row [OF assms] obtain i where i: "i \<notin> e_id ` set (outbox d)"
    "d'\<lparr>outbox := []\<rparr> = d\<lparr>outbox := []\<rparr>"
    "outbox d' = outbox d @ [(new_entry typ aggregate event payload)
       \<lparr>e_id := i, e_created_at := now, e_published_at := None\<rparr>]" by blast
  from i(2,3) have "d' = d\<lparr>outbox := outbox d @ [(new_entry typ aggregate event payload)
       \<lparr>e_id := i, e_created_at := now, e_published_at := None\<rparr>]\<rparr>"
    by (cases d; cases d') simp
  then show thesis
    by (rule that) (use i(1) in \<open>simp add: emits_def new_entry_def unpublished_def\<close>)
qed

lemmas store_elims =
  wallet_GetByIDForUpdate_InrE hold_GetByIDForUpdate_InrE wallet_UpdateBalance_InrE
  hold_UpdateStatus_InrE hold_Create_InrE transaction_Create_InrE payments_Insert_InrE

lemma sel_set_balance:
  "sel w_id j (set_balance i b now ws)
   = (if j = i then map_option (\<lambda>r. r\<lparr>w_balance := b, w_updated_at := now\<rparr>) (sel w_id i ws)
      else sel w_id j ws)"
  by (simp add: set_balance_def sel_upd)

lemma sel_set_status:
  "sel h_id j (set_status i st hs)
   = (if j = i then map_option (\<lambda>h. h\<lparr>h_status := st\<rparr>) (sel h_id i hs) else sel h_id j hs)"
  by (simp add: set_status_def sel_upd)

end
