(* ===== verification/PaymentsRefine.thy ===== *)
theory PaymentsRefine
  imports PaymentsSpec
begin

text \<open>
  The payment handlers refine the ledger of theory PaymentsSpec: a run, under any fault plan,
  leaves the database as it was or makes one step of \<open>pay_step\<close>, and its response says which.
\<close>

section \<open>HoldFunds\<close>

text \<open>
  The bracket all three payment handlers share: begin, roll back what is not committed, and a
  first locking read.
\<close>

lemma tx_bracket:
  assumes "bnd (or_500 begin_tx) (\<lambda>_. defer_rollback (bnd (or_404 msg (stmt f)) g)) s = (q, s')"
  obtains (refused) r where "s_db s' = s_db s" "q = Inl r" "r \<in> {error_resp 404 msg, internal_error}"
  | (reads) x now u s2 s3 where "f now u (s_db s) = Inr (x, s_tx s2)" "s_db s2 = s_db s"
      "g x s2 = (q, s3)" "s_db s' = s_db s3"
proof (cases q)
  case (Inl r)
  from assms [unfolded Inl] show thesis
    by (elim prog_elims) (auto simp: Inl intro: refused reads split: if_splits)
next
  case (Inr x)
  from assms [unfolded Inr] show thesis
    by (elim prog_elims) (auto simp: Inr intro: refused reads)
qed

lemma hold_place_run:
  assumes "hold_place c req wallet s = (q, s')" and "s_tx s = s_db s"
    and "sel w_id (w_id wallet) (wallets (s_db s)) = Some row"
    and "sint (hr_amount req) \<le> available (s_db s) row"
  shows "q = Inl internal_error \<and> s_db s' = s_db s \<or>
    (\<exists>h. pay_step c (s_db s) (Placed h) (s_db s') \<and> h_wallet_id h = w_id wallet \<and>
         h_amount h = hr_amount req \<and> h_contract_id h = hr_contract_id req \<and>
         q \<in> {Inr (Resp 201 (hold_json c h)), Inl internal_error})"
proof -
  have step: "pay_step c (s_db s) (Placed h) d3"
    if h: "hold_Create (w_id wallet) (hr_amount req) (hr_contract_id req) now1 u1 (s_db s) = Inr (h, d1)"
    and t: "transaction_Create (new_transaction (w_id wallet) (- hr_amount req) ''hold''
        (Some (h_id h))) now2 u2 d1 = Inr (t, d2)"
    and e: "Insert payments_outbox (new_entry ''payment'' (h_id h) EventPaymentHeld (hold_json c h))
        now3 u3 d2 = Inr (x, d3)"
    for h t x d1 d2 d3 now1 now2 now3 u1 u2 u3
    using assms(3,4) h t e
    by (elim store_elims) (auto intro!: pay_step.placed [where row = row] simp: posts_def emits_def)
  show ?thesis
  proof (cases q)
    case (Inl r)
    with assms(1) have "hold_place c req wallet s = (Inl r, s')" by simp
    then show ?thesis unfolding hold_place_def Inl
      by (elim prog_elims) (auto simp: assms(2) intro!: exI step elim: hold_Create_InrE)
  next
    case (Inr x)
    with assms(1) have "hold_place c req wallet s = (Inr x, s')" by simp
    then show ?thesis unfolding hold_place_def Inr
      by (elim prog_elims) (auto simp: assms(2) intro!: exI step elim: hold_Create_InrE)
  qed
qed

lemma hold_insufficient_run:
  assumes "hold_insufficient c req wallet s = (q, s')" and "s_tx s = s_db s"
    and "sel w_id (w_id wallet) (wallets (s_db s)) = Some row" and "w_id wallet = hr_wallet_id req"
    and "available (s_db s) row < sint (hr_amount req)" and "0 < sint (hr_amount req)"
  shows "q = Inl internal_error \<and> s_db s' = s_db s \<or>
    pay_step c (s_db s) (Failed req) (s_db s') \<and>
      q \<in> {Inr (error_resp 422 ''insufficient funds''), Inl internal_error}"
proof -
  have step: "pay_step c (s_db s) (Failed req) d2"
    if t: "transaction_Create (new_transaction (hr_wallet_id req) (- hr_amount req) ''hold_failed''
        None) now1 u1 (s_db s) = Inr (t, d1)"
    and e: "Insert payments_outbox (new_entry ''payment'' (t_id t) EventPaymentFailed
        (failed_payload c (hr_wallet_id req) req)) now2 u2 d1 = Inr (x, d2)"
    for t x d1 d2 now1 now2 u1 u2
    using assms(3-) t e
    by (elim store_elims) (auto intro!: pay_step.failed [where row = row] simp: posts_def emits_def)
  show ?thesis
  proof (cases q)
    case (Inl r)
    with assms(1) have "hold_insufficient c req wallet s = (Inl r, s')" by simp
    then show ?thesis unfolding hold_insufficient_def Inl
      by (elim prog_elims) (auto simp: assms(2,4) intro!: step)
  next
    case (Inr x)
    with assms(1) have "hold_insufficient c req wallet s = (Inr x, s')" by simp
    then show ?thesis unfolding hold_insufficient_def Inr
      by (elim prog_elims) (auto simp: assms(2,4) intro!: step)
  qed
qed

text \<open>
  A hold request leaves the database as it was, or is one step of the ledger; a step whose
  commit's reply was lost is reported as an internal error.
\<close>

lemma HoldFunds_run:
  assumes "HoldFunds c bound s = (q, s')"
  shows "s_db s' = s_db s \<and> (\<exists>r. q = Inl r \<and> code r \<in> {400, 404, 500}) \<or>
    (\<exists>req h. bound = Some req \<and> pay_step c (s_db s) (Placed h) (s_db s') \<and>
       h_wallet_id h = hr_wallet_id req \<and> h_amount h = hr_amount req \<and>
       h_contract_id h = hr_contract_id req \<and>
       q \<in> {Inr (Resp 201 (hold_json c h)), Inl internal_error}) \<or>
    (\<exists>req. bound = Some req \<and> pay_step c (s_db s) (Failed req) (s_db s') \<and>
       q \<in> {Inr (error_resp 422 ''insufficient funds''), Inl internal_error})"
proof (cases bound)
  case None
  with assms show ?thesis by (auto simp: HoldFunds_def)
next
  case (Some req)
  consider (bad) "s' = s" "\<exists>r. q = Inl r \<and> code r = 400"
    | (tx) "0 < sint (hr_amount req)" "bnd (or_500 begin_tx) (\<lambda>_. defer_rollback (
            bnd (or_404 ''wallet not found'' (stmt (wallet_GetByIDForUpdate (hr_wallet_id req)))) (\<lambda>wallet.
            if w_available wallet <s hr_amount req then hold_insufficient c req wallet
            else hold_place c req wallet))) s = (q, s')"
    using assms Some by (auto simp: HoldFunds_def word_sle_eq split: if_splits)
  then show ?thesis
  proof cases
    case bad
    then show ?thesis by auto
  next
    case tx
    from tx(2) show ?thesis
    proof (cases rule: tx_bracket)
      case refused
      then show ?thesis by auto
    next
      case (reads w now u s2 s3)
      from reads(1) obtain row where w: "s_tx s2 = s_db s"
        "sel w_id (hr_wallet_id req) (wallets (s_db s)) = Some row" "w_id w = hr_wallet_id req"
        "sint (w_available w) = available (s_db s) row"
        by (elim wallet_GetByIDForUpdate_InrE) auto
      show ?thesis
      proof (cases "w_available w <s hr_amount req")
        case True
        with reads(3) have "hold_insufficient c req w s2 = (q, s3)" by simp
        from hold_insufficient_run [OF this, of row] True tx(1) w reads(2,4) Some show ?thesis
          by (auto simp: word_sless_alt)
      next
        case False
        with reads(3) have "hold_place c req w s2 = (q, s3)" by simp
        from hold_place_run [OF this, of row] False w reads(2,4) Some show ?thesis
          by (auto simp: word_sless_alt)
      qed
    qed
  qed
qed

section \<open>ReleaseFunds\<close>

lemma ReleaseFunds_run:
  assumes "ReleaseFunds c bound s = (q, s')"
  shows "s_db s' = s_db s \<and> (\<exists>r. q = Inl r \<and> code r \<in> {400, 404, 409, 500}) \<or>
    (\<exists>req h. bound = Some req \<and> h_id h = rr_hold_id req \<and>
       pay_step c (s_db s) (Released h) (s_db s') \<and>
       q \<in> {Inr (Resp 200 (hold_json c (h\<lparr>h_status := ''released''\<rparr>))), Inl internal_error})"
proof (cases bound)
  case None
  with assms show ?thesis by (auto simp: ReleaseFunds_def)
next
  case (Some req)
  show ?thesis
  proof (cases "rr_hold_id req = uuid_Nil")
    case True
    with assms Some show ?thesis by (auto simp: ReleaseFunds_def)
  next
    case False
    from assms [unfolded ReleaseFunds_def Some option.case if_not_P [OF False]] show ?thesis
    proof (cases rule: tx_bracket)
      case refused
      then show ?thesis by auto
    next
      case (reads h now u s2 s3)
      from reads(1) have h: "s_tx s2 = s_db s" "sel h_id (h_id h) (holds (s_db s)) = Some h"
        "h_id h = rr_hold_id req"
        by (auto elim!: hold_GetByIDForUpdate_InrE)
      have step: "pay_step c (s_db s) (Released h) d3"
        if a: "h_status h = ''active''"
        and p: "hold_UpdateStatus (h_id h) ''released'' now1 u1 (s_db s) = Inr (x1, d1)"
        and t: "transaction_Create (new_transaction (h_wallet_id h) (h_amount h) ''release''
            (Some (h_id h))) now2 u2 d1 = Inr (t, d2)"
        and e: "Insert payments_outbox (new_entry ''payment'' (h_id h) EventPaymentReleased
            (hold_json c (h\<lparr>h_status := ''released''\<rparr>))) now3 u3 d2 = Inr (x, d3)"
        for t x x1 d1 d2 d3 now1 now2 now3 u1 u2 u3
        using h(2) a p t e
        by (elim store_elims)
          (auto intro!: pay_step.released simp: posts_def emits_def active_def)
      have "s_db s3 = s_db s \<and> (\<exists>r. q = Inl r \<and> code r \<in> {400, 404, 409, 500}) \<or>
        pay_step c (s_db s) (Released h) (s_db s3) \<and>
          q \<in> {Inr (Resp 200 (hold_json c (h\<lparr>h_status := ''released''\<rparr>))), Inl internal_error}"
      proof (cases q)
        case (Inl r)
        from reads(3) [unfolded Inl Let_def] show ?thesis
          by (elim prog_elims) (auto simp: Inl h(1) reads(2) intro!: step)
      next
        case (Inr r)
        from reads(3) [unfolded Inr Let_def] show ?thesis
          by (elim prog_elims) (auto simp: Inr h(1) reads(2) intro!: step)
      qed
      with h(3) reads(4) Some show ?thesis by auto
    qed
  qed
qed

section \<open>TransferFunds\<close>

lemma transfer_move_run:
  assumes "transfer_move c h src rcp s = (q, s')" and "s_tx s = s_db s"
    and h: "sel h_id (h_id h) (holds (s_db s)) = Some h" "active h"
    and w: "sel w_id (h_wallet_id h) (wallets (s_db s)) = Some srow" "w_id src = h_wallet_id h"
      "w_balance src = w_balance srow"
      "sel w_id (w_id rcp) (wallets (s_db s)) = Some rrow" "w_balance rcp = w_balance rrow"
    and "w_id rcp \<noteq> h_wallet_id h" and "sint (h_amount h) \<le> sint (w_balance srow)"
  shows "q = Inl internal_error \<and> s_db s' = s_db s \<or>
    pay_step c (s_db s) (Transferred h (w_id rcp)) (s_db s') \<and>
      q \<in> {Inr (Resp 200 (transferred_response c h (h_wallet_id h) (w_id rcp))), Inl internal_error}"
proof -
  have step: "pay_step c (s_db s) (Transferred h (w_id rcp)) d6"
    if e1: "wallet_UpdateBalance (h_wallet_id h) (w_balance srow - h_amount h) now1 u1 (s_db s) = Inr (x1, d1)"
    and e2: "wallet_UpdateBalance (w_id rcp) (w_balance rrow + h_amount h) now2 u2 d1 = Inr (x2, d2)"
    and e3: "hold_UpdateStatus (h_id h) ''transferred'' now3 u3 d2 = Inr (x3, d3)"
    and e4: "transaction_Create (new_transaction (h_wallet_id h) (- h_amount h) ''transfer_debit''
        (Some (h_id h))) now4 u4 d3 = Inr (t1, d4)"
    and e5: "transaction_Create (new_transaction (w_id rcp) (h_amount h) ''transfer_credit''
        (Some (h_id h))) now5 u5 d4 = Inr (t2, d5)"
    and e6: "Insert payments_outbox (new_entry ''payment'' (h_id h) EventPaymentTransferred
        (transferred_payload c h (h_wallet_id h) (w_id rcp))) now6 u6 d5 = Inr (x6, d6)"
    for x1 x2 x3 t1 t2 x6 d1 d2 d3 d4 d5 d6 now1 now2 now3 now4 now5 now6 u1 u2 u3 u4 u5 u6
  proof -
    from e1 w(1) have d1: "d1 = (s_db s)\<lparr>wallets := set_balance (h_wallet_id h)
        (w_balance srow - h_amount h) now1 (wallets (s_db s))\<rparr>" "0 \<le> sint (w_balance srow - h_amount h)"
      by (auto elim!: wallet_UpdateBalance_InrE)
    from e2 d1 w(4) assms(10) have d2: "d2 = d1\<lparr>wallets := set_balance (w_id rcp)
        (w_balance rrow + h_amount h) now2 (wallets d1)\<rparr>" "0 \<le> sint (w_balance rrow + h_amount h)"
      by (auto simp: sel_set_balance elim!: wallet_UpdateBalance_InrE)
    from e3 have d3: "d3 = d2\<lparr>holds := set_status (h_id h) ''transferred'' (holds d2)\<rparr>"
      by (rule hold_UpdateStatus_InrE)
    from e4 obtain d4: "d4 = d3\<lparr>transactions := transactions d3 @ [t1]\<rparr>"
      and p1: "posts d3 (h_wallet_id h) (- h_amount h) ''transfer_debit'' (Some (h_id h)) t1"
      by (rule transaction_Create_InrE)
    from e5 obtain d5: "d5 = d4\<lparr>transactions := transactions d4 @ [t2]\<rparr>"
      and p2: "posts d4 (w_id rcp) (h_amount h) ''transfer_credit'' (Some (h_id h)) t2"
      by (rule transaction_Create_InrE)
    from e6 obtain e where d6: "d6 = d5\<lparr>outbox := outbox d5 @ [e]\<rparr>"
      and p3: "emits d5 (h_id h) EventPaymentTransferred
        (transferred_payload c h (h_wallet_id h) (w_id rcp)) e"
      by (rule payments_Insert_InrE)
    have "d6 = (s_db s)\<lparr>wallets := set_balance (w_id rcp) (w_balance rrow + h_amount h) now2
            (set_balance (h_wallet_id h) (w_balance srow - h_amount h) now1 (wallets (s_db s))),
          holds := set_status (h_id h) ''transferred'' (holds (s_db s)),
          transactions := transactions (s_db s) @ [t1, t2], outbox := outbox (s_db s) @ [e]\<rparr>"
      by (simp add: d1(1) d2(1) d3 d4 d5 d6)
    moreover have "posts (s_db s) (h_wallet_id h) (- h_amount h) ''transfer_debit'' (Some (h_id h)) t1"
      using p1 w(1) by (simp add: posts_def d1(1) d2(1) d3)
    moreover have "posts (s_db s) (w_id rcp) (h_amount h) ''transfer_credit'' (Some (h_id h)) t2"
      "t_id t1 \<noteq> t_id t2"
      using p2 w(4) by (auto simp: posts_def d1(1) d2(1) d3 d4 sel_append sel_Cons split: option.splits if_splits)
    moreover have "emits (s_db s) (h_id h) EventPaymentTransferred
        (transferred_payload c h (h_wallet_id h) (w_id rcp)) e"
      using p3 by (simp add: emits_def d1(1) d2(1) d3 d4 d5)
    ultimately show ?thesis
      using h w assms(10,11) d1(2) d2(2)
      by (metis pay_step.transferred [of h "s_db s" "w_id rcp" srow rrow t1 t2 c e now2 now1])
  qed
  show ?thesis
  proof (cases q)
    case (Inl r)
    with assms(1) have "transfer_move c h src rcp s = (Inl r, s')" by simp
    then show ?thesis unfolding transfer_move_def Inl w
      by (elim prog_elims) (auto simp: assms(2) Inl intro!: step)
  next
    case (Inr x)
    with assms(1) have "transfer_move c h src rcp s = (Inr x, s')" by simp
    then show ?thesis unfolding transfer_move_def Inr w
      by (elim prog_elims) (auto simp: assms(2) Inr intro!: step)
  qed
qed

text \<open>A read inside the transaction: a refusal, or the row, and no change either way.\<close>

lemma wallet_GetByIDForUpdate_same:
  "wallet_GetByIDForUpdate i now u d = Inr (w, d') \<Longrightarrow> d' = d"
  by (rule wallet_GetByIDForUpdate_InrE)

lemma wallet_read:
  assumes "bnd (map_err g (stmt (wallet_GetByIDForUpdate i))) k s = (q, s')"
  obtains (refused) e where "s_db s' = s_db s" "q = Inl (g e)"
  | (reads) w now u s1 where
      "wallet_GetByIDForUpdate i now u (s_tx s) = Inr (w, s_tx s)" "k w s1 = (q, s')"
      "s_tx s1 = s_tx s" "s_db s1 = s_db s"
proof (cases rule: bnd_eqE [OF assms(1)])
  case (1 e)
  from 1(1) show thesis
    by (elim prog_elims) (rule refused, use 1(2) in auto)
next
  case (2 w s1)
  from 2(1) show thesis
    apply (elim prog_elims)
    apply (frule wallet_GetByIDForUpdate_same)
    apply (rule reads [of _ _ _ s1])
    using 2(2) by auto
qed

lemma TransferFunds_run:
  assumes "TransferFunds c bound s = (q, s')"
  shows "s_db s' = s_db s \<and> (\<exists>r. q = Inl r \<and> code r \<in> {400, 404, 409, 500}) \<or>
    (\<exists>req h. bound = Some req \<and> h_id h = tr_hold_id req \<and>
       pay_step c (s_db s) (Transferred h (tr_recipient_wallet_id req)) (s_db s') \<and>
       q \<in> {Inr (Resp 200 (transferred_response c h (h_wallet_id h) (tr_recipient_wallet_id req))),
            Inl internal_error})"
proof (cases "\<exists>req. bound = Some req \<and> tr_hold_id req \<noteq> uuid_Nil
                 \<and> tr_recipient_wallet_id req \<noteq> uuid_Nil")
  case False
  with assms show ?thesis by (auto simp: TransferFunds_def split: option.splits if_splits)
next
  case True
  then obtain req where Some: "bound = Some req" and ids: "tr_hold_id req \<noteq> uuid_Nil"
    "tr_recipient_wallet_id req \<noteq> uuid_Nil" by blast
  from assms [unfolded TransferFunds_def Some option.case if_not_P [OF ids(1)] if_not_P [OF ids(2)]]
  show ?thesis
  proof (cases rule: tx_bracket)
    case refused
    then show ?thesis by auto
  next
    case (reads h now u s2 s3)
    from reads(1) have h: "s_tx s2 = s_db s" "sel h_id (h_id h) (holds (s_db s)) = Some h"
      "h_id h = tr_hold_id req"
      by (auto elim!: hold_GetByIDForUpdate_InrE)
    consider (unchanged) "s_db s3 = s_db s" "\<exists>r. q = Inl r \<and> code r \<in> {400, 404, 409, 500}"
      | (moves) src rcp s4 now1 now2 u1 u2 where "transfer_move c h src rcp s4 = (q, s3)"
          "wallet_GetByIDForUpdate (h_wallet_id h) now1 u1 (s_db s) = Inr (src, s_db s)"
          "wallet_GetByIDForUpdate (tr_recipient_wallet_id req) now2 u2 (s_db s) = Inr (rcp, s_db s)"
          "active h" "h_wallet_id h \<noteq> tr_recipient_wallet_id req"
          "s_tx s4 = s_db s" "s_db s4 = s_db s" "sint (h_amount h) \<le> sint (w_balance src)"
    proof -
    note bail = that(1) and go = that(2)
    show thesis
    proof (cases "active h \<and> h_wallet_id h \<noteq> tr_recipient_wallet_id req")
      case False
      with reads(2,3) show thesis by (auto intro!: bail simp: active_def split: if_splits)
    next
      case True
      with reads(3) have "bnd (or_500 (stmt (wallet_GetByIDForUpdate (h_wallet_id h)))) (\<lambda>source.
          if w_balance source <s h_amount h then raise internal_error
          else bnd (or_404 ''recipient wallet not found''
            (stmt (wallet_GetByIDForUpdate (tr_recipient_wallet_id req)))) (\<lambda>recipient.
            transfer_move c h source recipient)) s2 = (q, s3)"
        by (simp add: active_def)
      then show thesis unfolding or_500_def
      proof (cases rule: wallet_read)
        case refused
        with reads(2) show thesis by (auto intro!: bail)
      next
        case src: (reads src now1 u1 s4)
        show thesis
        proof (cases "w_balance src <s h_amount h")
          case True
          with src reads(2) show thesis by (auto intro!: bail)
        next
          case False
          with src(2) have "bnd (or_404 ''recipient wallet not found''
            (stmt (wallet_GetByIDForUpdate (tr_recipient_wallet_id req)))) (\<lambda>recipient.
            transfer_move c h src recipient) s4 = (q, s3)" by simp
          then show thesis unfolding or_404_def
          proof (cases rule: wallet_read)
            case refused
            with src reads(2) show thesis by (auto intro!: bail)
          next
            case rcp: (reads rcp now2 u2 s5)
            show thesis
              by (rule go [OF rcp(2)])
                (use src rcp False h(1) reads(2) \<open>active h \<and> _\<close>
                 in \<open>auto simp: word_sless_alt\<close>)
          qed
        qed
      qed
    qed
    qed
    then show ?thesis
    proof cases
      case unchanged
      with reads(4) show ?thesis by simp
    next
      case (moves src rcp s4)
      from moves(2,3) obtain srow rrow where w:
        "sel w_id (h_wallet_id h) (wallets (s_db s)) = Some srow" "w_id src = h_wallet_id h"
        "w_balance src = w_balance srow"
        "sel w_id (w_id rcp) (wallets (s_db s)) = Some rrow" "w_balance rcp = w_balance rrow"
        "w_id rcp = tr_recipient_wallet_id req"
        by (auto elim!: wallet_GetByIDForUpdate_InrE)
      have "q = Inl internal_error \<and> s_db s3 = s_db s4 \<or>
        pay_step c (s_db s4) (Transferred h (w_id rcp)) (s_db s3) \<and>
          q \<in> {Inr (Resp 200 (transferred_response c h (h_wallet_id h) (w_id rcp))), Inl internal_error}"
        by (rule transfer_move_run [OF moves(1)]) (use moves w h in auto)
      then show ?thesis using moves(7) w(6) h(3) reads(4) Some by auto
    qed
  qed
qed

end
