(* ===== verification/PaymentsLedger.thy ===== *)
theory PaymentsLedger
  imports PaymentsRefine
begin

text \<open>
  What holds of the payments database at all times: the schema's keys, references and checks
  (\<open>pay_wf\<close>), that no wallet has promised more than it owns (\<open>solvent\<close>), that the
  transaction log accounts for every held and every moved amount (\<open>reconciled\<close>), and that
  each hold's life is announced by exactly one outbox entry per change (\<open>announced\<close>). Each
  is preserved by the steps of the ledger; theory PaymentsService lifts them to the handlers.
\<close>

section \<open>Sums over holds and over the log\<close>

lemma held_Nil [simp]: "held w [] = 0"
  by (simp add: held_def)

lemma held_Cons:
  "held w (h # hs) = (if h_wallet_id h = w \<and> active h then sint (h_amount h) else 0) + held w hs"
  by (simp add: held_def)

lemma held_append: "held w (hs @ hs') = held w hs + held w hs'"
  by (simp add: held_def)

lemma held_as_sum:
  "held w hs = sum_list (map (\<lambda>h. if h_wallet_id h = w \<and> active h then sint (h_amount h) else 0) hs)"
  by (induction hs) (simp_all add: held_Cons)

lemma held_nonneg: "\<forall>h\<in>set hs. 0 < sint (h_amount h) \<Longrightarrow> 0 \<le> held w hs"
  by (induction hs) (auto simp: held_Cons)

lemma held_settle:
  assumes "distinct (map h_id hs)" "sel h_id i hs = Some h" "active h" "st \<noteq> ''active''"
  shows "held w (set_status i st hs) = held w hs - (if h_wallet_id h = w then sint (h_amount h) else 0)"
  using assms by (simp add: held_as_sum set_status_def sum_list_upd) (simp add: active_def)

lemma held_ge:
  assumes "\<forall>h\<in>set hs. 0 < sint (h_amount h)" "sel h_id i hs = Some h" "active h"
  shows "sint (h_amount h) \<le> held (h_wallet_id h) hs"
  using assms
proof (induction hs)
  case (Cons k ks)
  then show ?case
    using held_nonneg [of ks "h_wallet_id h"]
    by (cases "h_id k = i") (auto simp: held_Cons sel_Cons)
qed simp

text \<open>The sum of a wallet's log entries of some types.\<close>

definition posted :: "string list \<Rightarrow> uuid \<Rightarrow> pdb \<Rightarrow> int" where
  "posted types w d = sum_list (map (\<lambda>t. sint (t_amount t))
     (filter (\<lambda>t. t_wallet_id t = w \<and> t_type t \<in> set types) (transactions d)))"

lemma posted_append:
  "transactions d' = transactions d @ ts \<Longrightarrow>
   posted types w d' = posted types w d + sum_list (map (\<lambda>t. sint (t_amount t))
     (filter (\<lambda>t. t_wallet_id t = w \<and> t_type t \<in> set types) ts))"
  by (simp add: posted_def)

definition total :: "pdb \<Rightarrow> int" where
  "total d = sum_list (map (\<lambda>r. sint (w_balance r)) (wallets d))"

section \<open>The invariants\<close>

definition wallets_ok :: "wallet_row list \<Rightarrow> bool" where
  "wallets_ok ws \<longleftrightarrow> distinct (map w_id ws) \<and> distinct (map w_user_id ws) \<and>
     list_all (\<lambda>r. 0 \<le> sint (w_balance r)) ws"

definition holds_ok :: "uuid set \<Rightarrow> Hold list \<Rightarrow> bool" where
  "holds_ok ws hs \<longleftrightarrow> distinct (map h_id hs) \<and>
     list_all (\<lambda>h. h_wallet_id h \<in> ws \<and> 0 < sint (h_amount h) \<and> h_status h \<in> set hold_statuses) hs"

definition transactions_ok :: "uuid set \<Rightarrow> uuid set \<Rightarrow> Transaction list \<Rightarrow> bool" where
  "transactions_ok ws hs ts \<longleftrightarrow> distinct (map t_id ts) \<and>
     list_all (\<lambda>t. t_wallet_id t \<in> ws \<and> t_type t \<in> set transaction_types \<and>
       set_option (t_hold_id t) \<subseteq> hs) ts"

definition pay_wf :: "pdb \<Rightarrow> bool" where
  "pay_wf d \<longleftrightarrow> wallets_ok (wallets d) \<and> holds_ok (w_id ` set (wallets d)) (holds d) \<and>
     transactions_ok (w_id ` set (wallets d)) (h_id ` set (holds d)) (transactions d) \<and>
     distinct (map e_id (outbox d))"

definition solvent :: "pdb \<Rightarrow> bool" where
  "solvent d \<longleftrightarrow> list_all (\<lambda>r. held (w_id r) (holds d) \<le> sint (w_balance r)) (wallets d)"

text \<open>
  What is held is what was put on hold and neither released nor transferred, by the log.
  The balance without the logged transfers is the wallet's opening balance.
\<close>

definition reconciled :: "pdb \<Rightarrow> bool" where
  "reconciled d \<longleftrightarrow> (\<forall>w. held w (holds d) =
     - posted [''hold''] w d - posted [''release''] w d + posted [''transfer_debit''] w d)"

definition opening_balance :: "pdb \<Rightarrow> wallet_row \<Rightarrow> int" where
  "opening_balance d r = sint (w_balance r) - posted [''transfer_debit'', ''transfer_credit''] (w_id r) d"

definition openings :: "pdb \<Rightarrow> (uuid \<times> int) list" where
  "openings d = map (\<lambda>r. (w_id r, opening_balance d r)) (wallets d)"

definition hold_events :: "string list" where
  "hold_events = [EventPaymentHeld, EventPaymentReleased, EventPaymentTransferred]"

definition announced :: "Hold list \<Rightarrow> uuid entry list \<Rightarrow> bool" where
  "announced hs es \<longleftrightarrow>
     list_all (\<lambda>h. map (\<lambda>typ. events typ (h_id h) es) hold_events =
       [1, of_bool (h_status h = ''released''), of_bool (h_status h = ''transferred'')]) hs \<and>
     list_all (\<lambda>e. e_event_type e \<in> set hold_events \<longrightarrow> e_aggregate_id e \<in> h_id ` set hs) es"

section \<open>The steps keep them\<close>

lemma set_status_simps [simp]:
  "map h_id (set_status i st hs) = map h_id hs"
  by (simp add: set_status_def map_upd)

lemma set_balance_simps [simp]:
  "map w_id (set_balance i b now ws) = map w_id ws"
  "map w_user_id (set_balance i b now ws) = map w_user_id ws"
  by (simp_all add: set_balance_def map_upd)

lemma sel_append_mono: "sel key i rs \<noteq> None \<Longrightarrow> sel key i (rs @ rs') \<noteq> None"
  by (auto simp: sel_append)

lemma sel_set_balance_None [simp]:
  "sel w_id j (set_balance i b now ws) = None \<longleftrightarrow> sel w_id j ws = None"
  by (simp add: sel_set_balance)

lemma sel_set_status_None [simp]:
  "sel h_id j (set_status i st hs) = None \<longleftrightarrow> sel h_id j hs = None"
  by (simp add: sel_set_status)

lemma distinct_sel_snoc:
  "distinct (map key rs) \<Longrightarrow> sel key (key r) rs = None \<Longrightarrow> distinct (map key (rs @ [r]))"
  by (auto simp: sel_None_iff)

lemma list_all_upd:
  "list_all P rs \<Longrightarrow> (\<And>r. P r \<Longrightarrow> key r = i \<Longrightarrow> P (f r)) \<Longrightarrow> list_all P (upd key i f rs)"
  by (auto simp: list_all_iff set_upd)

lemma set_keys_upd [simp]:
  "w_id ` set (set_balance i b now ws) = w_id ` set ws"
  "h_id ` set (set_status i st hs) = h_id ` set hs"
  by (simp_all only: set_map [symmetric] set_status_simps set_balance_simps)

lemma sel_mem: "sel key i rs = Some r \<Longrightarrow> i \<in> key ` set rs"
  by (auto dest: sel_SomeD)

lemma wallets_ok_set_balance:
  "wallets_ok ws \<Longrightarrow> 0 \<le> sint b \<Longrightarrow> wallets_ok (set_balance i b now ws)"
  unfolding wallets_ok_def
  by (simp, simp add: set_balance_def list_all_upd)

lemma holds_ok_snoc:
  "holds_ok ws hs \<Longrightarrow> sel h_id (h_id h) hs = None \<Longrightarrow> h_wallet_id h \<in> ws \<Longrightarrow>
   0 < sint (h_amount h) \<Longrightarrow> active h \<Longrightarrow> holds_ok ws (hs @ [h])"
  by (simp add: holds_ok_def sel_None_iff active_def hold_statuses_def)

lemma holds_ok_set_status:
  "holds_ok ws hs \<Longrightarrow> st \<in> set hold_statuses \<Longrightarrow> holds_ok ws (set_status i st hs)"
  unfolding holds_ok_def
  by (auto simp: set_status_def map_upd intro: list_all_upd)

lemma transactions_ok_mono:
  "transactions_ok ws hs ts \<Longrightarrow> hs \<subseteq> hs' \<Longrightarrow> transactions_ok ws hs' ts"
  by (auto simp: transactions_ok_def list_all_iff)

lemma transactions_ok_snoc:
  "transactions_ok ws hs ts \<Longrightarrow> sel t_id (t_id t) ts = None \<Longrightarrow> t_wallet_id t \<in> ws \<Longrightarrow>
   t_type t \<in> set transaction_types \<Longrightarrow> set_option (t_hold_id t) \<subseteq> hs \<Longrightarrow>
   transactions_ok ws hs (ts @ [t])"
  by (simp add: transactions_ok_def sel_None_iff)

lemma posts_ok:
  assumes "posts d w a typ hold t" "transactions_ok (w_id ` set (wallets d)) hs (transactions d)"
    "typ \<in> set transaction_types" "set_option hold \<subseteq> hs"
  shows "transactions_ok (w_id ` set (wallets d)) hs (transactions d @ [t])"
  using assms by (intro transactions_ok_snoc) (auto simp: posts_def dest: sel_mem)

lemma emits_ok:
  "emits d i typ p e \<Longrightarrow> distinct (map e_id (outbox d)) \<Longrightarrow> distinct (map e_id (outbox d @ [e]))"
  by (simp add: emits_def)

lemma pay_step_wf:
  assumes "pay_step c d ev d'" "pay_wf d"
  shows "pay_wf d'"
proof -
  from assms(2) have wf: "wallets_ok (wallets d)" "holds_ok (w_id ` set (wallets d)) (holds d)"
    "transactions_ok (w_id ` set (wallets d)) (h_id ` set (holds d)) (transactions d)"
    "distinct (map e_id (outbox d))"
    by (simp_all add: pay_wf_def)
  note types = transaction_types_def hold_statuses_def
  from assms(1) show ?thesis
  proof cases
    case (placed h row t e)
    have "transactions_ok (w_id ` set (wallets d)) (h_id ` set (holds d @ [h])) (transactions d @ [t])"
      by (rule posts_ok [OF placed(8) transactions_ok_mono [OF wf(3)]]) (auto simp: types)
    with placed wf show ?thesis
      by (simp add: pay_wf_def holds_ok_snoc sel_mem emits_ok del: map_append set_append)
  next
    case (failed req row t e)
    with wf posts_ok [OF failed(6) wf(3)] show ?thesis
      by (simp add: pay_wf_def emits_ok types del: map_append set_append)
  next
    case (released h t e)
    with wf posts_ok [OF released(5) wf(3)] show ?thesis
      by (simp add: pay_wf_def emits_ok types sel_mem holds_ok_set_status del: map_append set_append)
  next
    case (transferred h recipient src rcp t1 t2 e now2 now1)
    have t1: "transactions_ok (w_id ` set (wallets d)) (h_id ` set (holds d)) (transactions d @ [t1])"
      by (rule posts_ok [OF transferred(11) wf(3)]) (use transferred(3) in \<open>auto simp: types dest: sel_mem\<close>)
    then have "transactions_ok (w_id ` set (wallets d)) (h_id ` set (holds d))
        ((transactions d @ [t1]) @ [t2])"
      by (rule transactions_ok_snoc)
        (use transferred in \<open>auto simp: types posts_def sel_append sel_Cons dest: sel_mem\<close>)
    with transferred wf show ?thesis
      by (simp add: pay_wf_def emits_ok types sel_mem holds_ok_set_status wallets_ok_set_balance
        del: map_append set_append)
  qed
qed

text \<open>What a step does to the sums.\<close>

lemma pay_wfD:
  assumes "pay_wf d"
  shows "wallets_ok (wallets d)" "holds_ok (w_id ` set (wallets d)) (holds d)"
    "transactions_ok (w_id ` set (wallets d)) (h_id ` set (holds d)) (transactions d)"
    "distinct (map e_id (outbox d))" "distinct (map w_id (wallets d))"
    "distinct (map h_id (holds d))" "\<forall>h\<in>set (holds d). 0 < sint (h_amount h)"
  using assms by (simp_all add: pay_wf_def wallets_ok_def holds_ok_def list_all_iff)

lemma hold_positive: "pay_wf d \<Longrightarrow> sel h_id i (holds d) = Some h \<Longrightarrow> 0 < sint (h_amount h)"
  by (auto dest: pay_wfD sel_SomeD)

lemma wallet_nonneg: "pay_wf d \<Longrightarrow> sel w_id i (wallets d) = Some r \<Longrightarrow> 0 \<le> sint (w_balance r)"
  by (auto simp: pay_wf_def wallets_ok_def list_all_iff dest: sel_SomeD)

lemma hold_wallet: "pay_wf d \<Longrightarrow> sel h_id i (holds d) = Some h \<Longrightarrow> sel w_id (h_wallet_id h) (wallets d) \<noteq> None"
  by (auto simp: pay_wf_def holds_ok_def list_all_iff sel_None_iff dest: sel_SomeD)

lemma sel_iff_mem:
  "pay_wf d \<Longrightarrow> sel w_id i (wallets d) = Some r \<longleftrightarrow> r \<in> set (wallets d) \<and> w_id r = i"
  by (rule sel_eq_Some_iff) (rule pay_wfD)

lemma solvent_iff:
  "pay_wf d \<Longrightarrow> solvent d \<longleftrightarrow>
   (\<forall>i r. sel w_id i (wallets d) = Some r \<longrightarrow> held i (holds d) \<le> sint (w_balance r))"
  by (auto simp: solvent_def list_all_iff sel_iff_mem)

lemma transfer_exact:
  assumes "pay_wf d" "sel h_id i (holds d) = Some h" "sel w_id j (wallets d) = Some rcp"
    "sint (h_amount h) \<le> sint (w_balance src)" "0 \<le> sint (w_balance rcp + h_amount h)"
  shows "sint (w_balance src - h_amount h) = sint (w_balance src) - sint (h_amount h)"
    "sint (w_balance rcp + h_amount h) = sint (w_balance rcp) + sint (h_amount h)"
    "0 < sint (h_amount h)" "sint (- h_amount h) = - sint (h_amount h)"
proof -
  show pos: "0 < sint (h_amount h)"
    using assms(1,2) by (rule hold_positive)
  then show "sint (w_balance src - h_amount h) = sint (w_balance src) - sint (h_amount h)"
    using assms(4) by (intro sint_sub_exact) auto
  show "sint (w_balance rcp + h_amount h) = sint (w_balance rcp) + sint (h_amount h)"
    using pos wallet_nonneg [OF assms(1,3)] assms(5) by (intro sint_add_nonneg) auto
  show "sint (- h_amount h) = - sint (h_amount h)"
    using pos by (rule sint_uminus_pos)
qed

lemma pay_step_solvent:
  assumes "pay_step c d ev d'" "pay_wf d" "solvent d"
  shows "solvent d'"
proof -
  note wf' = pay_step_wf [OF assms(1,2)]
  note s = assms(3) [unfolded solvent_iff [OF assms(2)]] and wf = pay_wfD [OF assms(2)]
  from assms(1) have "\<forall>i r. sel w_id i (wallets d') = Some r \<longrightarrow> held i (holds d') \<le> sint (w_balance r)"
  proof cases
    case (placed h row t e)
    with s show ?thesis
      by (auto simp: held_append held_Cons available_def dest: sel_SomeD)
  next
    case (failed req row t e)
    with s show ?thesis by simp
  next
    case (released h t e)
    with s hold_positive [OF assms(2)] show ?thesis
      by (fastforce simp: held_settle [OF wf(6)])
  next
    case (transferred h recipient src rcp t1 t2 e now2 now1)
    note exact = transfer_exact [OF assms(2) transferred(3,7,8,10)]
    have held': "held i (holds d') = held i (holds d) - (if h_wallet_id h = i then sint (h_amount h) else 0)"
      for i using transferred(2-4) by (simp add: held_settle [OF wf(6)])
    show ?thesis
    proof (intro allI impI)
      fix i r assume "sel w_id i (wallets d') = Some r"
      with transferred(2,5-7) have "(i = recipient \<longrightarrow> sint (w_balance r) = sint (w_balance rcp + h_amount h)) \<and>
          (i = h_wallet_id h \<longrightarrow> sint (w_balance r) = sint (w_balance src - h_amount h)) \<and>
          (i \<noteq> recipient \<and> i \<noteq> h_wallet_id h \<longrightarrow> sel w_id i (wallets d) = Some r)"
        by (auto simp: sel_set_balance)
      with s [rule_format, of i] transferred(5-7) exact show "held i (holds d') \<le> sint (w_balance r)"
        unfolding held' by (cases "i = recipient"; cases "i = h_wallet_id h"; simp)
    qed
  qed
  then show ?thesis by (simp add: solvent_iff [OF wf'])
qed

text \<open>Transfers move money between wallets; nothing else touches a balance.\<close>

lemma sum_set_balance:
  assumes "distinct (map w_id ws)" "sel w_id i ws = Some r"
  shows "sum_list (map (\<lambda>r. sint (w_balance r)) (set_balance i b now ws))
    = sum_list (map (\<lambda>r. sint (w_balance r)) ws) - sint (w_balance r) + sint b"
  using assms by (simp add: set_balance_def sum_list_upd)

lemma pay_step_total:
  assumes "pay_step c d ev d'" "pay_wf d"
  shows "total d' = total d"
  using assms(1)
proof cases
  case (transferred h recipient src rcp t1 t2 e now2 now1)
  let ?ws = "set_balance (h_wallet_id h) (w_balance src - h_amount h) now1 (wallets d)"
  have "sel w_id recipient ?ws = Some rcp" "distinct (map w_id ?ws)"
    using transferred(5,7) pay_wfD(5) [OF assms(2)] by (simp_all add: sel_set_balance)
  from sum_set_balance [OF this(2,1)] sum_set_balance [OF pay_wfD(5) [OF assms(2)] transferred(6)]
    transfer_exact [OF assms(2) transferred(3,7,8,10)] transferred(2)
  show ?thesis by (simp add: total_def)
qed (simp_all add: total_def)

lemma pay_step_reconciled:
  assumes "pay_step c d ev d'" "pay_wf d" "reconciled d"
  shows "reconciled d'"
proof -
  note r = assms(3) [unfolded reconciled_def, rule_format] and ids = pay_wfD(6) [OF assms(2)]
  from assms(1) show ?thesis
  proof cases
    case (placed h row t e)
    from placed(8) show ?thesis
      by (auto simp: reconciled_def placed(2) held_append held_Cons r posted_def posts_def
          sint_uminus_pos [OF placed(4)] placed(6))
  next
    case (failed req row t e)
    then show ?thesis by (auto simp: reconciled_def r posted_def posts_def)
  next
    case (released h t e)
    from released(5) show ?thesis
      by (auto simp: reconciled_def released(2) held_settle [OF ids released(3,4)] r posted_def posts_def)
  next
    case (transferred h recipient src rcp t1 t2 e now2 now1)
    from transferred(11,12) transfer_exact(4) [OF assms(2) transferred(3,7,8,10)] show ?thesis
      by (auto simp: reconciled_def transferred(2) held_settle [OF ids transferred(3,4)] r posted_def posts_def)
  qed
qed

lemma openings_set_balance:
  assumes "distinct (map w_id ws)" "sel w_id i ws = Some r"
    "sint b - k i = sint (w_balance r) - l i" "\<And>j. j \<noteq> i \<Longrightarrow> k j = l j"
  shows "map (\<lambda>r. (w_id r, sint (w_balance r) - k (w_id r))) (set_balance i b now ws)
    = map (\<lambda>r. (w_id r, sint (w_balance r) - l (w_id r))) ws"
proof -
  have "x = r" if "x \<in> set ws" "w_id x = i" for x
    using that assms(1,2) by (metis sel_eq_Some_iff option.inject)
  with assms(3,4) show ?thesis
    by (auto simp: set_balance_def upd_def)
qed

lemma pay_step_openings:
  assumes "pay_step c d ev d'" "pay_wf d"
  shows "openings d' = openings d"
  using assms(1)
proof cases
  case (transferred h recipient src rcp t1 t2 e now2 now1)
  let ?types = "[''transfer_debit'', ''transfer_credit'']"
  let ?ws = "set_balance (h_wallet_id h) (w_balance src - h_amount h) now1 (wallets d)"
  let ?k = "\<lambda>w. posted ?types w d - (if w = h_wallet_id h then sint (h_amount h) else 0)"
  note exact = transfer_exact [OF assms(2) transferred(3,7,8,10)]
  have k: "posted ?types w d' = ?k w + (if w = recipient then sint (h_amount h) else 0)" for w
    using transferred(5,11,12) exact(4) by (auto simp: transferred(2) posted_def posts_def)
  have ws: "sel w_id recipient ?ws = Some rcp" "distinct (map w_id ?ws)"
    using transferred(5,7) pay_wfD(5) [OF assms(2)] by (simp_all add: sel_set_balance)
  have "openings d' = map (\<lambda>r. (w_id r, sint (w_balance r) - ?k (w_id r))) ?ws"
    unfolding openings_def opening_balance_def k
    using openings_set_balance [OF ws(2,1), of "w_balance rcp + h_amount h"
        "\<lambda>w. ?k w + (if w = recipient then sint (h_amount h) else 0)" ?k] exact transferred(2)
    by simp
  also have "\<dots> = openings d"
    unfolding openings_def opening_balance_def
    using openings_set_balance [OF pay_wfD(5) [OF assms(2)] transferred(6), of
        "w_balance src - h_amount h" ?k "\<lambda>w. posted ?types w d"] exact
    by simp
  finally show ?thesis .
qed (auto simp: openings_def opening_balance_def posted_def posts_def)

lemma announced_none:
  assumes "announced hs es" "sel h_id i hs = None" "typ \<in> set hold_events"
  shows "events typ i es = 0"
  using assms by (auto simp: announced_def list_all_iff events_def filter_empty_conv sel_None_iff)

lemma announced_placed:
  assumes "announced hs es" "sel h_id (h_id h) hs = None" "active h"
    "e_event_type e = EventPaymentHeld" "e_aggregate_id e = h_id h"
  shows "announced (hs @ [h]) (es @ [e])"
proof -
  have "list_all (\<lambda>k. map (\<lambda>typ. events typ (h_id k) (es @ [e])) hold_events =
       [1, of_bool (h_status k = ''released''), of_bool (h_status k = ''transferred'')]) hs"
    unfolding list_all_iff
  proof
    fix k assume k: "k \<in> set hs"
    with assms(2) have "h_id k \<noteq> h_id h" by (metis sel_None_iff image_eqI)
    with k assms(1,5) show "map (\<lambda>typ. events typ (h_id k) (es @ [e])) hold_events =
       [1, of_bool (h_status k = ''released''), of_bool (h_status k = ''transferred'')]"
      by (simp add: announced_def list_all_iff)
  qed
  moreover from assms(1) have "list_all (\<lambda>e. e_event_type e \<in> set hold_events \<longrightarrow>
      e_aggregate_id e \<in> h_id ` set (hs @ [h])) (es @ [e])"
    by (auto simp: announced_def list_all_iff assms(5))
  moreover have "map (\<lambda>typ. events typ (h_id h) (es @ [e])) hold_events = [1, 0, 0]"
    using announced_none [OF assms(1,2)] assms(4,5) by (simp add: hold_events_def event_names)
  ultimately show ?thesis
    using assms(3) by (simp add: announced_def active_def)
qed

lemma announced_settled:
  assumes "announced hs es" "distinct (map h_id hs)" "sel h_id i hs = Some h" "active h"
    "(e_event_type e, st) \<in> {(EventPaymentReleased, ''released''), (EventPaymentTransferred, ''transferred'')}"
    "e_aggregate_id e = i"
  shows "announced (set_status i st hs) (es @ [e])"
proof -
  have "map (\<lambda>typ. events typ (h_id k) (es @ [e])) hold_events =
       [1, of_bool (h_status k = ''released''), of_bool (h_status k = ''transferred'')]"
    if "k \<in> set (set_status i st hs)" for k
    using that unfolding set_status_def
  proof (cases rule: in_set_updE)
    case (1 q)
    with assms(2,3) have "q = h" by (metis sel_eq_Some_iff option.inject)
    with 1 assms show ?thesis
      by (auto simp: announced_def list_all_iff active_def hold_events_def event_names)
  next
    case 2
    with assms(1,6) show ?thesis by (simp add: announced_def list_all_iff)
  qed
  then show ?thesis
    using assms(1,3,6) by (auto simp: announced_def list_all_iff dest: sel_mem)
qed

lemma announced_other:
  "announced hs es \<Longrightarrow> e_event_type e \<notin> set hold_events \<Longrightarrow> announced hs (es @ [e])"
  by (auto simp: announced_def list_all_iff hold_events_def)

lemma pay_step_announced:
  assumes "pay_step c d ev d'" "pay_wf d" "announced (holds d) (outbox d)"
  shows "announced (holds d') (outbox d')"
  using assms(1)
proof cases
  case (placed h row t e)
  then show ?thesis using assms(3) by (simp add: announced_placed emits_def)
next
  case (failed req row t e)
  then show ?thesis
    using assms(3) by (simp add: announced_other emits_def hold_events_def event_names)
next
  case (released h t e)
  then show ?thesis
    using announced_settled [OF assms(3) pay_wfD(6) [OF assms(2)] released(3,4)]
    by (simp add: emits_def)
next
  case (transferred h recipient src rcp t1 t2 e now2 now1)
  then show ?thesis
    using announced_settled [OF assms(3) pay_wfD(6) [OF assms(2)] transferred(3,4)]
    by (simp add: emits_def)
qed

end
