(* ===== verification/PaymentsService.thy ===== *)
theory PaymentsService
  imports PaymentsLedger
begin

text \<open>
  The payments service as a whole: its requests, the other processes that write its database
  (the seed command and the outbox publisher), and the states they can reach when they run one
  after the other; faults can hit every call to the database. What two hold requests can do to
  each other when they overlap is the subject of theory PaymentsRace.
\<close>

section \<open>Requests\<close>

datatype pay_call =
    PostHold "HoldRequest option"
  | PostRelease "ReleaseRequest option"
  | PostTransfer "TransferRequest option"
  | GetWalletOf "uuid option"
  | GetWallets string string

definition pay_serve :: "codec \<Rightarrow> pay_call \<Rightarrow> psess \<Rightarrow> response \<times> psess" where
  "pay_serve c call = run_handler (case call of
       PostHold bound \<Rightarrow> HoldFunds c bound
     | PostRelease bound \<Rightarrow> ReleaseFunds c bound
     | PostTransfer bound \<Rightarrow> TransferFunds c bound
     | GetWalletOf parsed \<Rightarrow> GetWallet c parsed
     | GetWallets limit offset \<Rightarrow> ListWallets c limit offset)"

text \<open>A history: each request with the time it comes at and the faults that hit it.\<close>

fun pay_serves :: "codec \<Rightarrow> (int \<times> fault list \<times> pay_call) list \<Rightarrow> psess \<Rightarrow> response list \<times> psess" where
  "pay_serves c [] s = ([], s)"
| "pay_serves c ((now, faults, call) # reqs) s =
     (case pay_serve c call (s\<lparr>s_now := now, s_faults := faults\<rparr>) of (r, s1) \<Rightarrow>
      case pay_serves c reqs s1 of (rs, s2) \<Rightarrow> (r # rs, s2))"

definition empty_pdb :: pdb where
  "empty_pdb = \<lparr>wallets = [], holds = [], transactions = [], outbox = []\<rparr>"

text \<open>The databases that requests, seeding and publishing can lead to, under any faults.\<close>

inductive pay_reach :: "codec \<Rightarrow> 'n publish \<Rightarrow> pdb \<Rightarrow> bool" for c pub where
  created: "pay_reach c pub empty_pdb"
| seeded: "pay_reach c pub (s_db s) \<Longrightarrow> seed_main s = (q, s') \<Longrightarrow> pay_reach c pub (s_db s')"
| served: "pay_reach c pub (s_db s) \<Longrightarrow> pay_serve c call s = (r, s') \<Longrightarrow> pay_reach c pub (s_db s')"
| published: "pay_reach c pub (s_db s) \<Longrightarrow> PublishBatch payments_outbox pub batch_size locked s = (q, s')
    \<Longrightarrow> pay_reach c pub (s_db s')"

section \<open>Every request is at most one step\<close>

lemma same_row:
  "wallet_GetByUserID i now u d = Inr (w, d') \<Longrightarrow> d' = d"
  "wallet_ListAll l n now u d = Inr (ws, d') \<Longrightarrow> d' = d"
  "wallet_Count now u d = Inr (n', d') \<Longrightarrow> d' = d"
  by (auto simp: wallet_GetByUserID_def wallet_ListAll_def wallet_Count_def
      split: option.splits sum.splits if_splits)

lemma GetWallet_same:
  assumes "GetWallet c parsed s = (q, s')"
  shows "s_db s' = s_db s"
proof (cases q)
  case (Inl r)
  from assms [unfolded Inl] show ?thesis
    by (auto simp: GetWallet_def elim!: prog_elims dest: same_row split: option.splits)
next
  case (Inr r)
  from assms [unfolded Inr] show ?thesis
    by (auto simp: GetWallet_def elim!: prog_elims dest: same_row split: option.splits)
qed

lemma ListWallets_same:
  assumes "ListWallets c l p s = (q, s')"
  shows "s_db s' = s_db s"
proof (cases q)
  case (Inl r)
  from assms [unfolded Inl] show ?thesis
    by (auto simp: ListWallets_def elim!: prog_elims dest!: same_row)
next
  case (Inr r)
  from assms [unfolded Inr] show ?thesis
    by (auto simp: ListWallets_def elim!: prog_elims dest!: same_row)
qed

text \<open>The step a request asks for, and the reply that confirms a step.\<close>

fun asked :: "pay_call \<Rightarrow> pay_event \<Rightarrow> bool" where
  "asked (PostHold (Some req)) (Placed h) \<longleftrightarrow> h_wallet_id h = hr_wallet_id req \<and>
     h_amount h = hr_amount req \<and> h_contract_id h = hr_contract_id req"
| "asked (PostHold (Some req)) (Failed req') \<longleftrightarrow> req' = req"
| "asked (PostRelease (Some req)) (Released h) \<longleftrightarrow> h_id h = rr_hold_id req"
| "asked (PostTransfer (Some req)) (Transferred h w) \<longleftrightarrow>
     h_id h = tr_hold_id req \<and> w = tr_recipient_wallet_id req"
| "asked _ _ \<longleftrightarrow> False"

fun answer :: "codec \<Rightarrow> pay_event \<Rightarrow> response" where
  "answer c (Placed h) = Resp 201 (hold_json c h)"
| "answer c (Failed req) = error_resp 422 ''insufficient funds''"
| "answer c (Released h) = Resp 200 (hold_json c (h\<lparr>h_status := ''released''\<rparr>))"
| "answer c (Transferred h w) = Resp 200 (transferred_response c h (h_wallet_id h) w)"

fun is_get :: "pay_call \<Rightarrow> bool" where
  "is_get (GetWalletOf _) \<longleftrightarrow> True"
| "is_get (GetWallets _ _) \<longleftrightarrow> True"
| "is_get _ \<longleftrightarrow> False"

lemma pay_serve_cases:
  assumes "pay_serve c call s = (r, s')"
  obtains (step) ev where "pay_step c (s_db s) ev (s_db s')" "asked call ev"
      "r \<in> {answer c ev, internal_error}"
  | (same) "s_db s' = s_db s" "is_get call \<or> code r \<in> {400, 404, 409, 500}"
proof (cases call)
  case (PostHold bound)
  with assms obtain q where q: "HoldFunds c bound s = (q, s')" "q = Inl r \<or> q = Inr r"
    by (auto simp: pay_serve_def elim: run_handler_sumE)
  from HoldFunds_run [OF q(1)]
  consider "s_db s' = s_db s" "\<exists>r. q = Inl r \<and> code r \<in> {400, 404, 500}"
    | ev where "pay_step c (s_db s) ev (s_db s')" "asked call ev"
        "q \<in> {Inr (answer c ev), Inl internal_error}"
    unfolding PostHold by (elim disjE exE conjE) (blast, force+)
  then show thesis using q(2) by cases (auto intro: step same)
next
  case (PostRelease bound)
  with assms obtain q where q: "ReleaseFunds c bound s = (q, s')" "q = Inl r \<or> q = Inr r"
    by (auto simp: pay_serve_def elim: run_handler_sumE)
  from ReleaseFunds_run [OF q(1)]
  consider "s_db s' = s_db s" "\<exists>r. q = Inl r \<and> code r \<in> {400, 404, 409, 500}"
    | ev where "pay_step c (s_db s) ev (s_db s')" "asked call ev"
        "q \<in> {Inr (answer c ev), Inl internal_error}"
    unfolding PostRelease by (elim disjE exE conjE) (blast, force)
  then show thesis using q(2) by cases (auto intro: step same)
next
  case (PostTransfer bound)
  with assms obtain q where q: "TransferFunds c bound s = (q, s')" "q = Inl r \<or> q = Inr r"
    by (auto simp: pay_serve_def elim: run_handler_sumE)
  from TransferFunds_run [OF q(1)]
  consider "s_db s' = s_db s" "\<exists>r. q = Inl r \<and> code r \<in> {400, 404, 409, 500}"
    | ev where "pay_step c (s_db s) ev (s_db s')" "asked call ev"
        "q \<in> {Inr (answer c ev), Inl internal_error}"
    unfolding PostTransfer by (elim disjE exE conjE) (blast, force)
  then show thesis using q(2) by cases (auto intro: step same)
next
  case (GetWalletOf parsed)
  with assms show thesis
    by (auto simp: pay_serve_def elim!: run_handler_eqE intro!: same dest: GetWallet_same)
next
  case (GetWallets l p)
  with assms show thesis
    by (auto simp: pay_serve_def elim!: run_handler_eqE intro!: same dest: ListWallets_same)
qed

section \<open>The invariants hold in every reachable state\<close>

definition pay_inv :: "pdb \<Rightarrow> bool" where
  "pay_inv d \<longleftrightarrow> pay_wf d \<and> solvent d \<and> reconciled d \<and> announced (holds d) (outbox d)"

lemma pay_step_inv: "pay_step c d ev d' \<Longrightarrow> pay_inv d \<Longrightarrow> pay_inv d'"
  by (simp add: pay_inv_def pay_step_wf pay_step_solvent pay_step_reconciled pay_step_announced)

lemma pay_serve_inv: "pay_serve c call s = (r, s') \<Longrightarrow> pay_inv (s_db s) \<Longrightarrow> pay_inv (s_db s')"
  by (cases rule: pay_serve_cases) (auto intro: pay_step_inv)

lemma holds_ok_wallets_mono: "holds_ok ws hs \<Longrightarrow> ws \<subseteq> ws' \<Longrightarrow> holds_ok ws' hs"
  by (auto simp: holds_ok_def list_all_iff)

lemma transactions_ok_wallets_mono: "transactions_ok ws hs ts \<Longrightarrow> ws \<subseteq> ws' \<Longrightarrow> transactions_ok ws' hs ts"
  by (auto simp: transactions_ok_def list_all_iff)

lemma held_unknown: "holds_ok ws hs \<Longrightarrow> w \<notin> ws \<Longrightarrow> held w hs = 0"
proof -
  assume "holds_ok ws hs" "w \<notin> ws"
  then have "filter (\<lambda>h. h_wallet_id h = w \<and> active h) hs = []"
    by (auto simp: holds_ok_def list_all_iff filter_empty_conv)
  then show ?thesis by (simp add: held_def)
qed

lemma seed_insert_inv:
  assumes "seed_insert user bal now u d = Inr (x, d')" "pay_inv d"
  shows "pay_inv d'"
proof -
  from assms(1) consider "d' = d"
    | r where "d' = d\<lparr>wallets := wallets d @ [r]\<rparr>" "sel w_id (w_id r) (wallets d) = None"
        "sel w_user_id (w_user_id r) (wallets d) = None" "0 \<le> sint (w_balance r)"
    by (fastforce simp: seed_insert_def word_sless_alt split: if_splits)
  then show ?thesis
  proof cases
    case 1
    with assms(2) show ?thesis by simp
  next
    case (2 r)
    from assms(2) have inv: "wallets_ok (wallets d)" "holds_ok (w_id ` set (wallets d)) (holds d)"
      "transactions_ok (w_id ` set (wallets d)) (h_id ` set (holds d)) (transactions d)"
      "distinct (map e_id (outbox d))" "solvent d" "reconciled d" "announced (holds d) (outbox d)"
      by (simp_all add: pay_inv_def pay_wf_def)
    have "wallets_ok (wallets d @ [r])"
      using inv(1) 2 by (simp add: wallets_ok_def sel_None_iff)
    moreover have "holds_ok (w_id ` set (wallets d @ [r])) (holds d)"
      "transactions_ok (w_id ` set (wallets d @ [r])) (h_id ` set (holds d)) (transactions d)"
      using inv(2,3) by (auto intro: holds_ok_wallets_mono transactions_ok_wallets_mono)
    moreover have "held (w_id r) (holds d) = 0"
      using inv(2) 2(2) by (intro held_unknown) (simp_all add: sel_None_iff)
    ultimately show ?thesis
      using inv(4-) 2 by (simp add: pay_inv_def pay_wf_def solvent_def reconciled_def posted_def)
  qed
qed

lemma seed_users_inv:
  assumes "seed_users us s = (q, s')" "pay_inv (s_db s)"
  shows "pay_inv (s_db s')"
  using assms
proof (induction us arbitrary: s)
  case (Cons u us)
  obtain user bal where u: "u = (user, bal)" by fastforce
  with Cons.prems(1) have "bnd (auto_stmt (seed_insert user bal)) (\<lambda>_. seed_users us) s = (q, s')"
    by simp
  then show ?case
  proof (cases rule: bnd_eqE)
    case (stop e)
    with Cons.prems(2) show ?thesis by (auto elim!: auto_stmt_InlE intro: seed_insert_inv)
  next
    case (go x s1)
    from go(1) Cons.prems(2) have "pay_inv (s_db s1)"
      by (auto elim!: auto_stmt_InrE intro: seed_insert_inv)
    with go(2) show ?thesis by (rule Cons.IH)
  qed
qed simp

lemma announced_unstamped: "announced hs (unstamped es) \<longleftrightarrow> announced hs es"
  by (simp add: announced_def list_all_iff) (simp add: unstamped_def)

lemma published_inv:
  assumes "d'\<lparr>outbox := []\<rparr> = d\<lparr>outbox := []\<rparr>" and "unstamped (outbox d') = unstamped (outbox d)"
    and "pay_inv d"
  shows "pay_inv d'"
proof -
  from assms(1) have d': "d' = d\<lparr>outbox := outbox d'\<rparr>" by (cases d; cases d') simp
  have "distinct (map e_id (outbox d'))" "announced (holds d) (outbox d')"
    using assms(2,3) announced_unstamped map_unstamped unfolding pay_inv_def pay_wf_def by metis+
  then show ?thesis
    using assms(3) by (subst d', simp add: pay_inv_def pay_wf_def solvent_def)
      (simp add: reconciled_def posted_def)
qed

lemma empty_inv: "pay_inv empty_pdb"
  by (simp add: pay_inv_def pay_wf_def empty_pdb_def wallets_ok_def holds_ok_def
      transactions_ok_def solvent_def reconciled_def posted_def announced_def)

lemma pay_reach_inv: "pay_reach c pub d \<Longrightarrow> pay_inv d"
proof (induction rule: pay_reach.induct)
  case created
  show ?case by (rule empty_inv)
next
  case (seeded s q s')
  then show ?case by (auto simp: seed_main_def intro: seed_users_inv)
next
  case (served s call r s')
  then show ?case by (auto intro: pay_serve_inv)
next
  case (published s locked q s')
  then show ?case
    using payments_events.PublishBatch_rest [OF published(2)]
    by (auto simp: batch_size_def intro: published_inv)
qed

section \<open>A hold's life\<close>

lemma pay_step_hold:
  assumes "pay_step c d ev d'" "sel h_id i (holds d) = Some h"
  obtains (kept) "sel h_id i (holds d') = Some h"
  | (released) "active h" "ev = Released h" "sel h_id i (holds d') = Some (h\<lparr>h_status := ''released''\<rparr>)"
  | (transferred) w where "active h" "ev = Transferred h w"
      "sel h_id i (holds d') = Some (h\<lparr>h_status := ''transferred''\<rparr>)"
  using assms(1)
proof cases
  case (placed k row t e)
  with assms(2) show thesis by (auto intro!: kept simp: sel_append)
next
  case (failed req row t e)
  with assms(2) show thesis by (auto intro!: kept)
next
  case (released k t e)
  show thesis
  proof (cases "h_id k = i")
    case True
    show thesis by (rule that(2)) (use True released assms(2) in \<open>auto simp: sel_set_status\<close>)
  next
    case False
    show thesis by (rule that(1)) (use False released assms(2) in \<open>auto simp: sel_set_status\<close>)
  qed
next
  case (transferred k recipient src rcp t1 t2 e now2 now1)
  show thesis
  proof (cases "h_id k = i")
    case True
    show thesis by (rule that(3) [of recipient]) (use True transferred assms(2) in \<open>auto simp: sel_set_status\<close>)
  next
    case False
    show thesis by (rule that(1)) (use False transferred assms(2) in \<open>auto simp: sel_set_status\<close>)
  qed
qed

text \<open>A reply that says the hold has been settled.\<close>

fun settles :: "uuid \<Rightarrow> pay_call \<times> response \<Rightarrow> bool" where
  "settles i (PostRelease (Some req), r) \<longleftrightarrow> rr_hold_id req = i \<and> status_ok r"
| "settles i (PostTransfer (Some req), r) \<longleftrightarrow> tr_hold_id req = i \<and> status_ok r"
| "settles i _ \<longleftrightarrow> False"

definition exchanges ::
  "(int \<times> fault list \<times> pay_call) list \<Rightarrow> response list \<Rightarrow> (pay_call \<times> response) list" where
  "exchanges reqs rs = zip (map (\<lambda>(now, faults, call). call) reqs) rs"

lemma exchanges_simps [simp]:
  "exchanges [] rs = []"
  "exchanges ((now, faults, call) # reqs) (r # rs) = (call, r) # exchanges reqs rs"
  by (simp_all add: exchanges_def)

lemma settles_effect:
  assumes "pay_serve c call s = (r, s')" "settles i (call, r)"
  obtains h h' where "sel h_id i (holds (s_db s)) = Some h" "active h"
    "sel h_id i (holds (s_db s')) = Some h'" "\<not> active h'"
  using assms(1)
proof (cases rule: pay_serve_cases)
  case (step ev)
  from assms(2) step(2,3) consider h where "ev = Released h" "h_id h = i"
    | h w where "ev = Transferred h w" "h_id h = i"
    by (cases "(i, call, r)" rule: settles.cases; cases ev) (auto simp: status_ok_def)
  then show thesis
    using step(1) that
    by cases (auto simp: sel_set_status active_def elim!: released_stepE transferred_stepE)
next
  case same
  with assms(2) show thesis
    by (cases "(i, call, r)" rule: settles.cases) (auto simp: status_ok_def)
qed

lemma settled_stays:
  assumes "pay_serve c call s = (r, s')" "sel h_id i (holds (s_db s)) = Some h" "\<not> active h"
  shows "sel h_id i (holds (s_db s')) = Some h"
  using assms(1)
proof (cases rule: pay_serve_cases)
  case (step ev)
  from step(1) assms(2) show ?thesis
    by (cases rule: pay_step_hold) (use assms(3) in auto)
qed (use assms(2) in simp)

lemma settled_silent:
  assumes "pay_serves c reqs s = (rs, s')" "sel h_id i (holds (s_db s)) = Some h" "\<not> active h"
  shows "filter (settles i) (exchanges reqs rs) = [] \<and>
    sel h_id i (holds (s_db s')) = Some h"
  using assms(1,2)
proof (induction reqs arbitrary: s rs)
  case (Cons req reqs)
  obtain now faults call where req: "req = (now, faults, call)" by (cases req)
  let ?s = "s\<lparr>s_now := now, s_faults := faults\<rparr>"
  from Cons.prems(1) obtain r s1 rs' where run: "pay_serve c call ?s = (r, s1)"
    "pay_serves c reqs s1 = (rs', s')" "rs = r # rs'"
    by (auto simp: req split: prod.splits)
  have "\<not> settles i (call, r)"
  proof
    assume "settles i (call, r)"
    from settles_effect [OF run(1) this] obtain k where "sel h_id i (holds (s_db s)) = Some k" "active k"
      by auto
    with Cons.prems(2) assms(3) show False by simp
  qed
  moreover have "sel h_id i (holds (s_db s1)) = Some h"
    by (rule settled_stays [OF run(1)]) (use Cons.prems(2) assms(3) in simp_all)
  ultimately show ?case using Cons.IH [OF run(2)] by (simp add: req run(3))
qed simp

lemma settles_at_most_once:
  assumes "pay_serves c reqs s = (rs, s')"
  shows "length (filter (settles i) (exchanges reqs rs)) \<le> 1"
  using assms
proof (induction reqs arbitrary: s rs)
  case (Cons req reqs)
  obtain now faults call where req: "req = (now, faults, call)" by (cases req)
  from Cons.prems(1) obtain r s1 rs' where run:
    "pay_serve c call (s\<lparr>s_now := now, s_faults := faults\<rparr>) = (r, s1)"
    "pay_serves c reqs s1 = (rs', s')" "rs = r # rs'"
    by (auto simp: req split: prod.splits)
  show ?case
  proof (cases "settles i (call, r)")
    case True
    from settles_effect [OF run(1) this] obtain h' where
      "sel h_id i (holds (s_db s1)) = Some h'" "\<not> active h'" .
    from settled_silent [OF run(2) this] show ?thesis by (simp add: req run(3))
  next
    case False
    with Cons.IH [OF run(2)] show ?thesis by (simp add: req run(3))
  qed
qed simp

section \<open>Requests that must succeed\<close>

text \<open>The next nine generated ids are new, so no insert runs into a key.\<close>

definition fresh_ids :: "psess \<Rightarrow> bool" where
  "fresh_ids s \<longleftrightarrow>
     (let us = map (\<lambda>j. s_gen s (s_used s + j)) [0..<9] in
      distinct us \<and> list_all (\<lambda>u. sel h_id u (holds (s_db s)) = None \<and>
        sel t_id u (transactions (s_db s)) = None \<and> u \<notin> e_id ` set (outbox (s_db s))) us)"

lemma upt9: "[0..<9] = [0, 1, 2, 3, 4, 5, 6, 7, 8 :: nat]"
  by (simp add: upt_rec)

lemma fresh_idsD:
  assumes "fresh_ids s"
  shows "let n = s_used s in list_all (\<lambda>j. sel h_id (s_gen s j) (holds (s_db s)) = None \<and>
      sel t_id (s_gen s j) (transactions (s_db s)) = None \<and> s_gen s j \<notin> e_id ` set (outbox (s_db s)))
    [n, Suc n, Suc (Suc n), Suc (Suc (Suc n)), Suc (Suc (Suc (Suc n))),
     Suc (Suc (Suc (Suc (Suc n)))), Suc (Suc (Suc (Suc (Suc (Suc n))))),
     Suc (Suc (Suc (Suc (Suc (Suc (Suc n)))))), Suc (Suc (Suc (Suc (Suc (Suc (Suc (Suc n)))))))]"
    "s_gen s (Suc (Suc (Suc (Suc (Suc (Suc (s_used s))))))) \<noteq>
      s_gen s (Suc (Suc (Suc (Suc (Suc (Suc (Suc (s_used s))))))))"
  using assms by (simp_all add: fresh_ids_def upt9 eval_nat_numeral)

lemmas handler_runs = run_handler_def or_404_def or_500_def bnd_def map_err_def fine_runs
  payments_outbox_def PostgresStore_def pg_Insert_def new_transaction_def transaction_types_def

lemma held_bounds:
  assumes "pay_inv d" "sel w_id i (wallets d) = Some row"
  shows "0 \<le> available d row" "available d row \<le> sint (w_balance row)"
proof -
  from assms have "held (w_id row) (holds d) \<le> sint (w_balance row)"
    by (auto simp: pay_inv_def solvent_def list_all_iff dest: sel_SomeD)
  moreover from assms(1) have "0 \<le> held (w_id row) (holds d)"
    by (intro held_nonneg pay_wfD(7)) (simp add: pay_inv_def)
  ultimately show "0 \<le> available d row" "available d row \<le> sint (w_balance row)"
    by (simp_all add: available_def)
qed

lemma scan_available:
  assumes "pay_inv d" "sel w_id i (wallets d) = Some row"
  shows "scan_wallet d row = Inr (with_available row (word_of_int (available d row)))"
    "sint (word_of_int (available d row) :: int64) = available d row"
proof -
  have "0 \<le> available d row" "available d row < 2 ^ 63"
    using held_bounds [OF assms] sint64_bounds [of "w_balance row"] by auto
  then show "scan_wallet d row = Inr (with_available row (word_of_int (available d row)))"
    "sint (word_of_int (available d row) :: int64) = available d row"
    by (simp_all add: scan_wallet_def scan_int64_def sint_sbintrunc' signed_take_bit63_id)
qed

lemma hold_progress:
  assumes "s_faults s = []" "pay_inv (s_db s)" "fresh_ids s"
    "hr_wallet_id req \<noteq> uuid_Nil" "0 < sint (hr_amount req)" "hr_contract_id req \<noteq> uuid_Nil"
    "sel w_id (hr_wallet_id req) (wallets (s_db s)) = Some row"
  shows "code (fst (pay_serve c (PostHold (Some req)) s)) =
    (if sint (hr_amount req) \<le> available (s_db s) row then 201 else 422)"
proof -
  note scan = scan_available [OF assms(2,7)]
  note fresh = fresh_idsD [OF assms(3)]
  have w: "w_id row = hr_wallet_id req" using assms(7) by (auto dest: sel_SomeD)
  show ?thesis
    using assms(1,4-) fresh scan w
    by (simp add: pay_serve_def HoldFunds_def handler_runs Let_def
        wallet_GetByIDForUpdate_def word_sle_eq word_sless_alt hold_insufficient_def hold_place_def
        hold_Create_def transaction_Create_def with_available_def sel_append sel_Cons)
qed

lemma release_progress:
  assumes "s_faults s = []" "pay_inv (s_db s)" "fresh_ids s" "rr_hold_id req \<noteq> uuid_Nil"
    "sel h_id (rr_hold_id req) (holds (s_db s)) = Some h"
  shows "code (fst (pay_serve c (PostRelease (Some req)) s)) = (if active h then 200 else 409)"
proof -
  note fresh = fresh_idsD [OF assms(3)]
  have h: "h_id h = rr_hold_id req" using assms(5) by (auto dest: sel_SomeD)
  have wf: "pay_wf (s_db s)" using assms(2) by (simp add: pay_inv_def)
  from hold_wallet [OF wf assms(5)] obtain src where
    "sel w_id (h_wallet_id h) (wallets (s_db s)) = Some src" by auto
  then show ?thesis
    using assms(1,4,5) fresh h
    by (simp add: pay_serve_def ReleaseFunds_def handler_runs Let_def hold_GetByIDForUpdate_def
        hold_UpdateStatus_def hold_statuses_def active_def transaction_Create_def sel_upd)
qed

lemma scan_wf:
  assumes "pay_wf d" "sel w_id i (wallets d) = Some row"
  shows "scan_wallet d row = (if available d row < - (2 ^ 63) then Inl ErrScan
    else Inr (with_available row (word_of_int (available d row))))"
proof -
  have "0 \<le> held (w_id row) (holds d)" by (intro held_nonneg pay_wfD(7) [OF assms(1)])
  then have "available d row < 2 ^ 63"
    using sint64_bounds [of "w_balance row"] by (simp add: available_def)
  then show ?thesis by (simp add: scan_wallet_def scan_int64_def)
qed

text \<open>The answer to a transfer in any database that keeps the schema, solvent or not.\<close>

lemma transfer_codes:
  assumes "s_faults s = []" "pay_wf (s_db s)" "fresh_ids s" "tr_hold_id req \<noteq> uuid_Nil"
    "tr_recipient_wallet_id req \<noteq> uuid_Nil" "sel h_id (tr_hold_id req) (holds (s_db s)) = Some h"
    "sel w_id (h_wallet_id h) (wallets (s_db s)) = Some src"
  shows "code (fst (pay_serve c (PostTransfer (Some req)) s)) =
    (if \<not> active h then 409
     else if h_wallet_id h = tr_recipient_wallet_id req then 400
     else if available (s_db s) src < - (2 ^ 63) \<or> sint (w_balance src) < sint (h_amount h) then 500
     else case sel w_id (tr_recipient_wallet_id req) (wallets (s_db s)) of
       None \<Rightarrow> 404
     | Some rcp \<Rightarrow>
         if available (s_db s) rcp < - (2 ^ 63) \<or> 2 ^ 63 \<le> sint (w_balance rcp) + sint (h_amount h) then 500
         else 200)"
proof -
  note fresh = fresh_idsD [OF assms(3)]
  have h: "h_id h = tr_hold_id req" using assms(6) by (auto dest: sel_SomeD)
  have idsrc: "w_id src = h_wallet_id h" using assms(7) by (auto dest: sel_SomeD)
  have pos: "0 < sint (h_amount h)" using assms(2,6) by (rule hold_positive)
  have debit: "0 \<le> sint (w_balance src - h_amount h)" if "sint (h_amount h) \<le> sint (w_balance src)"
    using sint_sub_exact [of "h_amount h" "w_balance src"] that pos by simp
  note run = pay_serve_def TransferFunds_def handler_runs Let_def hold_GetByIDForUpdate_def
    active_def wallet_GetByIDForUpdate_def word_sless_alt
  note read = scan_wf [OF assms(2,7)]
  show ?thesis
  proof (cases "active h \<and> h_wallet_id h \<noteq> tr_recipient_wallet_id req \<and>
      \<not> available (s_db s) src < - (2 ^ 63) \<and> sint (h_amount h) \<le> sint (w_balance src)")
    case False
    then consider "\<not> active h" | "active h" "h_wallet_id h = tr_recipient_wallet_id req"
      | "active h" "h_wallet_id h \<noteq> tr_recipient_wallet_id req" "available (s_db s) src < - (2 ^ 63)"
      | "active h" "h_wallet_id h \<noteq> tr_recipient_wallet_id req" "\<not> available (s_db s) src < - (2 ^ 63)"
        "sint (w_balance src) < sint (h_amount h)" by linarith
    then show ?thesis
    proof cases
      case 1
      with assms(1,4-6) show ?thesis by (simp add: run)
    next
      case 2
      with assms(1,4-6) show ?thesis by (simp add: run)
    next
      case 3
      with assms(1,4-7) read show ?thesis by (simp add: run)
    next
      case 4
      with assms(1,4-7) read show ?thesis by (simp add: run with_available_def)
    qed
  next
    case True
    show ?thesis
    proof (cases "sel w_id (tr_recipient_wallet_id req) (wallets (s_db s))")
      case None
      with True assms(1,4-7) read show ?thesis by (simp add: run with_available_def)
    next
      case (Some rcp)
      have idrcp: "w_id rcp = tr_recipient_wallet_id req" using Some by (auto dest: sel_SomeD)
      have credit: "sint (w_balance rcp + h_amount h) < 0 \<longleftrightarrow> 2 ^ 63 \<le> sint (w_balance rcp) + sint (h_amount h)"
      proof (cases "sint (w_balance rcp) + sint (h_amount h) < 2 ^ 63")
        case True
        with wallet_nonneg [OF assms(2) Some] pos show ?thesis by (simp add: sint_add_exact)
      next
        case False
        with sint_add_overflow [of "w_balance rcp" "h_amount h"] sint64_bounds [of "h_amount h"]
          sint64_bounds [of "w_balance rcp"] show ?thesis by simp
      qed
      consider "available (s_db s) rcp < - (2 ^ 63)" | "\<not> available (s_db s) rcp < - (2 ^ 63)" "sint (w_balance rcp + h_amount h) < 0"
        | "\<not> available (s_db s) rcp < - (2 ^ 63)" "\<not> sint (w_balance rcp + h_amount h) < 0" by blast
      then show ?thesis
      proof cases
        case 1
        with True Some assms(1,4-7) read scan_wf [OF assms(2) Some] show ?thesis
          by (simp add: run with_available_def)
      next
        case 2
        with True Some assms(1,4-7) read scan_wf [OF assms(2) Some] credit debit idsrc idrcp show ?thesis
          by (simp add: run with_available_def transfer_move_def wallet_UpdateBalance_def sel_upd)
      next
        case 3
        with True Some assms(1,4-7) read scan_wf [OF assms(2) Some] credit debit idsrc idrcp h fresh show ?thesis
          by (simp add: run with_available_def transfer_move_def wallet_UpdateBalance_def sel_upd
            hold_UpdateStatus_def hold_statuses_def transaction_Create_def sel_append sel_Cons)
      qed
    qed
  qed
qed

text \<open>A solvent database always has the money.\<close>

lemma transfer_progress:
  assumes "s_faults s = []" "pay_inv (s_db s)" "fresh_ids s" "tr_hold_id req \<noteq> uuid_Nil"
    "tr_recipient_wallet_id req \<noteq> uuid_Nil" "sel h_id (tr_hold_id req) (holds (s_db s)) = Some h"
  shows "code (fst (pay_serve c (PostTransfer (Some req)) s)) =
    (if \<not> active h then 409
     else if h_wallet_id h = tr_recipient_wallet_id req then 400
     else case sel w_id (tr_recipient_wallet_id req) (wallets (s_db s)) of
       None \<Rightarrow> 404
     | Some rcp \<Rightarrow> if sint (w_balance rcp) + sint (h_amount h) < 2 ^ 63 then 200 else 500)"
proof -
  have wf: "pay_wf (s_db s)" using assms(2) by (simp add: pay_inv_def)
  from hold_wallet [OF wf assms(6)] obtain src where
    src: "sel w_id (h_wallet_id h) (wallets (s_db s)) = Some src" by auto
  have money: "sint (h_amount h) \<le> sint (w_balance src)" if "active h"
  proof -
    have "sint (h_amount h) \<le> held (h_wallet_id h) (holds (s_db s))"
      using pay_wfD(7) [OF wf] assms(6) that by (rule held_ge)
    also have "\<dots> \<le> sint (w_balance src)"
      using assms(2) src solvent_iff [OF wf] by (auto simp: pay_inv_def)
    finally show ?thesis .
  qed
  have read: "\<not> available (s_db s) row < - (2 ^ 63)" if "sel w_id i (wallets (s_db s)) = Some row" for i row
    using held_bounds(1) [OF assms(2) that] by simp
  show ?thesis
    using transfer_codes [OF assms(1) wf assms(3-6) src, of c] money read [OF src] read
    by (auto split: option.split)
qed

section \<open>Histories and lists\<close>

lemma pay_serves_keeps:
  assumes "pay_serves c reqs s = (rs, s')" "pay_wf (s_db s)"
  shows "pay_wf (s_db s') \<and> total (s_db s') = total (s_db s) \<and> openings (s_db s') = openings (s_db s)"
  using assms
proof (induction reqs arbitrary: s rs)
  case (Cons req reqs)
  obtain now faults call where req: "req = (now, faults, call)" by (cases req)
  from Cons.prems(1) obtain r s1 rs' where run:
    "pay_serve c call (s\<lparr>s_now := now, s_faults := faults\<rparr>) = (r, s1)"
    "pay_serves c reqs s1 = (rs', s')"
    by (auto simp: req split: prod.splits)
  have "pay_wf (s_db s1) \<and> total (s_db s1) = total (s_db s) \<and> openings (s_db s1) = openings (s_db s)"
    using run(1)
  proof (cases rule: pay_serve_cases)
    case (step ev)
    from step(1) Cons.prems(2) show ?thesis
      by (simp add: pay_step_wf pay_step_total pay_step_openings)
  qed (use Cons.prems(2) in simp)
  with Cons.IH [OF run(2)] show ?case by simp
qed simp

lemma scan_wallet_InrD:
  "scan_wallet d r = Inr w \<Longrightarrow> w = with_available r (w_available w) \<and> sint (w_available w) = available d r"
  by (auto simp: scan_wallet_def with_available_def split: sum.splits dest: scan_int64_InrD)

lemma scan_wallets_InrD:
  "scan_wallets d rs = Inr ws \<Longrightarrow>
   list_all2 (\<lambda>r w. w = with_available r (w_available w) \<and> sint (w_available w) = available d r) rs ws"
  by (induction rs arbitrary: ws) (auto split: sum.splits dest: scan_wallet_InrD)

text \<open>A page of the wallets, newest first, and what a list reply shows of it.\<close>

definition wallet_page :: "int \<Rightarrow> int \<Rightarrow> pdb \<Rightarrow> wallet_row list" where
  "wallet_page limit offset d =
     take (nat (clamp_limit limit)) (drop (nat offset) (sort_key (\<lambda>r. - w_created_at r) (wallets d)))"

lemma ListWallets_run:
  assumes "ListWallets c l p s = (Inr r, s')"
  obtains limit offset ws where "param l 20 = Some limit" "param p 0 = Some offset" "0 \<le> offset"
    "list_all2 (\<lambda>r w. w = with_available r (w_available w) \<and> sint (w_available w) = available (s_db s) r)
      (wallet_page limit offset (s_db s)) ws"
    "r = Resp 200 (JObj [(''items'', JArr (map (wallet_json c) ws)),
                         (''total'', JNum (int (length (wallets (s_db s)))))])"
proof -
  have rows: "0 \<le> offset \<and> d' = d \<and> list_all2 (\<lambda>r w. w = with_available r (w_available w) \<and>
      sint (w_available w) = available d r) (wallet_page limit offset d) ws"
    if "wallet_ListAll limit offset now u d = Inr (ws, d')" for limit offset now u d ws d'
    using that by (auto simp: wallet_ListAll_def wallet_page_def split: if_splits sum.splits
        dest!: scan_wallets_InrD)
  have total: "n = int (length (wallets d)) \<and> d' = d" if "wallet_Count now u d = Inr (n, d')" for now u d n d'
    using that by (auto simp: wallet_Count_def)
  from assms [unfolded ListWallets_def] show thesis
    apply (elim prog_elims)
    apply (drule rows total)+
    apply (rule that)
    by auto
qed

end
