(* ===== verification/PaymentsRace.thy ===== *)
theory PaymentsRace
  imports PaymentsService
begin

text \<open>
  Two hold requests that overlap. The handlers run at PostgreSQL's default isolation, READ
  COMMITTED: a statement sees the rows committed before it began, also when it has waited for a
  lock meanwhile; of the locked row it gets the version last committed, but the other tables of
  the statement it does not read again. \<open>GetByIDForUpdate\<close> locks the wallet and sums the holds up in
  the same statement, and a hold does not touch the wallet's row: so the sum is that of the time
  before the wait.
\<close>

section \<open>A statement that waited for the lock\<close>

text \<open>\<open>snap\<close> is what was committed when the statement began, \<open>d\<close> when it got the lock.\<close>

definition wallet_GetByIDForUpdate_since :: "pdb \<Rightarrow> uuid \<Rightarrow> Wallet psql" where
  "wallet_GetByIDForUpdate_since snap i now u d =
     (case sel w_id i (wallets snap) of
        None \<Rightarrow> Inl ErrNoRows
      | Some _ \<Rightarrow>
          (case sel w_id i (wallets d) of
             None \<Rightarrow> Inl ErrNoRows
           | Some r \<Rightarrow> (case scan_wallet snap r of Inl e \<Rightarrow> Inl e | Inr w \<Rightarrow> Inr (w, d))))"

definition HoldFunds_since :: "codec \<Rightarrow> pdb \<Rightarrow> HoldRequest option \<Rightarrow> (psess, response, response) prog" where
  "HoldFunds_since c snap bound =
     (case bound of None \<Rightarrow> raise (error_resp 400 ''invalid request body'')
      | Some req \<Rightarrow>
          if hr_wallet_id req = uuid_Nil then raise (error_resp 400 ''wallet_id is required'')
          else if hr_amount req <=s 0 then raise (error_resp 400 ''amount must be positive'')
          else if hr_contract_id req = uuid_Nil then raise (error_resp 400 ''contract_id is required'')
          else
            bnd (or_500 begin_tx) (\<lambda>_. defer_rollback (
            bnd (or_404 ''wallet not found'' (stmt (wallet_GetByIDForUpdate_since snap (hr_wallet_id req)))) (\<lambda>wallet.
            if w_available wallet <s hr_amount req then hold_insufficient c req wallet
            else hold_place c req wallet))))"

text \<open>Without a wait in between it is the handler of theory PaymentsHandler.\<close>

lemma wallet_GetByIDForUpdate_since_same: "wallet_GetByIDForUpdate_since d i now u d = wallet_GetByIDForUpdate i now u d"
  by (simp add: wallet_GetByIDForUpdate_since_def wallet_GetByIDForUpdate_def split: option.splits)

lemma bnd_cong_ok:
  assumes "\<And>x s'. m s = (Inr x, s') \<Longrightarrow> f x s' = g x s'"
  shows "bnd m f s = bnd m g s"
  using assms by (auto simp: bnd_def split: prod.splits sum.splits)

lemma HoldFunds_since_now: "HoldFunds_since c (s_db s) bound s = HoldFunds c bound s"
proof -
  have read: "stmt (wallet_GetByIDForUpdate_since (s_tx s1) i) s1 = stmt (wallet_GetByIDForUpdate i) s1" for s1 i
    by (auto simp: stmt_def wallet_GetByIDForUpdate_since_same split: prod.split fault.split)
  have "bnd (or_500 begin_tx) (\<lambda>_. defer_rollback (
        bnd (or_404 m (stmt (wallet_GetByIDForUpdate_since (s_db s) i))) f)) s =
      bnd (or_500 begin_tx) (\<lambda>_. defer_rollback (
        bnd (or_404 m (stmt (wallet_GetByIDForUpdate i))) f)) s" for m i and f :: "Wallet \<Rightarrow> (psess, response, response) prog"
  proof (rule bnd_cong_ok)
    fix x s1 assume "or_500 begin_tx s = (Inr x, s1)"
    then have "s_tx s1 = s_db s" by (auto elim!: prog_elims)
    with read [of s1 i] show "defer_rollback (bnd (or_404 m (stmt (wallet_GetByIDForUpdate_since (s_db s) i))) f) s1 =
        defer_rollback (bnd (or_404 m (stmt (wallet_GetByIDForUpdate i))) f) s1"
      by (simp add: defer_rollback_def bnd_def or_404_def map_err_def)
  qed
  then show ?thesis by (simp add: HoldFunds_since_def HoldFunds_def raise_def split: option.split)
qed

section \<open>Two holds at once\<close>

lemma hold_since_placed:
  assumes "s_faults s = []" "fresh_ids s" "wallets (s_db s) = wallets snap" "pay_inv snap"
    "hr_wallet_id req \<noteq> uuid_Nil" "0 < sint (hr_amount req)" "hr_contract_id req \<noteq> uuid_Nil"
    "sel w_id (hr_wallet_id req) (wallets snap) = Some row" "sint (hr_amount req) \<le> available snap row"
  obtains h s' where "run_handler (HoldFunds_since c snap (Some req)) s = (Resp 201 (hold_json c h), s')"
    "wallets (s_db s') = wallets snap" "holds (s_db s') = holds (s_db s) @ [h]"
    "h_wallet_id h = hr_wallet_id req" "h_amount h = hr_amount req" "active h"
proof -
  note scan = scan_available [OF assms(4,8)]
  note fresh = fresh_idsD [OF assms(2)]
  have w: "w_id row = hr_wallet_id req" using assms(8) by (auto dest: sel_SomeD)
  let ?h = "\<lparr>h_id = s_gen s (Suc (s_used s)), h_wallet_id = hr_wallet_id req, h_amount = hr_amount req,
      h_status = ''active'', h_contract_id = hr_contract_id req, h_created_at = s_now s, h_expires_at = None\<rparr>"
  show thesis
    by (rule that [of ?h "snd (run_handler (HoldFunds_since c snap (Some req)) s)"])
      (use assms(1,3,5-) fresh scan w in \<open>simp_all add: HoldFunds_since_def handler_runs Let_def
        wallet_GetByIDForUpdate_since_def word_sle_eq word_sless_alt hold_place_def
        hold_Create_def transaction_Create_def with_available_def sel_append sel_Cons active_def\<close>)
qed

lemma overdrawn:
  assumes "s_faults s = []" "pay_inv (s_db s)" "fresh_ids s" "pay_serve c (PostHold (Some req1)) s = (r1, s1)"
    and "s_faults s2 = []" "s_db s2 = s_db s1" "fresh_ids s2"
      "run_handler (HoldFunds_since c (s_db s) (Some req2)) s2 = (r2, s')"
    and req1: "hr_wallet_id req1 = w" "0 < sint (hr_amount req1)" "hr_contract_id req1 \<noteq> uuid_Nil"
    and req2: "hr_wallet_id req2 = w" "0 < sint (hr_amount req2)" "hr_contract_id req2 \<noteq> uuid_Nil"
    and "w \<noteq> uuid_Nil" "sel w_id w (wallets (s_db s)) = Some row"
      "sint (hr_amount req1) \<le> available (s_db s) row" "sint (hr_amount req2) \<le> available (s_db s) row"
      "available (s_db s) row < sint (hr_amount req1) + sint (hr_amount req2)"
  shows "code r1 = 201 \<and> code r2 = 201 \<and> \<not> solvent (s_db s') \<and> code (fst (pay_serve c (PostHold (Some req2)) s2)) = 422"
proof -
  have "run_handler (HoldFunds_since c (s_db s) (Some req1)) s = (r1, s1)"
    using assms(4) by (simp add: pay_serve_def run_handler_def HoldFunds_since_now)
  with hold_since_placed [OF assms(1,3) refl assms(2), of req1 row c] req1 assms(15-17)
  obtain h1 where h1: "r1 = Resp 201 (hold_json c h1)" "wallets (s_db s1) = wallets (s_db s)"
    "holds (s_db s1) = holds (s_db s) @ [h1]" "h_wallet_id h1 = w" "h_amount h1 = hr_amount req1" "active h1"
    by auto
  from hold_since_placed [OF assms(5,7) _ assms(2), of req2 row c] req2 assms(6,8,15,16,18) h1(2)
  obtain h2 where h2: "r2 = Resp 201 (hold_json c h2)" "wallets (s_db s') = wallets (s_db s)"
    "holds (s_db s') = holds (s_db s1) @ [h2]" "h_wallet_id h2 = w" "h_amount h2 = hr_amount req2" "active h2"
    by auto
  have row: "row \<in> set (wallets (s_db s))" "w_id row = w" using sel_SomeD [OF assms(16)] by auto
  have "sint (w_balance row) < held w (holds (s_db s'))"
    using h1 h2 row(2) assms(19) by (simp add: held_append held_Cons available_def)
  with row h2(2) have "\<not> solvent (s_db s')" by (auto simp: solvent_def list_all_iff not_le)
  moreover have "code (fst (pay_serve c (PostHold (Some req2)) s2)) = 422"
  proof -
    have "pay_inv (s_db s2)" using pay_serve_inv [OF assms(4,2)] assms(6) by simp
    moreover have "sel w_id w (wallets (s_db s2)) = Some row" using assms(6,16) h1(2) by simp
    moreover have "available (s_db s2) row < sint (hr_amount req2)"
      using h1 row(2) assms(6,19) by (simp add: held_append held_Cons available_def)
    ultimately show ?thesis
      using hold_progress [OF assms(5) _ assms(7), of req2 row c] req2 assms(15) by simp
  qed
  ultimately show ?thesis using h1(1) h2(1) by simp
qed

end
