(* ===== verification/PaymentsProps.thy ===== *)
theory PaymentsProps
  imports PaymentsRace
begin

text \<open>
  The properties of the payments service and its outbox, each with a concrete run that its
  hypotheses fit. The \<open>demo\<close> definitions are the data of those runs.
\<close>

section \<open>Data for the concrete runs\<close>

definition demo_codec :: codec where
  "demo_codec = \<lparr>uuid_String = (\<lambda>u. ''u''),
     time_String = (\<lambda>t. ''t'')\<rparr>"

text \<open>A broker that stores every message.\<close>

definition demo_pub :: "(string \<times> json) list publish" where
  "demo_pub subject data n = (Inr (), n @ [(subject, data)])"

definition demo_session :: "nat \<Rightarrow> fault list \<Rightarrow> pdb \<Rightarrow> psess" where
  "demo_session used faults d = \<lparr>s_db = d, s_tx = d, s_faults = faults, s_now = 7,
     s_gen = (\<lambda>n. word_of_int (int n + 16)), s_used = used\<rparr>"

definition demo_pub_session ::
  "nat \<Rightarrow> fault list \<Rightarrow> pdb \<Rightarrow> (pdb, uuid, (string \<times> json) list) pub_sess" where
  "demo_pub_session used faults d = \<lparr>s_db = d, s_tx = d, s_faults = faults, s_now = 8,
     s_gen = (\<lambda>n. word_of_int (int n + 16)), s_used = used, s_nats = []\<rparr>"

text \<open>
  The seeded database (user 1's wallet has id 16 and 100000 cents, user 2's id 17), a hold of
  60000 on the first wallet, and its transfer to the second.
\<close>

definition demo_seeded :: pdb where
  "demo_seeded = s_db (snd (seed_main (demo_session 0 [] empty_pdb)))"

definition demo_hold :: HoldRequest where
  "demo_hold = \<lparr>hr_wallet_id = 16, hr_amount = 60000, hr_contract_id = 9\<rparr>"

definition demo_held :: pdb where
  "demo_held = s_db (snd (pay_serve demo_codec (PostHold (Some demo_hold)) (demo_session 20 [] demo_seeded)))"

definition demo_transfer :: TransferRequest where
  "demo_transfer = \<lparr>tr_hold_id = 37, tr_recipient_wallet_id = 17\<rparr>"

definition demo_paid :: pdb where
  "demo_paid = s_db (snd (pay_serve demo_codec (PostTransfer (Some demo_transfer))
     (demo_session 40 [] demo_held)))"

text \<open>Two overlapping holds of 60000 on the first wallet, after the transfer of the first one.\<close>

definition demo_overdrawn :: pdb where
  "demo_overdrawn =
    (let twice = s_db (snd (run_handler (HoldFunds_since demo_codec demo_seeded (Some demo_hold))
       (demo_session 40 [] demo_held)))
     in s_db (snd (pay_serve demo_codec (PostTransfer (Some demo_transfer)) (demo_session 60 [] twice))))"

text \<open>These databases, evaluated.\<close>

lemma demo_seeded_code [code]:
  "demo_seeded =
    \<lparr>wallets =
    [\<lparr>w_id = 16, w_user_id = 0x11111111111111111111111111111111, w_balance = 100000,
         w_currency = ''USD'', w_created_at = 7, w_updated_at = 7\<rparr>,
     \<lparr>w_id = 17, w_user_id = 0x22222222222222222222222222222222, w_balance = 50000,
         w_currency = ''USD'', w_created_at = 7, w_updated_at = 7\<rparr>,
     \<lparr>w_id = 18, w_user_id = 0x33333333333333333333333333333333, w_balance = 0,
         w_currency = ''USD'', w_created_at = 7, w_updated_at = 7\<rparr>,
     \<lparr>w_id = 19, w_user_id = 0x44444444444444444444444444444444, w_balance = 0,
         w_currency = ''USD'', w_created_at = 7, w_updated_at = 7\<rparr>,
     \<lparr>w_id = 20, w_user_id = 0x55555555555555555555555555555555, w_balance = 0,
         w_currency = ''USD'', w_created_at = 7, w_updated_at = 7\<rparr>],
    holds = [], transactions = [], outbox = []\<rparr>"
  by code_simp

lemma demo_held_code [code]:
  "demo_held =
    \<lparr>wallets =
    [\<lparr>w_id = 16, w_user_id = 0x11111111111111111111111111111111, w_balance = 100000,
         w_currency = ''USD'', w_created_at = 7, w_updated_at = 7\<rparr>,
     \<lparr>w_id = 17, w_user_id = 0x22222222222222222222222222222222, w_balance = 50000,
         w_currency = ''USD'', w_created_at = 7, w_updated_at = 7\<rparr>,
     \<lparr>w_id = 18, w_user_id = 0x33333333333333333333333333333333, w_balance = 0,
         w_currency = ''USD'', w_created_at = 7, w_updated_at = 7\<rparr>,
     \<lparr>w_id = 19, w_user_id = 0x44444444444444444444444444444444, w_balance = 0,
         w_currency = ''USD'', w_created_at = 7, w_updated_at = 7\<rparr>,
     \<lparr>w_id = 20, w_user_id = 0x55555555555555555555555555555555, w_balance = 0,
         w_currency = ''USD'', w_created_at = 7, w_updated_at = 7\<rparr>],
    holds =
      [\<lparr>h_id = 37, h_wallet_id = 16, h_amount = 60000,
          h_status = ''active'', h_contract_id = 9, h_created_at = 7,
          h_expires_at = None\<rparr>],
    transactions =
      [\<lparr>t_id = 38, t_wallet_id = 16, t_amount = - 60000, t_type = ''hold'',
          t_hold_id = Some 37, t_reference_id = None, t_created_at = 7\<rparr>],
    outbox =
      [\<lparr>e_id = 39, e_aggregate_type = ''payment'', e_aggregate_id = 37,
          e_event_type = ''payments.payment.held'',
          e_payload =
            JObj
             [(''id'', JStr ''u''), (''wallet_id'', JStr ''u''),
              (''amount'', JNum 60000), (''status'', JStr ''active''),
              (''contract_id'', JStr ''u''), (''created_at'', JStr ''t'')],
          e_created_at = 7, e_published_at = None\<rparr>]\<rparr>"
  by code_simp

lemma demo_paid_code [code]:
  "demo_paid =
    \<lparr>wallets =
    [\<lparr>w_id = 16, w_user_id = 0x11111111111111111111111111111111, w_balance = 40000,
         w_currency = ''USD'', w_created_at = 7, w_updated_at = 7\<rparr>,
     \<lparr>w_id = 17, w_user_id = 0x22222222222222222222222222222222, w_balance = 110000,
         w_currency = ''USD'', w_created_at = 7, w_updated_at = 7\<rparr>,
     \<lparr>w_id = 18, w_user_id = 0x33333333333333333333333333333333, w_balance = 0,
         w_currency = ''USD'', w_created_at = 7, w_updated_at = 7\<rparr>,
     \<lparr>w_id = 19, w_user_id = 0x44444444444444444444444444444444, w_balance = 0,
         w_currency = ''USD'', w_created_at = 7, w_updated_at = 7\<rparr>,
     \<lparr>w_id = 20, w_user_id = 0x55555555555555555555555555555555, w_balance = 0,
         w_currency = ''USD'', w_created_at = 7, w_updated_at = 7\<rparr>],
    holds =
      [\<lparr>h_id = 37, h_wallet_id = 16, h_amount = 60000,
          h_status = ''transferred'', h_contract_id = 9, h_created_at = 7,
          h_expires_at = None\<rparr>],
    transactions =
      [\<lparr>t_id = 38, t_wallet_id = 16, t_amount = - 60000, t_type = ''hold'',
          t_hold_id = Some 37, t_reference_id = None, t_created_at = 7\<rparr>,
       \<lparr>t_id = 62, t_wallet_id = 16, t_amount = - 60000,
          t_type = ''transfer_debit'', t_hold_id = Some 37,
          t_reference_id = None, t_created_at = 7\<rparr>,
       \<lparr>t_id = 63, t_wallet_id = 17, t_amount = 60000,
          t_type = ''transfer_credit'', t_hold_id = Some 37,
          t_reference_id = None, t_created_at = 7\<rparr>],
    outbox =
      [\<lparr>e_id = 39, e_aggregate_type = ''payment'', e_aggregate_id = 37,
          e_event_type = ''payments.payment.held'',
          e_payload =
            JObj
             [(''id'', JStr ''u''), (''wallet_id'', JStr ''u''),
              (''amount'', JNum 60000), (''status'', JStr ''active''),
              (''contract_id'', JStr ''u''), (''created_at'', JStr ''t'')],
          e_created_at = 7, e_published_at = None\<rparr>,
       \<lparr>e_id = 64, e_aggregate_type = ''payment'', e_aggregate_id = 37,
          e_event_type = ''payments.payment.transferred'',
          e_payload =
            JObj
             [(''amount'', JNum 60000), (''contract_id'', JStr ''u''),
              (''hold_id'', JStr ''u''),
              (''recipient_wallet_id'', JStr ''u''),
              (''source_wallet_id'', JStr ''u'')],
          e_created_at = 7, e_published_at = None\<rparr>]\<rparr>"
  by code_simp

lemmas demo_simps = demo_session_def demo_pub_session_def

lemma demo_reached:
  "pay_reach demo_codec demo_pub demo_seeded" "pay_reach demo_codec demo_pub demo_held"
  "pay_reach demo_codec demo_pub demo_paid"
proof -
  have "pay_reach demo_codec demo_pub (s_db (demo_session 0 [] empty_pdb))"
    by (simp add: demo_simps pay_reach.created)
  from pay_reach.seeded [OF this] show seeded: "pay_reach demo_codec demo_pub demo_seeded"
    unfolding demo_seeded_def by (metis surjective_pairing)
  then have "pay_reach demo_codec demo_pub (s_db (demo_session 20 [] demo_seeded))"
    by (simp add: demo_simps)
  from pay_reach.served [OF this] show held: "pay_reach demo_codec demo_pub demo_held"
    unfolding demo_held_def by (metis surjective_pairing)
  then have "pay_reach demo_codec demo_pub (s_db (demo_session 40 [] demo_held))"
    by (simp add: demo_simps)
  from pay_reach.served [OF this] show "pay_reach demo_codec demo_pub demo_paid"
    unfolding demo_paid_def by (metis surjective_pairing)
qed

lemma demo_balances:
  "map (\<lambda>r. sint (w_balance r)) (wallets demo_paid) = [40000, 110000, 0, 0, 0]"
  "map (\<lambda>r. (sint (w_balance r), held (w_id r) (holds demo_held))) (wallets demo_held)
    = [(100000, 60000), (50000, 0), (0, 0), (0, 0), (0, 0)]"
  "map h_status (holds demo_paid) = [''transferred'']"
  by code_simp+

text \<open>
  A history: the hold; its transfer, whose commit fails; the transfer again, whose reply is
  lost; once more; and a release.
\<close>

definition demo_history :: "(int \<times> fault list \<times> pay_call) list" where
  "demo_history =
     [(7, [], PostHold (Some demo_hold)),
      (8, replicate 10 Fine @ [Before], PostTransfer (Some demo_transfer)),
      (9, replicate 10 Fine @ [After], PostTransfer (Some demo_transfer)),
      (10, [], PostTransfer (Some demo_transfer)),
      (11, [], PostRelease (Some \<lparr>rr_hold_id = 37\<rparr>))]"

definition demo_replies :: "response list" where
  "demo_replies = fst (pay_serves demo_codec demo_history (demo_session 20 [] demo_seeded))"

lemma demo_codes: "map code demo_replies = [201, 500, 500, 409, 409]"
  by code_simp

section \<open>Invariants of every reachable database\<close>

text \<open>C3: No wallet ever promises more than it owns. In every database that requests, seeding
  and publishing can lead to when they run one after the other, whatever calls to the database fail and whatever replies are
  lost, the active holds of a wallet sum up to at most its balance, and neither is negative.\<close>

theorem payments_solvent:
  assumes "pay_reach c pub d"
  shows "list_all (\<lambda>r. 0 \<le> held (w_id r) (holds d) \<and> held (w_id r) (holds d) \<le> sint (w_balance r)) (wallets d)"
proof -
  have inv: "pay_inv d" using assms by (rule pay_reach_inv)
  then have "0 \<le> held w (holds d)" for w
    by (intro held_nonneg pay_wfD(7)) (simp add: pay_inv_def)
  with inv show ?thesis by (simp add: pay_inv_def solvent_def list_all_iff)
qed

theorem payments_solvent_witness:
  "list_all (\<lambda>r. 0 \<le> held (w_id r) (holds demo_held) \<and>
     held (w_id r) (holds demo_held) \<le> sint (w_balance r)) (wallets demo_held)
   \<and> map (\<lambda>r. (sint (w_balance r), held (w_id r) (holds demo_held))) (take 2 (wallets demo_held))
     = [(100000, 60000), (50000, 0)]"
  using payments_solvent [OF demo_reached(2)] by (rule conjI) code_simp

text \<open>C17: The transaction log accounts for every amount on hold: for each wallet, what its
  active holds sum up to is what the log's hold entries took, less what its release entries
  gave back and its transfer debits paid out.\<close>

theorem payments_reconciled:
  assumes "pay_reach c pub d"
  shows "held w (holds d) =
    - posted [''hold''] w d - posted [''release''] w d + posted [''transfer_debit''] w d"
  using pay_reach_inv [OF assms] by (simp add: pay_inv_def reconciled_def)

theorem payments_reconciled_witness:
  "held 16 (holds demo_held) = - posted [''hold''] 16 demo_held
     - posted [''release''] 16 demo_held + posted [''transfer_debit''] 16 demo_held
   \<and> posted [''hold''] 16 demo_held = - 60000"
  using payments_reconciled [OF demo_reached(2), of 16] by (rule conjI) code_simp

text \<open>C16: A hold and its outbox entries never disagree: for each hold the outbox has exactly
  one \<open>held\<close> event, one \<open>released\<close> event if and only if its status is released, and one
  \<open>transferred\<close> event if and only if its status is transferred.\<close>

theorem payments_announced:
  assumes "pay_reach c pub d"
  shows "list_all (\<lambda>h.
      events EventPaymentHeld (h_id h) (outbox d) = 1 \<and>
      events EventPaymentReleased (h_id h) (outbox d) = of_bool (h_status h = ''released'') \<and>
      events EventPaymentTransferred (h_id h) (outbox d) = of_bool (h_status h = ''transferred''))
    (holds d)"
  using pay_reach_inv [OF assms]
  by (auto simp: pay_inv_def announced_def hold_events_def list_all_iff)

theorem payments_announced_witness:
  "list_all (\<lambda>h.
      events EventPaymentHeld (h_id h) (outbox demo_paid) = 1 \<and>
      events EventPaymentReleased (h_id h) (outbox demo_paid) = of_bool (h_status h = ''released'') \<and>
      events EventPaymentTransferred (h_id h) (outbox demo_paid) = of_bool (h_status h = ''transferred''))
    (holds demo_paid)
   \<and> map h_status (holds demo_paid) = [''transferred'']"
  using payments_announced [OF demo_reached(3)] by (rule conjI) code_simp

section \<open>What a request does\<close>

text \<open>C6: The handlers implement the ledger. Under any faults, a request either leaves the
  database as it was and says so (a read, or a reply 400, 404, 409 or 500), or makes exactly the
  step it asked for and answers with that step's reply, or with 500 when the reply to the commit
  was lost. A success reply therefore means that the step is in the database.\<close>

theorem payments_refine:
  assumes "pay_serve c call s = (r, s')"
  shows "s_db s' = s_db s \<and> (is_get call \<or> code r \<in> {400, 404, 409, 500}) \<or>
    (\<exists>ev. pay_step c (s_db s) ev (s_db s') \<and> asked call ev \<and> r \<in> {answer c ev, internal_error})"
  using assms by (cases rule: pay_serve_cases) blast+

theorem payments_refine_witness:
  "\<exists>ev. pay_step demo_codec demo_seeded ev demo_held"
proof -
  let ?s = "demo_session 20 [] demo_seeded"
  let ?p = "pay_serve demo_codec (PostHold (Some demo_hold)) ?s"
  have "code (fst ?p) = 201" by code_simp
  with payments_refine [OF surjective_pairing [of ?p]]
  have "\<exists>ev. pay_step demo_codec (s_db ?s) ev (s_db (snd ?p))" by auto
  then show ?thesis by (simp add: demo_held_def demo_session_def)
qed

text \<open>C9: Money is conserved. Over any history of requests, under any faults, the sum of all
  balances stays the same, and so does each wallet's balance less the transfers logged for it.\<close>

theorem payments_conserved:
  assumes "pay_serves c reqs s = (rs, s')" "pay_wf (s_db s)"
  shows "total (s_db s') = total (s_db s) \<and> openings (s_db s') = openings (s_db s)"
  using pay_serves_keeps [OF assms] by simp

theorem payments_conserved_witness:
  "let s' = snd (pay_serves demo_codec demo_history (demo_session 20 [] demo_seeded))
   in total (s_db s') = 150000 \<and> openings (s_db s') = openings demo_seeded"
proof -
  let ?s = "demo_session 20 [] demo_seeded"
  have "s_db ?s = demo_seeded" by (simp add: demo_session_def)
  moreover have "pay_wf demo_seeded" by code_simp
  moreover have "total demo_seeded = 150000" by code_simp
  ultimately show ?thesis
    using payments_conserved [OF surjective_pairing [of "pay_serves demo_codec demo_history ?s"]]
    by (simp add: Let_def)
qed

text \<open>C10: A hold is settled at most once: in any history of requests, under any faults, at most
  one release or transfer of a given hold is confirmed.\<close>

theorem hold_settled_once:
  assumes "pay_serves c reqs s = (rs, s')"
  shows "length (filter (settles i) (exchanges reqs rs)) \<le> 1"
  using assms by (rule settles_at_most_once)

theorem hold_settled_once_witness:
  "length (filter (settles 37) (exchanges demo_history demo_replies)) \<le> 1
   \<and> length (filter (settles 37) (exchanges (filter (\<lambda>(now, faults, call). faults = []) demo_history)
       (fst (pay_serves demo_codec (filter (\<lambda>(now, faults, call). faults = []) demo_history)
         (demo_session 20 [] demo_seeded))))) = 1"
  unfolding demo_replies_def
  using hold_settled_once
    [OF surjective_pairing [of "pay_serves demo_codec demo_history (demo_session 20 [] demo_seeded)"]]
  by (rule conjI) code_simp

text \<open>C20: A well-formed hold request with a healthy database is answered by the balance alone:
  201 when the wallet's available balance covers the amount, 422 when it does not.\<close>

theorem hold_answered:
  assumes "s_faults s = []" "pay_inv (s_db s)" "fresh_ids s"
    "hr_wallet_id req \<noteq> uuid_Nil" "0 < sint (hr_amount req)" "hr_contract_id req \<noteq> uuid_Nil"
    "sel w_id (hr_wallet_id req) (wallets (s_db s)) = Some row"
  shows "code (fst (pay_serve c (PostHold (Some req)) s)) =
    (if sint (hr_amount req) \<le> available (s_db s) row then 201 else 422)"
  using assms by (rule hold_progress)

theorem hold_answered_witness:
  "code (fst (pay_serve demo_codec (PostHold (Some demo_hold)) (demo_session 40 [] demo_held))) = 422"
proof -
  let ?s = "demo_session 40 [] demo_held"
  obtain row where row: "sel w_id (hr_wallet_id demo_hold) (wallets (s_db ?s)) = Some row"
    "available (s_db ?s) row = 40000"
    by (rule that [of "hd (wallets demo_held)"]) code_simp+
  have "s_faults ?s = []" "fresh_ids ?s" "hr_wallet_id demo_hold \<noteq> uuid_Nil"
    "sint (hr_amount demo_hold) = 60000" "hr_contract_id demo_hold \<noteq> uuid_Nil"
    by code_simp+
  with hold_answered [OF _ _ _ _ _ _ row(1)] row(2) pay_reach_inv [OF demo_reached(2)]
  show ?thesis by (simp add: demo_simps)
qed

text \<open>C7: Two hold requests that overlap can put more on hold than there is. When the second one
  waits for the lock on the wallet that the first one has, and each amount is available but not
  both, both are answered 201 and the active holds exceed the balance; the second one, had it
  begun after the first one's commit, would have been answered 422.\<close>

theorem overlapping_holds_overdraw:
  assumes "s_faults s = []" "pay_inv (s_db s)" "fresh_ids s" "pay_serve c (PostHold (Some req1)) s = (r1, s1)"
    and "s_faults s2 = []" "s_db s2 = s_db s1" "fresh_ids s2"
      "run_handler (HoldFunds_since c (s_db s) (Some req2)) s2 = (r2, s')"
    and "hr_wallet_id req1 = w" "0 < sint (hr_amount req1)" "hr_contract_id req1 \<noteq> uuid_Nil"
    and "hr_wallet_id req2 = w" "0 < sint (hr_amount req2)" "hr_contract_id req2 \<noteq> uuid_Nil"
    and "w \<noteq> uuid_Nil" "sel w_id w (wallets (s_db s)) = Some row"
      "sint (hr_amount req1) \<le> available (s_db s) row" "sint (hr_amount req2) \<le> available (s_db s) row"
      "available (s_db s) row < sint (hr_amount req1) + sint (hr_amount req2)"
  shows "code r1 = 201 \<and> code r2 = 201 \<and> \<not> solvent (s_db s') \<and>
    code (fst (pay_serve c (PostHold (Some req2)) s2)) = 422"
  using assms by (rule overdrawn)

theorem overlapping_holds_overdraw_witness:
  "let s1 = snd (pay_serve demo_codec (PostHold (Some demo_hold)) (demo_session 20 [] demo_seeded));
       (r2, s') = run_handler (HoldFunds_since demo_codec demo_seeded (Some demo_hold)) (demo_session 40 [] (s_db s1))
   in code r2 = 201 \<and> \<not> solvent (s_db s')"
proof -
  let ?s = "demo_session 20 [] demo_seeded"
  obtain r1 s1 where one: "pay_serve demo_codec (PostHold (Some demo_hold)) ?s = (r1, s1)" by fastforce
  let ?s2 = "demo_session 40 [] (s_db s1)"
  obtain r2 s' where two: "run_handler (HoldFunds_since demo_codec (s_db ?s) (Some demo_hold)) ?s2 = (r2, s')"
    by fastforce
  obtain row where row: "sel w_id (hr_wallet_id demo_hold) (wallets (s_db ?s)) = Some row"
    "available (s_db ?s) row = 100000"
    by (rule that [of "hd (wallets demo_seeded)"]) code_simp+
  from one have "s_db s1 = demo_held" by (simp add: demo_held_def)
  moreover have "fresh_ids (demo_session 40 [] demo_held)" by code_simp
  ultimately have s2: "s_faults ?s2 = []" "s_db ?s2 = s_db s1" "fresh_ids ?s2" by (simp_all add: demo_session_def)
  have s: "s_faults ?s = []" "s_db ?s = demo_seeded" by (simp_all add: demo_session_def)
  then have inv: "pay_inv (s_db ?s)" using pay_reach_inv [OF demo_reached(1)] by simp
  have d: "fresh_ids ?s" "hr_wallet_id demo_hold \<noteq> uuid_Nil" "sint (hr_amount demo_hold) = 60000"
    "hr_contract_id demo_hold \<noteq> uuid_Nil"
    by code_simp+
  from overlapping_holds_overdraw [OF s(1) inv d(1) one s2 two refl _ d(4) refl _ d(4) d(2) row(1)] d(3) row(2)
  have "code r2 = 201 \<and> \<not> solvent (s_db s')" by simp
  with one two s(2) show ?thesis by simp
qed

text \<open>Releasing a hold with a healthy database gives 200 while the hold is active and 409
  once it has been settled.\<close>

theorem release_answered:
  assumes "s_faults s = []" "pay_inv (s_db s)" "fresh_ids s" "rr_hold_id req \<noteq> uuid_Nil"
    "sel h_id (rr_hold_id req) (holds (s_db s)) = Some h"
  shows "code (fst (pay_serve c (PostRelease (Some req)) s)) = (if active h then 200 else 409)"
  using assms by (rule release_progress)

theorem release_answered_witness:
  "code (fst (pay_serve demo_codec (PostRelease (Some \<lparr>rr_hold_id = 37\<rparr>)) (demo_session 40 [] demo_held))) = 200"
proof -
  let ?s = "demo_session 40 [] demo_held"
  obtain h where h: "sel h_id (rr_hold_id \<lparr>rr_hold_id = 37\<rparr>) (holds (s_db ?s)) = Some h" "active h"
    by (rule that [of "hd (holds demo_held)"]) code_simp+
  have "s_faults ?s = []" "fresh_ids ?s" "rr_hold_id \<lparr>rr_hold_id = 37\<rparr> \<noteq> uuid_Nil"
    by code_simp+
  with release_answered [OF _ _ _ _ h(1)] h(2) pay_reach_inv [OF demo_reached(2)]
  show ?thesis by (simp add: demo_simps)
qed

text \<open>C19: Transferring a stored hold with a healthy database and fresh ids, by its status and the
  two wallets as they are stored, whether or not the active holds fit the balances: 409 when the
  hold is settled; 400 to its own wallet; 500 when the source wallet cannot be read because its available
  balance does not fit \<open>int64\<close>, and 500, the handler's \<open>balance invariant violation\<close>, when its balance
  is below the amount; 404 to an unknown wallet; 500 when the recipient's new balance, or its
  available balance, does not fit \<open>int64\<close>; 200 otherwise. The invariant branch is not dead: it is taken after
  the race of \<open>overlapping_holds_overdraw\<close>, as the second run below shows. In a solvent database
  it is not reached, which is \<open>transfer_progress\<close>.\<close>

theorem transfer_answered:
  assumes "s_faults s = []" "pay_wf (s_db s)" "fresh_ids s" "tr_hold_id req \<noteq> uuid_Nil"
    "tr_recipient_wallet_id req \<noteq> uuid_Nil" "sel h_id (tr_hold_id req) (holds (s_db s)) = Some h"
    "sel w_id (h_wallet_id h) (wallets (s_db s)) = Some src"
  shows "code (fst (pay_serve c (PostTransfer (Some req)) s)) =
    (if \<not> active h then 409
     else if h_wallet_id h = tr_recipient_wallet_id req then 400
     else if available (s_db s) src < - (2 ^ 63) \<or> sint (w_balance src) < sint (h_amount h) then 500
     else case sel w_id (tr_recipient_wallet_id req) (wallets (s_db s)) of
       None \<Rightarrow> 404
     | Some rcp \<Rightarrow>
         if available (s_db s) rcp < - (2 ^ 63) \<or> 2 ^ 63 \<le> sint (w_balance rcp) + sint (h_amount h) then 500
         else 200)"
  using assms by (rule transfer_codes)

text \<open>Two runs: the transfer of the only hold, and, of two overlapping holds of 60000 on 100000
  whose first has been transferred, the transfer of the second.\<close>

theorem transfer_answered_witness:
  "code (fst (pay_serve demo_codec (PostTransfer (Some demo_transfer)) (demo_session 40 [] demo_held))) = 200 \<and>
   code (fst (pay_serve demo_codec (PostTransfer (Some (demo_transfer\<lparr>tr_hold_id := 57\<rparr>)))
     (demo_session 80 [] demo_overdrawn))) = 500"
proof
  let ?s = "demo_session 40 [] demo_held"
  obtain h where h: "sel h_id (tr_hold_id demo_transfer) (holds (s_db ?s)) = Some h" "active h"
      "h_wallet_id h = 16" "tr_recipient_wallet_id demo_transfer = 17" "sint (h_amount h) = 60000"
    by (rule that [of "hd (holds demo_held)"]) code_simp+
  obtain src where src: "sel w_id 16 (wallets (s_db ?s)) = Some src"
      "sint (w_balance src) = 100000" "available (s_db ?s) src = 40000"
    by (rule that [of "wallets demo_held ! 0"]) code_simp+
  obtain rcp where rcp: "sel w_id (tr_recipient_wallet_id demo_transfer) (wallets (s_db ?s)) = Some rcp"
      "sint (w_balance rcp) = 50000" "available (s_db ?s) rcp = 50000"
    by (rule that [of "wallets demo_held ! 1"]) code_simp+
  have "s_faults ?s = []" "pay_wf (s_db ?s)" "fresh_ids ?s" "tr_hold_id demo_transfer \<noteq> uuid_Nil"
      "tr_recipient_wallet_id demo_transfer \<noteq> uuid_Nil"
    by code_simp+
  from transfer_answered [OF this h(1), of src demo_codec] h(2-5) src rcp
  show "code (fst (pay_serve demo_codec (PostTransfer (Some demo_transfer)) ?s)) = 200" by simp
next
  let ?s = "demo_session 80 [] demo_overdrawn" and ?req = "demo_transfer\<lparr>tr_hold_id := 57\<rparr>"
  obtain h where h: "sel h_id (tr_hold_id ?req) (holds (s_db ?s)) = Some h" "active h"
      "h_wallet_id h = 16" "tr_recipient_wallet_id ?req = 17" "sint (h_amount h) = 60000"
    by (rule that [of "holds demo_overdrawn ! 1"]) code_simp+
  obtain src where src: "sel w_id 16 (wallets (s_db ?s)) = Some src"
      "sint (w_balance src) = 40000"
    by (rule that [of "wallets demo_overdrawn ! 0"]) code_simp+
  have "s_faults ?s = []" "pay_wf (s_db ?s)" "fresh_ids ?s" "tr_hold_id ?req \<noteq> uuid_Nil"
      "tr_recipient_wallet_id ?req \<noteq> uuid_Nil"
    by code_simp+
  from transfer_answered [OF this h(1), of src demo_codec] h(2-5) src
  show "code (fst (pay_serve demo_codec (PostTransfer (Some ?req)) ?s)) = 500" by simp
qed

text \<open>C22: A wallet list that is answered with 200 shows the page of the newest wallets its
  \<open>limit\<close> and \<open>offset\<close> select (20 by default and for a limit outside 1 to 100), each with its
  balance less its active holds, and the number of all wallets.\<close>

theorem wallets_listed:
  assumes "pay_serve c (GetWallets l p) s = (Resp 200 b, s')"
  shows "\<exists>limit offset ws. param l 20 = Some limit \<and> param p 0 = Some offset \<and> 0 \<le> offset \<and>
    list_all2 (\<lambda>r w. w = with_available r (w_available w) \<and>
      sint (w_available w) = sint (w_balance r) - held (w_id r) (holds (s_db s)))
      (wallet_page limit offset (s_db s)) ws \<and>
    length ws \<le> 100 \<and>
    b = JObj [(''items'', JArr (map (wallet_json c) ws)), (''total'', JNum (int (length (wallets (s_db s)))))]"
proof -
  have "length (wallet_page limit offset d) \<le> 100" for limit offset d
    by (auto simp: wallet_page_def clamp_limit_def)
  then have short: "list_all2 P (wallet_page limit offset d) ws \<Longrightarrow> length ws \<le> 100"
    for P limit offset d and ws :: "Wallet list"
    by (metis list_all2_lengthD)
  have "code r \<noteq> 200" if "ListWallets c l p s = (Inl r, s')" for r
    using that [unfolded ListWallets_def] by (elim prog_elims) auto
  with assms have "ListWallets c l p s = (Inr (Resp 200 b), s')"
    by (fastforce simp: pay_serve_def elim: run_handler_eqE)
  then show ?thesis
    by (rule ListWallets_run) (use short in \<open>auto simp: available_def\<close>)
qed

theorem wallets_listed_witness:
  "\<exists>limit offset ws. param ''2'' 20 = Some limit \<and> param '''' 0 = Some offset \<and> 0 \<le> offset \<and>
    list_all2 (\<lambda>r w. w = with_available r (w_available w) \<and>
      sint (w_available w) = sint (w_balance r) - held (w_id r) (holds demo_held))
      (wallet_page limit offset demo_held) ws \<and> length ws \<le> 100"
proof -
  let ?s = "demo_session 40 [] demo_held"
  let ?p = "pay_serve demo_codec (GetWallets ''2'' '''') ?s"
  have "code (fst ?p) = 200" by code_simp
  then have "?p = (Resp 200 (body (fst ?p)), snd ?p)"
    by (metis response.collapse surjective_pairing)
  from wallets_listed [OF this] show ?thesis by (auto simp: demo_session_def)
qed

section \<open>The outbox\<close>

text \<open>C23: The publisher marks an event published only when the broker has stored it, whatever
  fails and whichever rows other publishers lock, and it changes nothing but the marks.\<close>

theorem events_marked_stored:
  assumes "broker_ok pub log" "distinct (map e_id (outbox (s_db s)))"
    "marks_stored log (outbox (s_db s)) (s_nats s)"
  shows "let s' = Run payments_outbox pub ticks s in
    marks_stored log (outbox (s_db s')) (s_nats s') \<and>
    (s_db s')\<lparr>outbox := []\<rparr> = (s_db s)\<lparr>outbox := []\<rparr> \<and>
    unstamped (outbox (s_db s')) = unstamped (outbox (s_db s))"
  using payments_events.Run_marks_stored [OF assms] by (simp add: Let_def)

lemma demo_pub_ok: "broker_ok demo_pub id" "broker_up demo_pub"
  by (simp_all add: broker_ok_def broker_up_def demo_pub_def)

theorem events_marked_stored_witness:
  "let s' = Run payments_outbox demo_pub [{}, {}] (demo_pub_session 60 [Fine, Fine, Fine, Before] demo_paid)
   in marks_stored id (outbox (s_db s')) (s_nats s') \<and> map unpublished (outbox (s_db s')) = [False, False]
     \<and> length (s_nats s') = 4"
proof -
  let ?s = "demo_pub_session 60 [Fine, Fine, Fine, Before] demo_paid"
  have "distinct (map e_id (outbox (s_db ?s)))" "marks_stored id (outbox (s_db ?s)) (s_nats ?s)"
    by code_simp+
  note stored = events_marked_stored [OF demo_pub_ok(1) this, of "[{}, {}]"]
  moreover have "map unpublished (outbox (s_db (Run payments_outbox demo_pub [{}, {}] ?s))) = [False, False]"
    "length (s_nats (Run payments_outbox demo_pub [{}, {}] ?s)) = 4"
    by code_simp+
  ultimately show ?thesis by (simp add: Let_def)
qed

text \<open>C24: With the database and the broker up, the publisher hands over every pending event,
  in the order of creation, each once: as many ticks as there are hundreds of pending events,
  rounded up, are enough.\<close>

theorem events_drained:
  assumes "broker_ok pub log" "broker_up pub" "s_faults s = []"
    "distinct (map e_id (outbox (s_db s)))" "length (pending (outbox (s_db s))) \<le> 100 * k"
  shows "let s' = Run payments_outbox pub (replicate k {}) s in
    pending (outbox (s_db s')) = [] \<and>
    log (s_nats s') = log (s_nats s) @ map wire (pending (outbox (s_db s)))"
  using payments_events.Run_drains [OF assms] by (simp add: Let_def)

theorem events_drained_witness:
  "let s = demo_pub_session 60 [] demo_paid in
   s_nats (Run payments_outbox demo_pub [{}] s) = map wire (pending (outbox demo_paid))
   \<and> map fst (map wire (pending (outbox demo_paid)))
     = [''payments.payment.held'', ''payments.payment.transferred'']"
proof -
  let ?s = "demo_pub_session 60 [] demo_paid"
  have "s_faults ?s = []" "distinct (map e_id (outbox (s_db ?s)))"
    "length (pending (outbox (s_db ?s))) \<le> 100 * 1"
    by code_simp+
  from events_drained [OF demo_pub_ok this] show ?thesis
    by (simp add: Let_def demo_pub_session_def) code_simp
qed

end
