(* ===== verification/ContractsStore.thy ===== *)
theory ContractsStore
  imports Outbox
begin

text \<open>
  The contracts database (services/contracts/migrations) and its stores (contract_store.go,
  milestone_store.go, outbox.go). Ids are the strings the Go code passes on, compared exactly.
  A store method takes the connection it runs on: \<open>exec\<close> is \<open>stmt\<close> inside a transaction and
  \<open>auto_stmt\<close> on the pool.
\<close>

section \<open>Tables\<close>

definition StatusPending :: string where "StatusPending = ''PENDING''"
definition StatusHoldPending :: string where "StatusHoldPending = ''HOLD_PENDING''"
definition StatusAwaitingAccept :: string where "StatusAwaitingAccept = ''AWAITING_ACCEPT''"
definition StatusActive :: string where "StatusActive = ''ACTIVE''"
definition StatusCompleting :: string where "StatusCompleting = ''COMPLETING''"
definition StatusCompleted :: string where "StatusCompleted = ''COMPLETED''"
definition StatusDeclining :: string where "StatusDeclining = ''DECLINING''"
definition StatusDeclined :: string where "StatusDeclined = ''DECLINED''"
definition StatusCancelled :: string where "StatusCancelled = ''CANCELLED''"

lemmas status_names =
  StatusPending_def StatusHoldPending_def StatusAwaitingAccept_def StatusActive_def
  StatusCompleting_def StatusCompleted_def StatusDeclining_def StatusDeclined_def
  StatusCancelled_def

text \<open>No two statuses are the same string, whichever way they are compared.\<close>

lemma status_distinct:
  "distinct [StatusPending, StatusHoldPending, StatusAwaitingAccept,
     StatusActive, StatusCompleting, StatusCompleted,
     StatusDeclining, StatusDeclined, StatusCancelled]"
  "distinct [StatusCancelled, StatusDeclined, StatusDeclining,
     StatusCompleted, StatusCompleting, StatusActive,
     StatusAwaitingAccept, StatusHoldPending, StatusPending]"
  by code_simp+

lemmas status_neq [simp] = status_distinct [simplified]

text \<open>Times count from Go's zero time, which is 0.\<close>

record Contract =
  c_id :: string
  c_client_id :: string
  c_freelancer_id :: string
  c_title :: string
  c_description :: string
  c_amount :: int64
  c_currency :: string
  c_status :: string
  c_client_wallet_id :: string
  c_freelancer_wallet_id :: string
  c_hold_id :: "string option"
  c_created_at :: int
  c_updated_at :: int

record Milestone =
  m_id :: string
  m_contract_id :: string
  m_title :: string
  m_description :: string
  m_amount :: int64
  m_position :: int64
  m_status :: string
  m_created_at :: int
  m_updated_at :: int

record cdb =
  contracts :: "Contract list"
  milestones :: "Milestone list"
  contract_events :: "string entry list"

type_synonym 'a csql = "(cdb, string, 'a) sql"

text \<open>What the columns take: \<open>CHAR(36)\<close>, \<open>VARCHAR(n)\<close>, \<open>TEXT\<close> and \<open>INT\<close>.\<close>

definition fits :: "int \<Rightarrow> string \<Rightarrow> bool" where
  "fits n v \<longleftrightarrow> int (length v) \<le> n"

definition contract_fits :: "Contract \<Rightarrow> bool" where
  "contract_fits c \<longleftrightarrow>
     list_all (fits 36) [c_id c, c_client_id c, c_freelancer_id c, c_client_wallet_id c,
       c_freelancer_wallet_id c] \<and>
     fits 500 (c_title c) \<and> fits 65535 (c_description c) \<and> fits 3 (c_currency c) \<and>
     fits 30 (c_status c)"

definition milestone_fits :: "Milestone \<Rightarrow> bool" where
  "milestone_fits m \<longleftrightarrow>
     list_all (fits 36) [m_id m, m_contract_id m] \<and> fits 500 (m_title m) \<and>
     fits 65535 (m_description m) \<and> fits 20 (m_status m) \<and>
     - (2 ^ 31) \<le> sint (m_position m) \<and> sint (m_position m) < 2 ^ 31"

section \<open>Errors\<close>

text \<open>
  What \<open>errors.Is\<close> can tell apart behind the wrapping: the two sentinel errors, an error of the
  database, a failed call to payments, and the missing hold id.
\<close>

datatype saga_err =
    ErrContractNotFound
  | ErrStatusConflict
  | ErrDatabase db_err
  | ErrPayments
  | ErrNoHold

section \<open>Contracts\<close>

text \<open>
  The columns the statement does not name get their defaults. The first time an id is used the
  insert works if the row meets the schema.
\<close>

definition contract_Create :: "Contract \<Rightarrow> unit csql" where
  "contract_Create c now u d =
     (if sel c_id (c_id c) (contracts d) \<noteq> None \<or> \<not> contract_fits c \<or> c_amount c <=s 0
      then Inl ErrConstraint
      else Inr ((), d\<lparr>contracts := contracts d
             @ [c\<lparr>c_hold_id := None, c_created_at := now, c_updated_at := now\<rparr>]\<rparr>))"

definition contract_select :: "string \<Rightarrow> Contract csql" where
  "contract_select i now u d =
     (case sel c_id i (contracts d) of None \<Rightarrow> Inl ErrNoRows | Some c \<Rightarrow> Inr (c, d))"

definition contract_GetByID ::
  "(Contract csql \<Rightarrow> ('s, db_err, Contract) prog) \<Rightarrow> string \<Rightarrow> ('s, saga_err, Contract) prog" where
  "contract_GetByID exec i =
     map_err (\<lambda>e. if e = ErrNoRows then ErrContractNotFound else ErrDatabase e)
       (exec (contract_select i))"

text \<open>
  \<open>UPDATE \<dots> WHERE id = ? AND status = ?\<close> and the number of rows it changed. Any change of a
  row also sets its \<open>updated_at\<close>.
\<close>

definition contract_update_status :: "string \<Rightarrow> string \<Rightarrow> string \<Rightarrow> nat csql" where
  "contract_update_status i from to now u d =
     (let hit = (\<lambda>c. c_id c = i \<and> c_status c = from \<and> to \<noteq> from) in
      if list_ex hit (contracts d) \<and> \<not> fits 30 to then Inl ErrConstraint
      else Inr (length (filter hit (contracts d)),
        d\<lparr>contracts := map (\<lambda>c. if hit c then c\<lparr>c_status := to, c_updated_at := now\<rparr> else c)
            (contracts d)\<rparr>))"

definition contract_UpdateStatus ::
  "(nat csql \<Rightarrow> ('s, db_err, nat) prog) \<Rightarrow> string \<Rightarrow> string \<Rightarrow> string \<Rightarrow> ('s, saga_err, unit) prog" where
  "contract_UpdateStatus exec i from to =
     bnd (map_err ErrDatabase (exec (contract_update_status i from to))) (\<lambda>rows.
     if rows = 0 then raise ErrStatusConflict else ret ())"

definition contract_SetHoldID :: "string \<Rightarrow> string \<Rightarrow> unit csql" where
  "contract_SetHoldID i hold now u d =
     (if sel c_id i (contracts d) \<noteq> None \<and> \<not> fits 36 hold then Inl ErrConstraint
      else Inr ((), d\<lparr>contracts := upd c_id i
             (\<lambda>c. if c_hold_id c = Some hold then c
                  else c\<lparr>c_hold_id := Some hold, c_updated_at := now\<rparr>) (contracts d)\<rparr>))"

record ListFilter =
  lf_client_id :: string
  lf_freelancer_id :: string
  lf_limit :: int
  lf_offset :: int

definition contract_matches :: "ListFilter \<Rightarrow> Contract \<Rightarrow> bool" where
  "contract_matches f c \<longleftrightarrow>
     (lf_client_id f = '''' \<or> c_client_id c = lf_client_id f) \<and>
     (lf_freelancer_id f = '''' \<or> c_freelancer_id c = lf_freelancer_id f)"

definition contract_List :: "ListFilter \<Rightarrow> Contract list csql" where
  "contract_List f now u d =
     (let rows = sort_key (\<lambda>c. - c_created_at c) (filter (contract_matches f) (contracts d));
          limit = (if lf_limit f \<le> 0 \<or> 100 < lf_limit f then 20 else lf_limit f);
          rows = (if 0 < lf_offset f then drop (nat (lf_offset f)) rows else rows)
      in Inr (take (nat limit) rows, d))"

definition contract_Count :: "ListFilter \<Rightarrow> int csql" where
  "contract_Count f now u d = Inr (int (length (filter (contract_matches f) (contracts d))), d)"

section \<open>Milestones\<close>

definition milestone_insert :: "Milestone \<Rightarrow> unit csql" where
  "milestone_insert m now u d =
     (if sel m_id (m_id m) (milestones d) \<noteq> None \<or> sel c_id (m_contract_id m) (contracts d) = None
         \<or> \<not> milestone_fits m \<or> m_amount m <=s 0
      then Inl ErrConstraint
      else Inr ((), d\<lparr>milestones := milestones d @ [m\<lparr>m_created_at := now, m_updated_at := now\<rparr>]\<rparr>))"

fun milestone_CreateBatch ::
  "(unit csql \<Rightarrow> ('s, db_err, unit) prog) \<Rightarrow> Milestone list \<Rightarrow> ('s, db_err, unit) prog" where
  "milestone_CreateBatch exec [] = ret ()"
| "milestone_CreateBatch exec (m # ms) =
     bnd (exec (milestone_insert m)) (\<lambda>_. milestone_CreateBatch exec ms)"

definition milestone_ListByContract :: "string \<Rightarrow> Milestone list csql" where
  "milestone_ListByContract i now u d =
     Inr (sort_key (\<lambda>m. sint (m_position m)) (filter (\<lambda>m. m_contract_id m = i) (milestones d)), d)"

section \<open>The outbox\<close>

text \<open>
  \<open>MySQLOutboxStore\<close>: as its PostgreSQL sibling, but the id comes with the entry, and an empty
  list of ids is not sent.
\<close>

definition entry_fits :: "string entry \<Rightarrow> bool" where
  "entry_fits e \<longleftrightarrow> list_all (fits 36) [e_id e, e_aggregate_id e] \<and>
     list_all (fits 100) [e_aggregate_type e, e_event_type e]"

definition mysql_Insert :: "string entry \<Rightarrow> unit csql" where
  "mysql_Insert e now u d =
     (if e_id e \<in> e_id ` set (contract_events d) \<or> \<not> entry_fits e then Inl ErrConstraint
      else Inr ((), d\<lparr>contract_events := contract_events d
             @ [e\<lparr>e_created_at := now, e_published_at := None\<rparr>]\<rparr>))"

definition mysql_FetchUnpublished :: "string set \<Rightarrow> int \<Rightarrow> string entry list csql" where
  "mysql_FetchUnpublished locked limit now u d =
     (if limit < 0 then Inl ErrArgument else Inr (oldest locked (nat limit) (contract_events d), d))"

definition mysql_MarkPublished :: "string list \<Rightarrow> unit csql" where
  "mysql_MarkPublished ids now u d =
     Inr ((), if ids = [] then d
              else d\<lparr>contract_events := map (stamp now ids) (contract_events d)\<rparr>)"

definition MySQLOutboxStore :: "(cdb, string) store" where
  "MySQLOutboxStore =
     \<lparr>Insert = mysql_Insert, FetchUnpublished = mysql_FetchUnpublished,
      MarkPublished = mysql_MarkPublished\<rparr>"

end
