(* ===== verification/Saga.thy ===== *)
theory Saga
  imports ContractsStore
begin

text \<open>
  The saga of the contracts service (services/contracts/cmd/server/saga.go): the orchestrator's
  operations, statement by statement, over the stores and over a \<open>PaymentsService\<close>. The service
  is an interface of the code; its operations are a record, and \<open>'p\<close> is whatever state lies
  behind them. \<open>encoding/json\<close> cannot fail on a \<open>Contract\<close>, so the marshalling errors do not
  appear.
\<close>

section \<open>The interface to payments\<close>

record pay_hold_request =
  phr_wallet_id :: string
  phr_amount :: int64
  phr_contract_id :: string

record pay_hold_response =
  php_id :: string
  php_wallet_id :: string
  php_amount :: int64
  php_status :: string
  php_contract_id :: string

record 'p PaymentsService =
  svc_HoldFunds :: "pay_hold_request \<Rightarrow> 'p \<Rightarrow> (string + pay_hold_response) \<times> 'p"
  svc_ReleaseFunds :: "string \<Rightarrow> 'p \<Rightarrow> (string + unit) \<times> 'p"
  svc_TransferFunds :: "string \<Rightarrow> string \<Rightarrow> 'p \<Rightarrow> (string + unit) \<times> 'p"

record ('d, 'k, 'p) saga_sess = "('d, 'k) sess" +
  s_pay :: 'p

type_synonym ('p, 'a) saga = "((cdb, string, 'p) saga_sess, saga_err, 'a) prog"

definition pay_rpc :: "('p \<Rightarrow> (string + 'a) \<times> 'p) \<Rightarrow> ('p, 'a) saga" where
  "pay_rpc f s = (case f (s_pay s) of (r, p) \<Rightarrow>
     (case r of Inl _ \<Rightarrow> Inl ErrPayments | Inr x \<Rightarrow> Inr x, s\<lparr>s_pay := p\<rparr>))"

section \<open>Events\<close>

definition EventContractCreated :: string where
  "EventContractCreated = ''contracts.contract.created''"

definition EventContractAccepted :: string where
  "EventContractAccepted = ''contracts.contract.accepted''"

definition EventContractCompleted :: string where
  "EventContractCompleted = ''contracts.contract.completed''"

definition EventContractCancelled :: string where
  "EventContractCancelled = ''contracts.contract.cancelled''"

definition EventContractDeclined :: string where
  "EventContractDeclined = ''contracts.contract.declined''"

lemmas contract_event_names =
  EventContractCreated_def EventContractAccepted_def EventContractCompleted_def
  EventContractCancelled_def EventContractDeclined_def

lemma contract_event_distinct:
  "distinct [EventContractCreated, EventContractAccepted, EventContractCompleted,
     EventContractCancelled, EventContractDeclined]"
  "distinct [EventContractDeclined, EventContractCancelled, EventContractCompleted,
     EventContractAccepted, EventContractCreated]"
  by code_simp+

lemmas contract_event_neq [simp] = contract_event_distinct [simplified]

definition contract_json :: "codec \<Rightarrow> Contract \<Rightarrow> json" where
  "contract_json k c = JObj
     ([(''id'', JStr (c_id c)), (''client_id'', JStr (c_client_id c)),
       (''freelancer_id'', JStr (c_freelancer_id c)), (''title'', JStr (c_title c)),
       (''description'', JStr (c_description c)), (''amount'', json_int64 (c_amount c)),
       (''currency'', JStr (c_currency c)), (''status'', JStr (c_status c)),
       (''client_wallet_id'', JStr (c_client_wallet_id c)),
       (''freelancer_wallet_id'', JStr (c_freelancer_wallet_id c))]
      @ omitzero ''hold_id'' JStr (c_hold_id c)
      @ [(''created_at'', json_time k (c_created_at c)), (''updated_at'', json_time k (c_updated_at c))])"

text \<open>The insert every operation of the saga ends with: a fresh id and the marshalled contract.\<close>

definition contract_entry :: "string \<Rightarrow> string \<Rightarrow> string \<Rightarrow> json \<Rightarrow> string entry" where
  "contract_entry i contract event payload =
     \<lparr>e_id = i, e_aggregate_type = ''contract'', e_aggregate_id = contract, e_event_type = event,
      e_payload = payload, e_created_at = 0, e_published_at = None\<rparr>"

definition emit :: "string \<Rightarrow> string \<Rightarrow> json \<Rightarrow> ('p, unit) saga" where
  "emit contract event payload =
     bnd draw_id (\<lambda>i. map_err ErrDatabase
       (stmt (Insert MySQLOutboxStore (contract_entry i contract event payload))))"

section \<open>CreateContract\<close>

text \<open>Go's zero \<open>Contract\<close>, which goes with most errors.\<close>

definition no_contract :: Contract where
  "no_contract =
     \<lparr>c_id = '''', c_client_id = '''', c_freelancer_id = '''', c_title = '''', c_description = '''',
      c_amount = 0, c_currency = '''', c_status = '''', c_client_wallet_id = '''',
      c_freelancer_wallet_id = '''', c_hold_id = None, c_created_at = 0, c_updated_at = 0\<rparr>"

fun number_milestones :: "string \<Rightarrow> Milestone list \<Rightarrow> ('p, Milestone list) saga" where
  "number_milestones contract [] = ret []"
| "number_milestones contract (m # ms) =
     bnd draw_id (\<lambda>i.
     bnd (number_milestones contract ms) (\<lambda>ms'.
     ret (m\<lparr>m_id := i, m_contract_id := contract, m_status := ''PENDING''\<rparr> # ms')))"

text \<open>The first transaction: the contract and its milestones.\<close>

definition create_insert :: "Contract \<Rightarrow> Milestone list \<Rightarrow> ('p, Contract) saga" where
  "create_insert c ms =
     bnd (map_err ErrDatabase begin_tx) (\<lambda>_. defer_rollback (
     bnd draw_id (\<lambda>i.
     let c = c\<lparr>c_id := i, c_status := StatusPending, c_currency := ''USD''\<rparr> in
     bnd (map_err ErrDatabase (stmt (contract_Create c))) (\<lambda>_.
     bnd (if ms = [] then ret ()
          else bnd (number_milestones i ms) (\<lambda>ms.
            map_err ErrDatabase (milestone_CreateBatch stmt ms))) (\<lambda>_.
     bnd (map_err ErrDatabase commit_tx) (\<lambda>_.
     ret c))))))"

text \<open>
  The compensation when the hold failed: every error is logged and the next statement is tried
  all the same. The payload was marshalled from the contract as it was created.
\<close>

definition create_compensate :: "codec \<Rightarrow> Contract \<Rightarrow> ('p, unit) saga" where
  "create_compensate k c =
     bnd (attempt begin_tx) (\<lambda>r. case r of Inl _ \<Rightarrow> ret () | Inr _ \<Rightarrow>
     bnd (attempt (contract_UpdateStatus stmt (c_id c) StatusPending StatusCancelled)) (\<lambda>_.
     bnd (attempt (emit (c_id c) EventContractCancelled (contract_json k c))) (\<lambda>_.
     bnd (attempt commit_tx) (\<lambda>_. ret ()))))"

text \<open>The second transaction: the hold is in place.\<close>

definition create_confirm :: "codec \<Rightarrow> Contract \<Rightarrow> string \<Rightarrow> ('p, unit) saga" where
  "create_confirm k c hold =
     bnd (map_err ErrDatabase begin_tx) (\<lambda>_. defer_rollback (
     bnd (contract_UpdateStatus stmt (c_id c) StatusPending StatusHoldPending) (\<lambda>_.
     bnd (map_err ErrDatabase (stmt (contract_SetHoldID (c_id c) hold))) (\<lambda>_.
     bnd (emit (c_id c) EventContractCreated (contract_json k c)) (\<lambda>_.
     map_err ErrDatabase commit_tx)))))"

definition saga_CreateContract ::
  "codec \<Rightarrow> 'p PaymentsService \<Rightarrow> Contract \<Rightarrow> Milestone list
   \<Rightarrow> ((cdb, string, 'p) saga_sess, Contract \<times> saga_err, Contract) prog" where
  "saga_CreateContract k svc c ms =
     bnd (map_err (Pair no_contract) (create_insert c ms)) (\<lambda>c.
     bnd (attempt (pay_rpc (svc_HoldFunds svc
       \<lparr>phr_wallet_id = c_client_wallet_id c, phr_amount = c_amount c, phr_contract_id = c_id c\<rparr>))) (\<lambda>r.
     case r of
       Inl e \<Rightarrow>
         bnd (map_err (Pair no_contract) (create_compensate k c)) (\<lambda>_.
         raise (c\<lparr>c_status := StatusCancelled\<rparr>, e))
     | Inr holdResp \<Rightarrow>
         bnd (map_err (Pair no_contract) (create_confirm k c (php_id holdResp))) (\<lambda>_.
         ret (c\<lparr>c_status := StatusHoldPending, c_hold_id := Some (php_id holdResp)\<rparr>))))"

section \<open>Payment events and the freelancer's answer\<close>

definition saga_HandlePaymentHeld :: "string \<Rightarrow> ('p, unit) saga" where
  "saga_HandlePaymentHeld i = contract_UpdateStatus auto_stmt i StatusHoldPending StatusAwaitingAccept"

text \<open>
  \<open>HandlePaymentFailed\<close> and \<open>AcceptContract\<close>: one transaction that moves the contract and emits
  it as it then is.
\<close>

definition saga_move :: "codec \<Rightarrow> string \<Rightarrow> string \<Rightarrow> string \<Rightarrow> string \<Rightarrow> ('p, unit) saga" where
  "saga_move k i from to event =
     bnd (map_err ErrDatabase begin_tx) (\<lambda>_. defer_rollback (
     bnd (contract_UpdateStatus stmt i from to) (\<lambda>_.
     bnd (contract_GetByID stmt i) (\<lambda>c.
     bnd (emit i event (contract_json k c)) (\<lambda>_.
     map_err ErrDatabase commit_tx)))))"

definition saga_HandlePaymentFailed :: "codec \<Rightarrow> string \<Rightarrow> ('p, unit) saga" where
  "saga_HandlePaymentFailed k i = saga_move k i StatusHoldPending StatusCancelled EventContractCancelled"

definition saga_AcceptContract :: "codec \<Rightarrow> string \<Rightarrow> ('p, unit) saga" where
  "saga_AcceptContract k i = saga_move k i StatusAwaitingAccept StatusActive EventContractAccepted"

section \<open>CompleteContract and CancelContract\<close>

text \<open>
  Both claim the contract (\<open>first\<close> to \<open>mid\<close>, or find it claimed), settle its hold, and finish
  (\<open>mid\<close> to \<open>final\<close>) with the contract as it was read. \<open>settle\<close> is the call to payments.
\<close>

definition saga_claim :: "string \<Rightarrow> string \<Rightarrow> string \<Rightarrow> ('p, Contract) saga" where
  "saga_claim i first mid =
     bnd (contract_GetByID auto_stmt i) (\<lambda>c.
     bnd (if c_status c = first
          then bnd (contract_UpdateStatus auto_stmt i first mid) (\<lambda>_. ret (c\<lparr>c_status := mid\<rparr>))
          else ret c) (\<lambda>c.
     if c_status c \<noteq> mid then raise ErrStatusConflict else ret c))"

definition saga_finish :: "codec \<Rightarrow> string \<Rightarrow> Contract \<Rightarrow> string \<Rightarrow> string \<Rightarrow> string \<Rightarrow> ('p, unit) saga" where
  "saga_finish k i c mid final event =
     bnd (map_err ErrDatabase begin_tx) (\<lambda>_. defer_rollback (
     bnd (contract_UpdateStatus stmt i mid final) (\<lambda>_.
     bnd (emit i event (contract_json k (c\<lparr>c_status := final\<rparr>))) (\<lambda>_.
     map_err ErrDatabase commit_tx))))"

definition saga_CompleteContract :: "codec \<Rightarrow> 'p PaymentsService \<Rightarrow> string \<Rightarrow> ('p, unit) saga" where
  "saga_CompleteContract k svc i =
     bnd (saga_claim i StatusActive StatusCompleting) (\<lambda>c.
     case c_hold_id c of None \<Rightarrow> raise ErrNoHold
     | Some hold \<Rightarrow>
         bnd (pay_rpc (svc_TransferFunds svc hold (c_freelancer_wallet_id c))) (\<lambda>_.
         saga_finish k i c StatusCompleting StatusCompleted EventContractCompleted))"

definition saga_CancelContract :: "codec \<Rightarrow> 'p PaymentsService \<Rightarrow> string \<Rightarrow> ('p, unit) saga" where
  "saga_CancelContract k svc i =
     bnd (saga_claim i StatusAwaitingAccept StatusDeclining) (\<lambda>c.
     case c_hold_id c of None \<Rightarrow> raise ErrNoHold
     | Some hold \<Rightarrow>
         bnd (pay_rpc (svc_ReleaseFunds svc hold)) (\<lambda>_.
         saga_finish k i c StatusDeclining StatusDeclined EventContractDeclined))"

end
