(* ===== verification/ContractsHandler.thy ===== *)
theory ContractsHandler
  imports Saga Params
begin

text \<open>
  The HTTP handlers of the contracts service (handler.go) and the consumer of payment events
  (\<open>runPaymentsConsumer\<close> in main.go). Decoding the body of a POST is outside the repository: the
  handler gets the decoded request, or \<open>None\<close> where \<open>Decode\<close> reports an error.
\<close>

section \<open>Requests and replies\<close>

record MilestoneSpec =
  ms_title :: string
  ms_description :: string
  ms_amount :: int64
  ms_position :: int64

record CreateContractRequest =
  cr_client_id :: string
  cr_freelancer_id :: string
  cr_title :: string
  cr_description :: string
  cr_amount :: int64
  cr_client_wallet_id :: string
  cr_freelancer_wallet_id :: string
  cr_milestones :: "MilestoneSpec list"

type_synonym ('p, 'a) contracts_prog = "((cdb, string, 'p) saga_sess, response, 'a) prog"

definition request_contract :: "CreateContractRequest \<Rightarrow> Contract" where
  "request_contract req = no_contract
     \<lparr>c_client_id := cr_client_id req, c_freelancer_id := cr_freelancer_id req,
      c_title := cr_title req, c_description := cr_description req, c_amount := cr_amount req,
      c_client_wallet_id := cr_client_wallet_id req,
      c_freelancer_wallet_id := cr_freelancer_wallet_id req\<rparr>"

definition request_milestone :: "MilestoneSpec \<Rightarrow> Milestone" where
  "request_milestone ms =
     \<lparr>m_id = '''', m_contract_id = '''', m_title = ms_title ms, m_description = ms_description ms,
      m_amount = ms_amount ms, m_position = ms_position ms, m_status = '''', m_created_at = 0,
      m_updated_at = 0\<rparr>"

definition create_missing :: "CreateContractRequest \<Rightarrow> bool" where
  "create_missing req \<longleftrightarrow> cr_client_id req = '''' \<or> cr_freelancer_id req = '''' \<or> cr_title req = ''''
     \<or> cr_amount req <=s 0 \<or> cr_client_wallet_id req = '''' \<or> cr_freelancer_wallet_id req = ''''"

definition create_reply :: "Contract \<times> saga_err \<Rightarrow> response" where
  "create_reply failure =
     (if c_status (fst failure) = StatusCancelled then error_resp 422 ''payment hold failed''
      else internal_error)"

definition handle_CreateContract ::
  "codec \<Rightarrow> 'p PaymentsService \<Rightarrow> CreateContractRequest option \<Rightarrow> ('p, response) contracts_prog" where
  "handle_CreateContract k svc bound =
     (case bound of None \<Rightarrow> raise (error_resp 400 ''invalid request body'')
      | Some req \<Rightarrow>
          if create_missing req
          then raise (error_resp 400 ''client_id, freelancer_id, title, amount, client_wallet_id, freelancer_wallet_id are required'')
          else
            bnd (map_err create_reply (saga_CreateContract k svc (request_contract req)
              (map request_milestone (cr_milestones req)))) (\<lambda>c.
            ret (Resp 201 (contract_json k c))))"

section \<open>The handlers that act on one contract\<close>

text \<open>
  All three look the contract up, run their operation of the saga and reply with the contract as
  it then is. \<open>conflict\<close> and \<open>failure\<close> are the operation's replies to a status conflict and to
  any other error.
\<close>

definition lookup_reply :: "saga_err \<Rightarrow> response" where
  "lookup_reply e =
     (if e = ErrContractNotFound then error_resp 404 ''contract not found'' else internal_error)"

definition handle_action ::
  "codec \<Rightarrow> (string \<Rightarrow> ('p, unit) saga) \<Rightarrow> string \<Rightarrow> response \<Rightarrow> string \<Rightarrow> ('p, response) contracts_prog" where
  "handle_action k operation conflict failure i =
     bnd (map_err lookup_reply (contract_GetByID auto_stmt i)) (\<lambda>_.
     bnd (map_err (\<lambda>e. if e = ErrStatusConflict then error_resp 409 conflict else failure)
       (operation i)) (\<lambda>_.
     bnd (map_err (\<lambda>_. internal_error) (contract_GetByID auto_stmt i)) (\<lambda>c.
     ret (Resp 200 (contract_json k c)))))"

definition handle_AcceptContract :: "codec \<Rightarrow> string \<Rightarrow> ('p, response) contracts_prog" where
  "handle_AcceptContract k = handle_action k (saga_AcceptContract k)
     ''contract cannot be accepted in current status'' internal_error"

definition handle_CompleteContract ::
  "codec \<Rightarrow> 'p PaymentsService \<Rightarrow> string \<Rightarrow> ('p, response) contracts_prog" where
  "handle_CompleteContract k svc = handle_action k (saga_CompleteContract k svc)
     ''contract cannot be completed in current status''
     (error_resp 502 ''payment service unavailable, retry later'')"

definition handle_CancelContract ::
  "codec \<Rightarrow> 'p PaymentsService \<Rightarrow> string \<Rightarrow> ('p, response) contracts_prog" where
  "handle_CancelContract k svc = handle_action k (saga_CancelContract k svc)
     ''contract cannot be cancelled in current status''
     (error_resp 502 ''payment service unavailable, retry later'')"

definition handle_GetContract :: "codec \<Rightarrow> string \<Rightarrow> ('p, response) contracts_prog" where
  "handle_GetContract k i =
     bnd (map_err lookup_reply (contract_GetByID auto_stmt i)) (\<lambda>c.
     ret (Resp 200 (contract_json k c)))"

text \<open>The query's parameters, \<open>''\<close> for an absent one; absent numbers stay 0.\<close>

definition handle_ListContracts ::
  "codec \<Rightarrow> string \<Rightarrow> string \<Rightarrow> string \<Rightarrow> string \<Rightarrow> ('p, response) contracts_prog" where
  "handle_ListContracts k client freelancer limit_param offset_param =
     bnd (int_param limit_param 0 ''invalid limit parameter'') (\<lambda>limit.
     bnd (int_param offset_param 0 ''invalid offset parameter'') (\<lambda>offset.
     let f = \<lparr>lf_client_id = client, lf_freelancer_id = freelancer, lf_limit = limit, lf_offset = offset\<rparr> in
     bnd (map_err (\<lambda>_. error_resp 500 ''internal error'') (auto_stmt (contract_List f))) (\<lambda>cs.
     bnd (map_err (\<lambda>_. error_resp 500 ''internal error'') (auto_stmt (contract_Count f))) (\<lambda>total.
     ret (Resp 200 (JObj [(''items'', JArr (map (contract_json k) cs)), (''total'', JNum total)]))))))"

section \<open>The consumer of payment events\<close>

text \<open>A message's subject and its data, \<open>None\<close> when it is not JSON; and what is told the broker.\<close>

datatype verdict = Ack | Nak | Term

definition dispatch :: "codec \<Rightarrow> string \<Rightarrow> string \<Rightarrow> ('p, unit) saga" where
  "dispatch k subject contract =
     (if subject = ''payments.payment.held'' then saga_HandlePaymentHeld contract
      else if subject = ''payments.payment.failed'' then saga_HandlePaymentFailed k contract
      else ret ())"

definition consume ::
  "codec \<Rightarrow> string \<times> json option \<Rightarrow> (cdb, string, 'p) saga_sess \<Rightarrow> verdict \<times> (cdb, string, 'p) saga_sess" where
  "consume k m s =
     (case m of (subject, data) \<Rightarrow>
      case (case data of None \<Rightarrow> None | Some j \<Rightarrow> string_field ''contract_id'' j) of
        None \<Rightarrow> (Nak, s)
      | Some contract \<Rightarrow>
          if contract = '''' then (Term, s)
          else case dispatch k subject contract s of
            (Inl _, s') \<Rightarrow> (Nak, s')
          | (Inr _, s') \<Rightarrow> (Ack, s'))"

text \<open>One fetched batch: the messages in turn.\<close>

fun consume_all ::
  "codec \<Rightarrow> (string \<times> json option) list \<Rightarrow> (cdb, string, 'p) saga_sess
   \<Rightarrow> verdict list \<times> (cdb, string, 'p) saga_sess" where
  "consume_all k [] s = ([], s)"
| "consume_all k (m # ms) s =
     (case consume k m s of (v, s1) \<Rightarrow>
      case consume_all k ms s1 of (vs, s2) \<Rightarrow> (v # vs, s2))"

end
