(* ===== verification/ContractsSpec.thy ===== *)
theory ContractsSpec
  imports ContractsHandler
begin

text \<open>
  What the saga promises, as a relation between states of the two services together: the rows of
  the contracts database and whatever is behind the payments interface. The interface's laws are
  a locale; the steps are guarded by what the saga knows when it makes them. Invariants of the
  steps are proved here, theory ContractsRefine shows that the programs make no other steps.
\<close>

section \<open>The interface's laws\<close>

text \<open>
  What can be seen of a hold, and what each call does to it, whether it is answered or not: a
  failed call may have had its effect. \<open>key\<close> is what the name of a wallet or contract denotes.
  A hold's terms are its amount, the wallet it is on and the contract it is for.
\<close>

type_synonym 'w terms = "int64 \<times> 'w \<times> 'w"

datatype 'w hold_state = StillHeld "'w terms" | GivenBack "'w terms" | PaidOut "'w terms" 'w

definition terms :: "(string \<Rightarrow> 'w) \<Rightarrow> Contract \<Rightarrow> 'w terms" where
  "terms key c = (c_amount c, key (c_client_wallet_id c), key (c_id c))"

locale payments_interface =
  fixes svc :: "'p PaymentsService"
    and look :: "'p \<Rightarrow> string \<Rightarrow> 'w hold_state option"
    and key :: "string \<Rightarrow> 'w"
  assumes hold_law: "svc_HoldFunds svc req p = (r, p') \<Longrightarrow>
      (\<forall>i. look p i \<noteq> None \<longrightarrow> look p' i = look p i) \<and>
      (\<forall>x. r = Inr x \<longrightarrow> look p (php_id x) = None \<and> look p' (php_id x)
         = Some (StillHeld (phr_amount req, key (phr_wallet_id req), key (phr_contract_id req))))"
    and release_law: "svc_ReleaseFunds svc i p = (r1, p') \<Longrightarrow> look p i \<noteq> None \<Longrightarrow>
      (\<forall>j. j \<noteq> i \<longrightarrow> look p j \<noteq> None \<longrightarrow> look p' j = look p j) \<and>
      (look p' i = look p i \<and> r1 \<noteq> Inr () \<or>
       (\<exists>t. look p i = Some (StillHeld t) \<and> look p' i = Some (GivenBack t)))"
    and transfer_law: "svc_TransferFunds svc i w p = (r1, p') \<Longrightarrow> look p i \<noteq> None \<Longrightarrow>
      (\<forall>j. j \<noteq> i \<longrightarrow> look p j \<noteq> None \<longrightarrow> look p' j = look p j) \<and>
      (look p' i = look p i \<and> r1 \<noteq> Inr () \<or>
       (\<exists>t. look p i = Some (StillHeld t) \<and> look p' i = Some (PaidOut t (key w))))"

section \<open>The steps of the saga\<close>

text \<open>The moves of a contract, and the events that go with them.\<close>

definition moves :: "(string \<times> string \<times> string list) list" where
  "moves =
     [(StatusHoldPending, StatusAwaitingAccept, []),
      (StatusHoldPending, StatusCancelled, [EventContractCancelled]),
      (StatusAwaitingAccept, StatusActive, [EventContractAccepted]),
      (StatusActive, StatusCompleting, []),
      (StatusCompleting, StatusCompleted, [EventContractCompleted]),
      (StatusAwaitingAccept, StatusDeclining, []),
      (StatusDeclining, StatusDeclined, [EventContractDeclined])]"

definition advance :: "string \<Rightarrow> string \<Rightarrow> string \<Rightarrow> int \<Rightarrow> Contract list \<Rightarrow> Contract list" where
  "advance i from to now =
     map (\<lambda>c. if c_id c = i \<and> c_status c = from then c\<lparr>c_status := to, c_updated_at := now\<rparr> else c)"

definition set_hold :: "string \<Rightarrow> string \<Rightarrow> int \<Rightarrow> Contract list \<Rightarrow> Contract list" where
  "set_hold i hold now = upd c_id i
     (\<lambda>c. if c_hold_id c = Some hold then c else c\<lparr>c_hold_id := Some hold, c_updated_at := now\<rparr>)"

text \<open>Who and what a contract is about; its status, its hold and its times are left out.\<close>

definition same_deal :: "Contract \<Rightarrow> Contract \<Rightarrow> bool" where
  "same_deal c c' \<longleftrightarrow> c_id c' = c_id c \<and> c_client_id c' = c_client_id c \<and>
     c_freelancer_id c' = c_freelancer_id c \<and> c_title c' = c_title c \<and>
     c_description c' = c_description c \<and> c_amount c' = c_amount c \<and> c_currency c' = c_currency c \<and>
     c_client_wallet_id c' = c_client_wallet_id c \<and> c_freelancer_wallet_id c' = c_freelancer_wallet_id c"

text \<open>Entries about one contract, with new ids.\<close>

definition tells :: "cdb \<Rightarrow> string \<Rightarrow> string list \<Rightarrow> string entry list \<Rightarrow> bool" where
  "tells d i evs es \<longleftrightarrow> map e_event_type es = evs \<and> (\<forall>e\<in>set es. e_aggregate_id e = i) \<and>
     distinct (map e_id (contract_events d @ es))"

text \<open>Payments keep what they know of every hold but one.\<close>

definition known_but :: "('p \<Rightarrow> string \<Rightarrow> 'w hold_state option) \<Rightarrow> string set \<Rightarrow> 'p \<Rightarrow> 'p \<Rightarrow> bool" where
  "known_but look hs p p' \<longleftrightarrow> (\<forall>j. j \<notin> hs \<longrightarrow> look p j \<noteq> None \<longrightarrow> look p' j = look p j)"

definition hold_is ::
  "('p \<Rightarrow> string \<Rightarrow> 'w hold_state option) \<Rightarrow> 'p \<Rightarrow> Contract \<Rightarrow> 'w hold_state \<Rightarrow> bool" where
  "hold_is look p c x \<longleftrightarrow> (case c_hold_id c of None \<Rightarrow> False | Some h \<Rightarrow> look p h = Some x)"

inductive sys_step ::
  "('p \<Rightarrow> string \<Rightarrow> 'w hold_state option) \<Rightarrow> (string \<Rightarrow> 'w) \<Rightarrow> cdb \<times> 'p \<Rightarrow> cdb \<times> 'p \<Rightarrow> bool"
  for look key where
  opened:
    "\<lbrakk>c_id c \<notin> c_id ` set (contracts d); c_status c = StatusPending; c_hold_id c = None;
      0 < sint (c_amount c); list_all (\<lambda>m. m_contract_id m = c_id c \<and> 0 < sint (m_amount m)) ms\<rbrakk>
     \<Longrightarrow> sys_step look key (d, p)
       (d\<lparr>contracts := contracts d @ [c], milestones := milestones d @ ms\<rparr>, p)"
| holding:
    "known_but look {} p p' \<Longrightarrow> sys_step look key (d, p) (d, p')"
| confirmed:
    "\<lbrakk>c \<in> set (contracts d); c_status c = StatusPending; events EventContractCancelled (c_id c) (contract_events d) = 0;
      look p hold = Some (StillHeld (terms key c)); Some hold \<notin> c_hold_id ` set (contracts d);
      tells d (c_id c) [EventContractCreated] es\<rbrakk>
     \<Longrightarrow> sys_step look key (d, p)
       (d\<lparr>contracts := set_hold (c_id c) hold now2
            (advance (c_id c) StatusPending StatusHoldPending now1 (contracts d)),
          contract_events := contract_events d @ es\<rparr>, p)"
| compensated:
    "\<lbrakk>c \<in> set (contracts d); c_status c = StatusPending; events EventContractCancelled (c_id c) (contract_events d) = 0;
      cs \<in> {contracts d, advance (c_id c) StatusPending StatusCancelled now (contracts d)};
      tells d (c_id c) [EventContractCancelled] es \<or> es = []\<rbrakk>
     \<Longrightarrow> sys_step look key (d, p)
       (d\<lparr>contracts := cs, contract_events := contract_events d @ es\<rparr>, p)"
| moved:
    "\<lbrakk>c \<in> set (contracts d); c_status c = from; (from, to, evs) \<in> set moves;
      to = StatusCompleted \<longrightarrow> hold_is look p c (PaidOut (terms key c) (key (c_freelancer_wallet_id c)));
      to = StatusDeclined \<longrightarrow> hold_is look p c (GivenBack (terms key c)); tells d (c_id c) evs es\<rbrakk>
     \<Longrightarrow> sys_step look key (d, p)
       (d\<lparr>contracts := advance (c_id c) from to now (contracts d),
          contract_events := contract_events d @ es\<rparr>, p)"
| given_back:
    "\<lbrakk>c \<in> set (contracts d); c_status c = StatusDeclining; c_hold_id c = Some h;
      look p h = Some (StillHeld t); look p' h = Some (GivenBack t); known_but look {h} p p'\<rbrakk>
     \<Longrightarrow> sys_step look key (d, p) (d, p')"
| paid_out:
    "\<lbrakk>c \<in> set (contracts d); c_status c = StatusCompleting; c_hold_id c = Some h;
      look p h = Some (StillHeld t); look p' h = Some (PaidOut t (key (c_freelancer_wallet_id c)));
      known_but look {h} p p'\<rbrakk>
     \<Longrightarrow> sys_step look key (d, p) (d, p')"
| announced_step:
    "\<lbrakk>d'\<lparr>contract_events := []\<rparr> = d\<lparr>contract_events := []\<rparr>;
      unstamped (contract_events d') = unstamped (contract_events d)\<rbrakk>
     \<Longrightarrow> sys_step look key (d, p) (d', p)"

section \<open>The invariant\<close>

text \<open>Where the money of a contract is, by the contract's status.\<close>

definition money_ok ::
  "('p \<Rightarrow> string \<Rightarrow> 'w hold_state option) \<Rightarrow> (string \<Rightarrow> 'w) \<Rightarrow> 'p \<Rightarrow> Contract \<Rightarrow> bool" where
  "money_ok look key p c \<longleftrightarrow>
     (case c_hold_id c of
        None \<Rightarrow> c_status c \<in> {StatusPending, StatusCancelled}
      | Some h \<Rightarrow>
          look p h = Some (StillHeld (terms key c)) \<and>
            c_status c \<in> {StatusHoldPending, StatusAwaitingAccept, StatusActive, StatusCompleting,
              StatusDeclining, StatusCancelled} \<or>
          look p h = Some (PaidOut (terms key c) (key (c_freelancer_wallet_id c))) \<and>
            c_status c \<in> {StatusCompleting, StatusCompleted} \<or>
          look p h = Some (GivenBack (terms key c)) \<and> c_status c \<in> {StatusDeclining, StatusDeclined})"

text \<open>What has been announced of a contract, by its status.\<close>

definition told_ok :: "string entry list \<Rightarrow> Contract \<Rightarrow> bool" where
  "told_ok es c \<longleftrightarrow>
     events EventContractCreated (c_id c) es = of_bool (c_hold_id c \<noteq> None) \<and>
     events EventContractAccepted (c_id c) es =
       of_bool (c_status c \<in> {StatusActive, StatusCompleting, StatusCompleted}) \<and>
     events EventContractCompleted (c_id c) es = of_bool (c_status c = StatusCompleted) \<and>
     events EventContractDeclined (c_id c) es = of_bool (c_status c = StatusDeclined) \<and>
     (if c_hold_id c = None then events EventContractCancelled (c_id c) es \<le> 1
      else events EventContractCancelled (c_id c) es = of_bool (c_status c = StatusCancelled))"

text \<open>No two contracts have the same hold.\<close>

definition holds_apart :: "Contract list \<Rightarrow> bool" where
  "holds_apart cs \<longleftrightarrow>
     (\<forall>x\<in>set cs. \<forall>y\<in>set cs. c_hold_id x \<noteq> None \<longrightarrow> c_hold_id x = c_hold_id y \<longrightarrow> c_id x = c_id y)"

definition saga_inv ::
  "('p \<Rightarrow> string \<Rightarrow> 'w hold_state option) \<Rightarrow> (string \<Rightarrow> 'w) \<Rightarrow> cdb \<times> 'p \<Rightarrow> bool" where
  "saga_inv look key = (\<lambda>(d, p).
     distinct (map c_id (contracts d)) \<and>
     holds_apart (contracts d) \<and>
     distinct (map e_id (contract_events d)) \<and>
     list_all (\<lambda>e. e_aggregate_id e \<in> c_id ` set (contracts d)) (contract_events d) \<and>
     list_all (\<lambda>m. m_contract_id m \<in> c_id ` set (contracts d)) (milestones d) \<and>
     list_all (\<lambda>c. 0 < sint (c_amount c) \<and> money_ok look key p c \<and> told_ok (contract_events d) c)
       (contracts d))"

section \<open>The steps keep the invariant\<close>

lemma terms_simps [simp]:
  "terms key (c\<lparr>c_status := st\<rparr>) = terms key c" "terms key (c\<lparr>c_updated_at := now\<rparr>) = terms key c"
  "terms key (c\<lparr>c_hold_id := h\<rparr>) = terms key c"
  by (simp_all add: terms_def)

lemma events_append: "events t i (es @ es') = events t i es + events t i es'"
  by (simp add: events_def)

lemma events_Nil [simp]: "events t i [] = 0"
  by (simp add: events_def)

lemma events_about:
  "\<forall>e\<in>set es. e_aggregate_id e = i \<Longrightarrow>
   events t j es = (if j = i then count_list (map e_event_type es) t else 0)"
  by (induction es) (auto simp: events_def)

lemma advance_ids [simp]: "map c_id (advance i from to now cs) = map c_id cs"
  "map c_hold_id (advance i from to now cs) = map c_hold_id cs"
  by (simp_all add: advance_def)

lemma told_ok_other:
  assumes "\<forall>e\<in>set es'. e_aggregate_id e = i" "c_id c \<noteq> i"
  shows "told_ok (es @ es') c = told_ok es c"
proof -
  have "events t (c_id c) (es @ es') = events t (c_id c) es" for t
    using assms(2) by (simp add: events_append events_about [OF assms(1)])
  then show ?thesis by (simp only: told_ok_def)
qed

lemma money_ok_known:
  assumes "known_but look hs p p'" "money_ok look key p c" "set_option (c_hold_id c) \<inter> hs = {}"
  shows "money_ok look key p' c"
proof (cases "c_hold_id c")
  case (Some h)
  with assms have "look p' h = look p h"
    by (auto simp: known_but_def money_ok_def)
  with Some assms(2) show ?thesis by (simp add: money_ok_def)
qed (use assms(2) in \<open>simp add: money_ok_def\<close>)

lemma advance_row:
  assumes "distinct (map c_id cs)" "c \<in> set cs" "c_status c = from"
  shows "advance (c_id c) from to now cs = upd c_id (c_id c) (\<lambda>_. c\<lparr>c_status := to, c_updated_at := now\<rparr>) cs"
proof -
  have "x = c" if "x \<in> set cs" "c_id x = c_id c" for x
    using that assms(1,2) by (metis inj_onD distinct_map)
  then show ?thesis
    using assms(3) by (auto simp: advance_def upd_def)
qed

lemma money_held:
  "money_ok look key p c \<Longrightarrow> c_hold_id c = Some h \<Longrightarrow> look p h = Some (StillHeld t) \<Longrightarrow> t = terms key c"
  by (simp add: money_ok_def)

lemma upd_row_ids: "c_id c' = i \<Longrightarrow> map c_id (upd c_id i (\<lambda>_. c') cs) = map c_id cs"
  by (simp add: upd_def)

lemma saga_invD:
  assumes "saga_inv look key (d, p)"
  shows "distinct (map c_id (contracts d))" "holds_apart (contracts d)"
    "distinct (map e_id (contract_events d))"
    "\<forall>e\<in>set (contract_events d). e_aggregate_id e \<in> c_id ` set (contracts d)"
    "\<forall>m\<in>set (milestones d). m_contract_id m \<in> c_id ` set (contracts d)"
    "\<And>c. c \<in> set (contracts d) \<Longrightarrow> 0 < sint (c_amount c)"
    "\<And>c. c \<in> set (contracts d) \<Longrightarrow> money_ok look key p c"
    "\<And>c. c \<in> set (contracts d) \<Longrightarrow> told_ok (contract_events d) c"
  using assms by (simp_all add: saga_inv_def list_all_iff)

lemma same_contract:
  "distinct (map c_id cs) \<Longrightarrow> x \<in> set cs \<Longrightarrow> y \<in> set cs \<Longrightarrow> c_id x = c_id y \<Longrightarrow> x = y"
  by (metis inj_onD distinct_map)

lemma saga_inv_row:
  assumes inv: "saga_inv look key (d, p)" and c: "c \<in> set (contracts d)"
    and c': "c_id c' = c_id c" "c_amount c' = c_amount c"
      "c_hold_id c' = c_hold_id c \<or> (\<exists>h. c_hold_id c' = Some h \<and> Some h \<notin> c_hold_id ` set (contracts d))"
    and es: "\<forall>e\<in>set es. e_aggregate_id e = c_id c" "distinct (map e_id (contract_events d @ es))"
    and ok: "money_ok look key p c'" "told_ok (contract_events d @ es) c'"
  shows "saga_inv look key
    (d\<lparr>contracts := upd c_id (c_id c) (\<lambda>_. c') (contracts d), contract_events := contract_events d @ es\<rparr>, p)"
proof -
  note I = saga_invD [OF inv]
  let ?cs = "upd c_id (c_id c) (\<lambda>_. c') (contracts d)"
  have ids: "map c_id ?cs = map c_id (contracts d)" by (rule upd_row_ids) (rule c'(1))
  then have idset: "c_id ` set ?cs = c_id ` set (contracts d)"
    by (simp only: set_map [symmetric])
  have rows: "x = c' \<or> x \<in> set (contracts d) \<and> c_id x \<noteq> c_id c" if "x \<in> set ?cs" for x
    using that by (auto elim!: in_set_updE)
  have "holds_apart ?cs"
    unfolding holds_apart_def
  proof (intro ballI impI)
    fix x y assume xy: "x \<in> set ?cs" "y \<in> set ?cs" "c_hold_id x \<noteq> None" "c_hold_id x = c_hold_id y"
    from rows [OF xy(1)] rows [OF xy(2)] show "c_id x = c_id y"
      using xy(3,4) c c' I(2) unfolding holds_apart_def by (metis image_eqI)
  qed
  moreover have "0 < sint (c_amount x) \<and> money_ok look key p x \<and> told_ok (contract_events d @ es) x"
    if "x \<in> set ?cs" for x
    using rows [OF that] c c' ok I(6-8) by (auto simp: told_ok_other [OF es(1)])
  ultimately show ?thesis
    using I(1,4,5) es c idset ids by (auto simp: saga_inv_def list_all_iff)
qed

lemma set_hold_row:
  assumes "distinct (map c_id cs)" "c \<in> set cs" "c_hold_id c \<noteq> Some h"
  shows "set_hold (c_id c) h now cs
    = upd c_id (c_id c) (\<lambda>_. c\<lparr>c_hold_id := Some h, c_updated_at := now\<rparr>) cs"
proof -
  have "x = c" if "x \<in> set cs" "c_id x = c_id c" for x
    using same_contract [OF assms(1) that(1) assms(2) that(2)] .
  then show ?thesis
    using assms(3) by (auto simp: set_hold_def upd_def)
qed

lemma upd_upd: "(\<And>r. key (f r) = key r) \<Longrightarrow> upd key i g (upd key i f rs) = upd key i (g \<circ> f) rs"
  by (simp add: upd_def)

lemma tellsD:
  assumes "tells d i evs es"
  shows "\<forall>e\<in>set es. e_aggregate_id e = i" "distinct (map e_id (contract_events d @ es))"
    "events t i (contract_events d @ es) = events t i (contract_events d) + count_list evs t"
  using assms by (simp_all add: tells_def events_append) (auto simp: events_about [of es i])

text \<open>A contract without a hold has said nothing but, perhaps, that it is cancelled.\<close>

lemma moves_cases:
  assumes "(from, to, evs) \<in> set moves"
  obtains "from = StatusHoldPending" "to = StatusAwaitingAccept" "evs = []"
  | "from = StatusHoldPending" "to = StatusCancelled" "evs = [EventContractCancelled]"
  | "from = StatusAwaitingAccept" "to = StatusActive" "evs = [EventContractAccepted]"
  | "from = StatusActive" "to = StatusCompleting" "evs = []"
  | "from = StatusCompleting" "to = StatusCompleted" "evs = [EventContractCompleted]"
  | "from = StatusAwaitingAccept" "to = StatusDeclining" "evs = []"
  | "from = StatusDeclining" "to = StatusDeclined" "evs = [EventContractDeclined]"
  using assms by (auto simp: moves_def)

lemma told_ok_moved:
  assumes "(c_status c, to, evs) \<in> set moves" "tells d (c_id c) evs es"
    "told_ok (contract_events d) c" "c_hold_id c \<noteq> None"
  shows "told_ok (contract_events d @ es) (c\<lparr>c_status := to, c_updated_at := now\<rparr>)"
  using assms(1,3,4)
  by (elim moves_cases) (simp_all add: told_ok_def tellsD(3) [OF assms(2)])

lemma money_ok_moved:
  assumes "(c_status c, to, evs) \<in> set moves" "money_ok look key p c"
    "to = StatusCompleted \<longrightarrow> hold_is look p c (PaidOut (terms key c) (key (c_freelancer_wallet_id c)))"
    "to = StatusDeclined \<longrightarrow> hold_is look p c (GivenBack (terms key c))"
  shows "money_ok look key p (c\<lparr>c_status := to, c_updated_at := now\<rparr>)" "c_hold_id c \<noteq> None"
  using assms
  by (elim moves_cases; simp add: money_ok_def hold_is_def split: option.splits)+

lemma known_but_mono: "known_but look hs p p' \<Longrightarrow> hs \<subseteq> hs' \<Longrightarrow> known_but look hs' p p'"
  by (auto simp: known_but_def)

text \<open>Payments act on the hold of one contract; the others' money stays where it is.\<close>

lemma saga_inv_pay:
  assumes "saga_inv look key (d, p)" "known_but look hs p p'"
    "\<And>c. c \<in> set (contracts d) \<Longrightarrow> set_option (c_hold_id c) \<inter> hs \<noteq> {} \<Longrightarrow> money_ok look key p' c"
  shows "saga_inv look key (d, p')"
proof -
  have "money_ok look key p' c" if "c \<in> set (contracts d)" for c
    using saga_invD(7) [OF assms(1) that] money_ok_known [OF assms(2)] assms(3) [OF that] by blast
  with assms(1) show ?thesis by (auto simp: saga_inv_def list_all_iff)
qed

lemma hold_owner:
  assumes "saga_inv look key (d, p)" "c \<in> set (contracts d)" "c_hold_id c = Some h"
    "x \<in> set (contracts d)" "h \<in> set_option (c_hold_id x)"
  shows "x = c"
proof -
  have "c_id x = c_id c"
    using saga_invD(2) [OF assms(1), unfolded holds_apart_def, rule_format, OF assms(4,2)] assms(3,5)
    by simp
  with saga_invD(1) [OF assms(1)] assms(2,4) show ?thesis by (simp add: same_contract)
qed

lemma saga_inv_opened:
  assumes "saga_inv look key (d, p)" "c_id c \<notin> c_id ` set (contracts d)" "c_status c = StatusPending"
    "c_hold_id c = None" "0 < sint (c_amount c)" "list_all (\<lambda>m. m_contract_id m = c_id c \<and> 0 < sint (m_amount m)) ms"
  shows "saga_inv look key
    (d\<lparr>contracts := contracts d @ [c], milestones := milestones d @ ms\<rparr>, p)"
proof -
  note I = saga_invD [OF assms(1)]
  have "events t (c_id c) (contract_events d) = 0" for t
  proof -
    have "e_aggregate_id e \<noteq> c_id c" if "e \<in> set (contract_events d)" for e
      using I(4) that assms(2) by metis
    then show ?thesis by (simp add: events_def filter_empty_conv)
  qed
  then have "told_ok (contract_events d) c" by (simp add: told_ok_def assms(3,4))
  moreover have "money_ok look key p c" by (simp add: money_ok_def assms(3,4))
  moreover have "holds_apart (contracts d @ [c])"
    unfolding holds_apart_def
  proof (intro ballI impI)
    fix x y assume xy: "x \<in> set (contracts d @ [c])" "y \<in> set (contracts d @ [c])"
      "c_hold_id x \<noteq> None" "c_hold_id x = c_hold_id y"
    with assms(4) have "x \<in> set (contracts d)" "y \<in> set (contracts d)" by auto
    with I(2) xy(3,4) show "c_id x = c_id y" unfolding holds_apart_def by blast
  qed
  ultimately show ?thesis
    using I assms(2,5,6) by (auto simp: saga_inv_def list_all_iff)
qed

lemma sys_step_inv:
  assumes "sys_step look key x y" "saga_inv look key x"
  shows "saga_inv look key y"
  using assms(1)
proof cases
  case (opened c d ms p)
  with assms(2) show ?thesis by (simp add: saga_inv_opened)
next
  case (holding p p' d)
  with assms(2) show ?thesis by (auto intro: saga_inv_pay)
next
  case (confirmed c d p hold es now2 now1)
  let ?c = "c\<lparr>c_status := StatusHoldPending, c_updated_at := now1, c_hold_id := Some hold, c_updated_at := now2\<rparr>"
  have inv: "saga_inv look key (d, p)" using assms(2) confirmed(1) by simp
  note I = saga_invD [OF inv]
  have none: "c_hold_id c = None"
    using I(7) [OF confirmed(3)] confirmed(4) by (auto simp: money_ok_def split: option.splits)
  have adv: "advance (c_id c) StatusPending StatusHoldPending now1 (contracts d) = upd c_id (c_id c)
      (\<lambda>_. c\<lparr>c_status := StatusHoldPending, c_updated_at := now1\<rparr>) (contracts d)"
    using I(1) confirmed(3,4) by (rule advance_row)
  have cs: "set_hold (c_id c) hold now2 (advance (c_id c) StatusPending StatusHoldPending now1 (contracts d))
      = upd c_id (c_id c) (\<lambda>_. ?c) (contracts d)"
    unfolding adv by (auto simp: set_hold_def upd_def none)
  have told: "told_ok (contract_events d @ es) ?c"
    using I(8) [OF confirmed(3)] confirmed(4,5) none
    by (simp add: told_ok_def tellsD(3) [OF confirmed(8)])
  show ?thesis
    unfolding confirmed(2) cs
    by (rule saga_inv_row [OF inv confirmed(3)])
      (use confirmed(6,7) told tellsD(1,2) [OF confirmed(8)] in \<open>auto simp: money_ok_def\<close>)
next
  case (compensated c d cs now es p)
  have inv: "saga_inv look key (d, p)" using assms(2) compensated(1) by simp
  note I = saga_invD [OF inv]
  have none: "c_hold_id c = None"
    using I(7) [OF compensated(3)] compensated(4) by (auto simp: money_ok_def split: option.splits)
  have es: "\<forall>e\<in>set es. e_aggregate_id e = c_id c" "distinct (map e_id (contract_events d @ es))"
    using compensated(7) I(3) tellsD by (auto simp del: map_append)
  obtain c' where c': "cs = upd c_id (c_id c) (\<lambda>_. c') (contracts d)"
    "c' \<in> {c, c\<lparr>c_status := StatusCancelled, c_updated_at := now\<rparr>}"
  proof (cases "cs = contracts d")
    case True
    have "upd c_id (c_id c) (\<lambda>_. c) (contracts d) = contracts d"
      using same_contract [OF I(1)] compensated(3) by (auto simp: upd_def intro!: map_idI)
    with True show thesis by (intro that [of c]) simp_all
  next
    case False
    with compensated(6) advance_row [OF I(1) compensated(3,4)] show thesis
      by (intro that [of "c\<lparr>c_status := StatusCancelled, c_updated_at := now\<rparr>"]) simp_all
  qed
  have told: "told_ok (contract_events d @ es) c'"
    using compensated(7)
  proof
    assume "tells d (c_id c) [EventContractCancelled] es"
    from I(8) [OF compensated(3)] compensated(4,5) none c'(2) show ?thesis
      by (elim insertE emptyE) (simp_all add: told_ok_def tellsD(3) [OF \<open>tells d _ _ es\<close>])
  next
    assume "es = []"
    with I(8) [OF compensated(3)] compensated(4,5) none c'(2) show ?thesis
      by (elim insertE emptyE) (simp_all add: told_ok_def)
  qed
  show ?thesis
    unfolding compensated(2) c'(1)
    by (rule saga_inv_row [OF inv compensated(3)])
      (use c'(2) none told es compensated(4) in \<open>auto simp: money_ok_def\<close>)
next
  case (moved c d src dst evs p es now)
  have inv: "saga_inv look key (d, p)" using assms(2) moved(1) by simp
  note I = saga_invD [OF inv]
  note edge = moved(5) [folded moved(4)]
  note money = money_ok_moved [OF edge I(7) [OF moved(3)] moved(6,7)]
  have told: "told_ok (contract_events d @ es) (c\<lparr>c_status := dst, c_updated_at := now\<rparr>)"
    using edge moved(8) I(8) [OF moved(3)] money(2) by (rule told_ok_moved)
  show ?thesis
    unfolding moved(2) advance_row [OF I(1) moved(3,4)]
    by (rule saga_inv_row [OF inv moved(3)]) (use money(1) told tellsD(1,2) [OF moved(8)] in auto)
next
  case (given_back c d h p t p')
  have inv: "saga_inv look key (d, p)" using assms(2) given_back(1) by simp
  show ?thesis
    unfolding given_back(2)
    by (rule saga_inv_pay [OF inv given_back(8)])
      (use given_back(3-7) hold_owner [OF inv given_back(3,5)]
        money_held [OF saga_invD(7) [OF inv given_back(3)] given_back(5,6)] in \<open>auto simp: money_ok_def\<close>)
next
  case (paid_out c d h p t p')
  have inv: "saga_inv look key (d, p)" using assms(2) paid_out(1) by simp
  show ?thesis
    unfolding paid_out(2)
    by (rule saga_inv_pay [OF inv paid_out(8)])
      (use paid_out(3-7) hold_owner [OF inv paid_out(3,5)]
        money_held [OF saga_invD(7) [OF inv paid_out(3)] paid_out(5,6)] in \<open>auto simp: money_ok_def\<close>)
next
  case (announced_step d' d p)
  have inv: "saga_inv look key (d, p)" using assms(2) announced_step(1) by simp
  from announced_step(3) have same: "contracts d' = contracts d" "milestones d' = milestones d"
    by (cases d; cases d'; simp)+
  have ev: "events t i (contract_events d') = events t i (contract_events d)" for t i
    using announced_step(4) events_unstamped by metis
  then have told: "told_ok (contract_events d') c = told_ok (contract_events d) c" for c
    by (simp only: told_ok_def)
  have "map e_id (contract_events d') = map e_id (contract_events d)"
    using announced_step(4) map_unstamped by metis
  moreover have aggs: "map e_aggregate_id (contract_events d') = map e_aggregate_id (contract_events d)"
    using arg_cong [OF announced_step(4), of "map e_aggregate_id"] by (simp add: unstamped_def o_def)
  have "e_aggregate_id ` set (contract_events d') \<subseteq> c_id ` set (contracts d)"
    using arg_cong [OF aggs, of set] saga_invD(4) [OF inv] by auto
  then have "list_all (\<lambda>e. e_aggregate_id e \<in> c_id ` set (contracts d)) (contract_events d')"
    by (auto simp: list_all_iff)
  ultimately show ?thesis
    using inv unfolding announced_step(2) by (simp add: saga_inv_def same told)
qed

end
