(* ===== verification/ContractsRefine.thy ===== *)
theory ContractsRefine
  imports ContractsSpec
begin

text \<open>
  The programs of the contracts service make no steps but those of theory ContractsSpec, whatever
  fails: one lemma per statement, one per transaction, one per operation of the saga, and the
  handlers and the consumer on top.
\<close>

section \<open>Statements\<close>

abbreviation sys :: "(cdb, string, 'p) saga_sess \<Rightarrow> cdb \<times> 'p" where
  "sys s \<equiv> (s_db s, s_pay s)"

lemma same_env_sagaD:
  assumes "same_env s (s' :: (cdb, string, 'p) saga_sess)"
  shows "s_pay s' = s_pay s"
  using assms by (cases s; cases s') (simp add: same_env_def)

lemma advance_absent:
  "list_all (\<lambda>c. \<not> (c_id c = i \<and> c_status c = from)) cs \<Longrightarrow> advance i from to now cs = cs"
  by (auto simp: advance_def list_all_iff intro!: map_idI)

lemma contract_update_status_InrE:
  assumes "contract_update_status i from to now u d = Inr (n, d')" "to \<noteq> from"
  obtains (hit) c where "c \<in> set (contracts d)" "c_id c = i" "c_status c = from" "n \<noteq> 0"
      "d' = d\<lparr>contracts := advance i from to now (contracts d)\<rparr>"
  | (missed) "n = 0" "d' = d"
proof (cases "\<exists>c\<in>set (contracts d). c_id c = i \<and> c_status c = from")
  case True
  then obtain c where c: "c \<in> set (contracts d)" "c_id c = i" "c_status c = from" by blast
  then have "n \<noteq> 0" using assms
    by (auto simp: contract_update_status_def Let_def filter_empty_conv split: if_splits)
  with c assms show thesis
    by (intro hit) (auto simp: contract_update_status_def Let_def advance_def split: if_splits intro!: map_cong)
next
  case False
  then have none: "filter (\<lambda>c. c_id c = i \<and> c_status c = from \<and> to \<noteq> from) (contracts d) = []"
    "advance i from to now (contracts d) = contracts d"
    by (auto simp: filter_empty_conv advance_absent list_all_iff)
  have "n = length (filter (\<lambda>c. c_id c = i \<and> c_status c = from \<and> to \<noteq> from) (contracts d))"
    "d' = d\<lparr>contracts := advance i from to now (contracts d)\<rparr>"
    using assms by (auto simp: contract_update_status_def Let_def advance_def split: if_splits intro!: map_cong)
  with none show thesis by (intro missed) simp_all
qed

lemma UpdateStatus_tx:
  assumes "contract_UpdateStatus stmt i from to (s :: (cdb, string, 'p) saga_sess) = (q, s')" "to \<noteq> from"
  shows "s_db s' = s_db s \<and> s_pay s' = s_pay s \<and>
    (case q of
       Inl _ \<Rightarrow> s_tx s' = s_tx s
     | Inr _ \<Rightarrow> (\<exists>c now. c \<in> set (contracts (s_tx s)) \<and> c_id c = i \<and> c_status c = from \<and>
         s_tx s' = (s_tx s)\<lparr>contracts := advance i from to now (contracts (s_tx s))\<rparr>))"
proof (cases rule: bnd_eqE [OF assms(1) [unfolded contract_UpdateStatus_def]])
  case (1 e)
  then show ?thesis by (auto elim!: map_err_InlE stmt_InlE dest!: same_env_sagaD)
next
  case (2 n s1)
  from 2(1) obtain u where u: "contract_update_status i from to (s_now s) u (s_tx s) = Inr (n, s_tx s1)"
    "s_db s1 = s_db s" "s_pay s1 = s_pay s"
    by (auto elim!: map_err_InrE stmt_InrE dest!: same_env_sagaD)
  from u(1) assms(2) show ?thesis
  proof (cases rule: contract_update_status_InrE)
    case (hit c)
    with 2(2) u(2,3) have "s' = s1" "q = Inr ()" by simp_all
    with hit u(2,3) show ?thesis by (simp, intro exI [of _ c] conjI exI [of _ "s_now s"]) simp_all
  qed (use 2(2) u(2,3) in auto)
qed

text \<open>The same on the pool: an error may hide a change.\<close>

lemma UpdateStatus_auto:
  assumes "contract_UpdateStatus auto_stmt i from to (s :: (cdb, string, 'p) saga_sess) = (q, s')" "to \<noteq> from"
  shows "s_pay s' = s_pay s"
    "s_db s' = s_db s \<and> q \<noteq> Inr () \<or>
     (\<exists>c now. c \<in> set (contracts (s_db s)) \<and> c_id c = i \<and> c_status c = from \<and>
        s_db s' = (s_db s)\<lparr>contracts := advance i from to now (contracts (s_db s))\<rparr>)"
proof -
  have "s_pay s' = s_pay s \<and> (s_db s' = s_db s \<and> q \<noteq> Inr () \<or>
     (\<exists>c now. c \<in> set (contracts (s_db s)) \<and> c_id c = i \<and> c_status c = from \<and>
        s_db s' = (s_db s)\<lparr>contracts := advance i from to now (contracts (s_db s))\<rparr>))"
  proof (cases rule: bnd_eqE [OF assms(1) [unfolded contract_UpdateStatus_def]])
    case (1 e)
    from 1(1) obtain e' where "auto_stmt (contract_update_status i from to) s = (Inl e', s')"
      by (auto elim: map_err_InlE)
    then show ?thesis
    proof (cases rule: auto_stmt_InlE)
      case err
      with 1 show ?thesis by (auto dest!: same_env_sagaD)
    next
      case (lost n u)
      from lost(2) assms(2) show ?thesis
        by (cases rule: contract_update_status_InrE) (use lost 1 in \<open>auto dest!: same_env_sagaD\<close>)
    qed
  next
    case (2 n s1)
    from 2(1) obtain u where u: "contract_update_status i from to (s_now s) u (s_db s) = Inr (n, s_db s1)"
      "s_pay s1 = s_pay s"
      by (auto elim!: map_err_InrE auto_stmt_InrE dest!: same_env_sagaD)
    from u(1) assms(2) show ?thesis
      by (cases rule: contract_update_status_InrE) (use 2(2) u(2) in auto)
  qed
  then show "s_pay s' = s_pay s" "s_db s' = s_db s \<and> q \<noteq> Inr () \<or>
     (\<exists>c now. c \<in> set (contracts (s_db s)) \<and> c_id c = i \<and> c_status c = from \<and>
        s_db s' = (s_db s)\<lparr>contracts := advance i from to now (contracts (s_db s))\<rparr>)"
    by simp_all
qed

lemma contract_select_InrD: "contract_select i now u d = Inr (c, d') \<Longrightarrow>
    d' = d \<and> sel c_id i (contracts d) = Some c \<and> c \<in> set (contracts d) \<and> c_id c = i"
  by (auto simp: contract_select_def split: option.splits dest: sel_SomeD)

lemma GetByID_tx:
  assumes "contract_GetByID stmt i (s :: (cdb, string, 'p) saga_sess) = (q, s')"
  shows "s_db s' = s_db s \<and> s_pay s' = s_pay s \<and> s_tx s' = s_tx s \<and>
    (\<forall>c. q = Inr c \<longrightarrow> c \<in> set (contracts (s_tx s)) \<and> c_id c = i)"
  using assms
  by (cases q) (auto simp: contract_GetByID_def elim!: prog_elims dest!: contract_select_InrD same_env_sagaD)

lemma GetByID_auto:
  assumes "contract_GetByID auto_stmt i (s :: (cdb, string, 'p) saga_sess) = (q, s')"
  shows "s_db s' = s_db s" "s_pay s' = s_pay s"
    "q = Inr c \<Longrightarrow> c \<in> set (contracts (s_db s)) \<and> c_id c = i"
proof -
  have "s_db s' = s_db s \<and> s_pay s' = s_pay s \<and>
    (\<forall>c. q = Inr c \<longrightarrow> c \<in> set (contracts (s_db s)) \<and> c_id c = i)"
    using assms
    by (cases q) (auto simp: contract_GetByID_def elim!: prog_elims dest!: contract_select_InrD same_env_sagaD)
  then show "s_db s' = s_db s" "s_pay s' = s_pay s"
    "q = Inr c \<Longrightarrow> c \<in> set (contracts (s_db s)) \<and> c_id c = i" by blast+
qed

lemma emit_tx:
  assumes "emit i event payload (s :: (cdb, string, 'p) saga_sess) = (q, s')"
    "distinct (map e_id (contract_events (s_tx s)))"
  shows "s_db s' = s_db s \<and> s_pay s' = s_pay s \<and>
    (case q of
       Inl _ \<Rightarrow> s_tx s' = s_tx s
     | Inr _ \<Rightarrow> (\<exists>es. tells (s_tx s) i [event] es \<and>
         s_tx s' = (s_tx s)\<lparr>contract_events := contract_events (s_tx s) @ es\<rparr>))"
proof (cases rule: bnd_eqE [OF assms(1) [unfolded emit_def]])
  case (1 e)
  then show ?thesis by (auto elim: draw_id_InlE)
next
  case (2 x s1)
  from 2(1) have s1: "s_db s1 = s_db s" "s_tx s1 = s_tx s" "s_pay s1 = s_pay s"
    by (auto elim!: draw_id_InrE dest!: same_env_sagaD)
  show ?thesis
  proof (cases q)
    case (Inl e)
    with 2(2) s1 show ?thesis by (auto elim!: map_err_InlE stmt_InlE dest!: same_env_sagaD)
  next
    case (Inr v)
    with 2(2) s1 obtain u where ins: "mysql_Insert (contract_entry x i event payload) (s_now s1) u (s_tx s) = Inr (v, s_tx s')"
      "s_db s' = s_db s" "s_pay s' = s_pay s"
      by (auto simp: MySQLOutboxStore_def elim!: map_err_InrE stmt_InrE dest!: same_env_sagaD)
    let ?e = "(contract_entry x i event payload)\<lparr>e_created_at := s_now s1, e_published_at := None\<rparr>"
    from ins(1) have "s_tx s' = (s_tx s)\<lparr>contract_events := contract_events (s_tx s) @ [?e]\<rparr>"
      "x \<notin> e_id ` set (contract_events (s_tx s))"
      by (auto simp: mysql_Insert_def contract_entry_def split: if_splits)
    with Inr ins(2,3) assms(2) show ?thesis
      by (simp, intro exI [of _ "[?e]"]) (simp add: tells_def contract_entry_def)
  qed
qed

lemma commit_tx_saga:
  assumes "commit_tx s = (q, s')"
  shows "s_pay (s' :: (cdb, string, 'p) saga_sess) = s_pay s"
    "s_db s' = s_tx s \<or> s_db s' = s_db s \<and> q \<noteq> Inr ()"
  using assms by (cases rule: commit_tx_eqE; auto dest!: same_env_sagaD)+

lemma begin_tx_saga:
  assumes "begin_tx s = (q, s')"
  shows "s_pay (s' :: (cdb, string, 'p) saga_sess) = s_pay s" "s_db s' = s_db s"
    "q = Inr () \<Longrightarrow> s_tx s' = s_db s"
  using assms by (cases rule: begin_tx_eqE; auto dest!: same_env_sagaD)+

section \<open>Transactions\<close>

lemma tells_contracts [simp]: "tells (d\<lparr>contracts := cs\<rparr>) i evs es = tells d i evs es"
  by (simp add: tells_def)

lemma saga_bracket:
  assumes "bnd (map_err ErrDatabase begin_tx) (\<lambda>_. defer_rollback m) (s :: (cdb, string, 'p) saga_sess) = (q, s')"
  obtains (refused) e where "q = Inl e" "s_db s' = s_db s" "s_pay s' = s_pay s"
  | (runs) s1 s2 where "m s1 = (q, s2)" "s_tx s1 = s_db s" "s_db s1 = s_db s" "s_pay s1 = s_pay s"
      "s_db s' = s_db s2" "s_pay s' = s_pay s2"
proof (cases rule: bnd_eqE [OF assms])
  case (1 e)
  from 1(1) obtain e' where "begin_tx s = (Inl e', s')" by (auto elim: map_err_InlE)
  from begin_tx_saga(1,2) [OF this] 1(2) show thesis by (intro refused)
next
  case (2 x s1)
  from 2(1) have s1: "begin_tx s = (Inr (), s1)" by (auto elim: map_err_InrE)
  from 2(2) obtain s2 where "m s1 = (q, s2)" "s_db s' = s_db s2" "s_pay s' = s_pay s2"
    by (auto elim!: defer_rollback_pairE dest!: same_env_sagaD)
  with begin_tx_saga [OF s1] show thesis by (intro runs [of s1 s2]) simp_all
qed

lemma commit_saga:
  assumes "map_err ErrDatabase commit_tx (s :: (cdb, string, 'p) saga_sess) = (q, s')"
  shows "s_pay s' = s_pay s" "s_db s' = s_tx s \<or> s_db s' = s_db s \<and> q \<noteq> Inr ()"
  using assms commit_tx_saga by (cases q; fastforce elim!: map_err_InrE map_err_InlE)+

lemma emit_commit:
  assumes "bnd (emit i event payload) (\<lambda>_. map_err ErrDatabase commit_tx)
      (s :: (cdb, string, 'p) saga_sess) = (q, s')"
    and "distinct (map e_id (contract_events (s_tx s)))"
  shows "s_pay s' = s_pay s"
    "s_db s' = s_db s \<and> q \<noteq> Inr () \<or>
     (\<exists>es. tells (s_tx s) i [event] es \<and>
       s_db s' = (s_tx s)\<lparr>contract_events := contract_events (s_tx s) @ es\<rparr>)"
proof -
  have "s_pay s' = s_pay s \<and> (s_db s' = s_db s \<and> q \<noteq> Inr () \<or>
     (\<exists>es. tells (s_tx s) i [event] es \<and>
       s_db s' = (s_tx s)\<lparr>contract_events := contract_events (s_tx s) @ es\<rparr>))"
  proof (cases rule: bnd_eqE [OF assms(1)])
    case (1 e)
    with emit_tx [OF 1(1) assms(2)] show ?thesis by simp
  next
    case (2 x s1)
    from emit_tx [OF 2(1) assms(2)] obtain es where es: "tells (s_tx s) i [event] es"
      "s_tx s1 = (s_tx s)\<lparr>contract_events := contract_events (s_tx s) @ es\<rparr>"
      "s_db s1 = s_db s" "s_pay s1 = s_pay s" by auto
    from commit_saga [OF 2(2)] es show ?thesis by auto
  qed
  then show "s_pay s' = s_pay s" "s_db s' = s_db s \<and> q \<noteq> Inr () \<or>
     (\<exists>es. tells (s_tx s) i [event] es \<and>
       s_db s' = (s_tx s)\<lparr>contract_events := contract_events (s_tx s) @ es\<rparr>)" by simp_all
qed

text \<open>A contract that is in a status, by its id.\<close>

definition in_status :: "cdb \<Rightarrow> string \<Rightarrow> string \<Rightarrow> bool" where
  "in_status d i st \<longleftrightarrow> (\<exists>c\<in>set (contracts d). c_id c = i \<and> c_status c = st)"

lemma advance_in:
  assumes "c \<in> set cs" "c_id c = i" "c_status c = from"
  shows "c\<lparr>c_status := to, c_updated_at := now\<rparr> \<in> set (advance i from to now cs)"
proof -
  have "(\<lambda>c. if c_id c = i \<and> c_status c = from then c\<lparr>c_status := to, c_updated_at := now\<rparr> else c) c
      \<in> set (advance i from to now cs)"
    unfolding advance_def set_map using assms(1) by (rule imageI)
  with assms(2,3) show ?thesis by simp
qed

lemma in_status_advance:
  assumes "c \<in> set cs" "c_id c = i" "c_status c = from" "contracts d = advance i from to now cs"
  shows "in_status d i to"
  unfolding in_status_def assms(4)
  by (rule bexI [OF _ advance_in [OF assms(1-3)]]) (simp add: assms(2))

lemma moves_neq: "(from, to, evs) \<in> set moves \<Longrightarrow> to \<noteq> from"
  by (auto simp: moves_def)

text \<open>Both kinds of moving transactions end like this.\<close>

lemma moved_step:
  assumes "c \<in> set (contracts d)" "c_id c = i" "c_status c = from" "(from, to, [event]) \<in> set moves"
    and "to = StatusCompleted \<longrightarrow> hold_is look p c (PaidOut (terms key c) (key (c_freelancer_wallet_id c)))"
    and "to = StatusDeclined \<longrightarrow> hold_is look p c (GivenBack (terms key c))"
    and "tells d i [event] es"
  shows "sys_step look key (d, p)
    (d\<lparr>contracts := advance i from to now (contracts d), contract_events := contract_events d @ es\<rparr>, p)"
  unfolding assms(2) [symmetric]
  by (rule sys_step.moved) (use assms in simp_all)

lemma saga_move_step:
  assumes "saga_move k i from to event (s :: (cdb, string, 'p) saga_sess) = (q, s')"
    and "(from, to, [event]) \<in> set moves" "to \<noteq> StatusCompleted" "to \<noteq> StatusDeclined"
    and "saga_inv look key (sys s)"
  shows "sys s' = sys s \<and> q \<noteq> Inr () \<or>
    sys_step look key (sys s) (sys s') \<and> in_status (s_db s') i to"
proof (cases rule: saga_bracket [OF assms(1) [unfolded saga_move_def]])
  case (1 e)
  then show ?thesis by simp
next
  case (2 s1 s2)
  show ?thesis
  proof (cases rule: bnd_eqE [OF 2(1)])
    case (1 e)
    with UpdateStatus_tx [OF 1(1) moves_neq [OF assms(2)]] 2 show ?thesis by simp
  next
    case upd: (2 x s3)
    from UpdateStatus_tx [OF upd(1) moves_neq [OF assms(2)]] 2 obtain c now where c:
      "c \<in> set (contracts (s_db s))" "c_id c = i" "c_status c = from"
      "s_tx s3 = (s_db s)\<lparr>contracts := advance i from to now (contracts (s_db s))\<rparr>"
      "s_db s3 = s_db s" "s_pay s3 = s_pay s" by auto
    show ?thesis
    proof (cases rule: bnd_eqE [OF upd(2)])
      case (1 e)
      with GetByID_tx [OF 1(1)] 2 c show ?thesis by simp
    next
      case get: (2 c' s4)
      have dist: "distinct (map e_id (contract_events (s_tx s4)))"
        using GetByID_tx [OF get(1)] c(4) saga_invD(3) [OF assms(5)] by simp
      from emit_commit [OF get(2) dist] GetByID_tx [OF get(1)] 2 c
      consider "s_db s' = s_db s" "s_pay s' = s_pay s" "q \<noteq> Inr ()"
        | es where "tells (s_db s) i [event] es" "s_pay s' = s_pay s"
            "s_db s' = (s_db s)\<lparr>contracts := advance i from to now (contracts (s_db s)),
               contract_events := contract_events (s_db s) @ es\<rparr>"
        by auto
      then show ?thesis
      proof cases
        case (2 es)
        have "in_status (s_db s') i to" by (rule in_status_advance [OF c(1-3)]) (simp add: 2(3))
        moreover have "sys_step look key (sys s) (sys s')"
          unfolding 2(2,3) using c(1-3) assms(2) _ _ 2(1)
          by (rule moved_step) (simp_all add: assms(3,4))
        ultimately show ?thesis by simp
      qed simp
    qed
  qed
qed

lemma saga_finish_step:
  assumes "saga_finish k i c mid final event (s :: (cdb, string, 'p) saga_sess) = (q, s')"
    and "(mid, final, [event]) \<in> set moves" "saga_inv look key (sys s)"
    and "\<And>c'. c' \<in> set (contracts (s_db s)) \<Longrightarrow> c_id c' = i \<Longrightarrow>
      (final = StatusCompleted \<longrightarrow> hold_is look (s_pay s) c' (PaidOut (terms key c') (key (c_freelancer_wallet_id c')))) \<and>
      (final = StatusDeclined \<longrightarrow> hold_is look (s_pay s) c' (GivenBack (terms key c')))"
  shows "sys s' = sys s \<and> q \<noteq> Inr () \<or>
    sys_step look key (sys s) (sys s') \<and> in_status (s_db s') i final"
proof (cases rule: saga_bracket [OF assms(1) [unfolded saga_finish_def]])
  case (1 e)
  then show ?thesis by simp
next
  case (2 s1 s2)
  show ?thesis
  proof (cases rule: bnd_eqE [OF 2(1)])
    case (1 e)
    with UpdateStatus_tx [OF 1(1) moves_neq [OF assms(2)]] 2 show ?thesis by simp
  next
    case upd: (2 x s3)
    from UpdateStatus_tx [OF upd(1) moves_neq [OF assms(2)]] 2 obtain c' now where c:
      "c' \<in> set (contracts (s_db s))" "c_id c' = i" "c_status c' = mid"
      "s_tx s3 = (s_db s)\<lparr>contracts := advance i mid final now (contracts (s_db s))\<rparr>"
      "s_db s3 = s_db s" "s_pay s3 = s_pay s" by auto
    have dist: "distinct (map e_id (contract_events (s_tx s3)))"
      using c(4) saga_invD(3) [OF assms(3)] by simp
    from emit_commit [OF upd(2) dist] 2 c
    consider "s_db s' = s_db s" "s_pay s' = s_pay s" "q \<noteq> Inr ()"
      | es where "tells (s_db s) i [event] es" "s_pay s' = s_pay s"
          "s_db s' = (s_db s)\<lparr>contracts := advance i mid final now (contracts (s_db s)),
             contract_events := contract_events (s_db s) @ es\<rparr>"
      by auto
    then show ?thesis
    proof cases
      case (2 es)
      have "in_status (s_db s') i final" by (rule in_status_advance [OF c(1-3)]) (simp add: 2(3))
      moreover have "sys_step look key (sys s) (sys s')"
        unfolding 2(2,3) using c(1-3) assms(2) _ _ 2(1)
        by (rule moved_step) (use assms(4) [OF c(1,2)] in blast)+
      ultimately show ?thesis by simp
    qed simp
  qed
qed

section \<open>Operations on one contract\<close>

lemma quiet_step:
  assumes "c \<in> set (contracts d)" "c_id c = i" "c_status c = from" "(from, to, []) \<in> set moves"
    and "to \<noteq> StatusCompleted" "to \<noteq> StatusDeclined" "saga_inv look key (d, p)"
  shows "sys_step look key (d, p) (d\<lparr>contracts := advance i from to now (contracts d)\<rparr>, p)"
proof -
  have "tells d (c_id c) [] []" using saga_invD(3) [OF assms(7)] by (simp add: tells_def)
  with assms(1,3-6) have "sys_step look key (d, p)
      (d\<lparr>contracts := advance (c_id c) from to now (contracts d), contract_events := contract_events d @ []\<rparr>, p)"
    by (intro sys_step.moved) simp_all
  then show ?thesis by (simp add: assms(2))
qed

lemma update_step:
  assumes "contract_UpdateStatus auto_stmt i from to (s :: (cdb, string, 'p) saga_sess) = (q, s')"
    and "(from, to, []) \<in> set moves" "to \<noteq> StatusCompleted" "to \<noteq> StatusDeclined"
    and "saga_inv look key (sys s)"
  shows "sys s' = sys s \<and> q \<noteq> Inr () \<or>
    sys_step look key (sys s) (sys s') \<and> in_status (s_db s') i to"
  using UpdateStatus_auto(2) [OF assms(1) moves_neq [OF assms(2)]]
proof (elim disjE exE conjE)
  assume "s_db s' = s_db s" "q \<noteq> Inr ()"
  with UpdateStatus_auto(1) [OF assms(1) moves_neq [OF assms(2)]] show ?thesis by simp
next
  fix c now
  assume c: "c \<in> set (contracts (s_db s))" "c_id c = i" "c_status c = from"
    and d: "s_db s' = (s_db s)\<lparr>contracts := advance i from to now (contracts (s_db s))\<rparr>"
  from d have "in_status (s_db s') i to" by (intro in_status_advance [OF c]) simp
  with quiet_step [OF c assms(2-5)] d UpdateStatus_auto(1) [OF assms(1) moves_neq [OF assms(2)]]
  show ?thesis by simp
qed

text \<open>The claimed contract, as the operation goes on with it.\<close>

definition stands_for :: "cdb \<Rightarrow> Contract \<Rightarrow> string \<Rightarrow> string \<Rightarrow> bool" where
  "stands_for d c i st \<longleftrightarrow> (\<exists>c'\<in>set (contracts d). c_id c' = i \<and> c_status c' = st \<and>
     c_hold_id c' = c_hold_id c \<and> c_freelancer_wallet_id c' = c_freelancer_wallet_id c)"

lemma stands_for_advance:
  assumes "c \<in> set cs" "c_id c = i" "c_status c = from" "contracts d = advance i from to now cs"
  shows "stands_for d c i to"
  unfolding stands_for_def assms(4)
  by (rule bexI [OF _ advance_in [OF assms(1-3)]]) (simp add: assms(2))

lemma saga_claim_step:
  assumes "saga_claim i first mid (s :: (cdb, string, 'p) saga_sess) = (q, s')"
    and "(first, mid, []) \<in> set moves" "mid \<noteq> StatusCompleted" "mid \<noteq> StatusDeclined"
    and "saga_inv look key (sys s)"
  shows "sys s' = sys s \<or> sys_step look key (sys s) (sys s')"
    "\<forall>c. q = Inr c \<longrightarrow> stands_for (s_db s') c i mid"
    "s_pay s' = s_pay s"
proof -
  have "(sys s' = sys s \<or> sys_step look key (sys s) (sys s')) \<and> s_pay s' = s_pay s \<and>
      (\<forall>c. q = Inr c \<longrightarrow> stands_for (s_db s') c i mid)"
  proof (cases rule: bnd_eqE [OF assms(1) [unfolded saga_claim_def]])
    case (1 e)
    with GetByID_auto(1,2) [OF 1(1)] show ?thesis by simp
  next
    case (2 c s1)
    note get = GetByID_auto [OF 2(1)]
    show ?thesis
    proof (cases "c_status c = first")
      case False
      with 2(2) have "s' = s1" "\<forall>x. q = Inr x \<longrightarrow> x = c \<and> c_status c = mid"
        by (auto simp: bnd_def ret_def raise_def split: if_splits)
      with get show ?thesis by (auto simp: stands_for_def)
    next
      case True
      let ?up = "contract_UpdateStatus auto_stmt i first mid"
      from 2(2) True have "bnd (bnd ?up (\<lambda>_. ret (c\<lparr>c_status := mid\<rparr>))) (\<lambda>c.
         if c_status c \<noteq> mid then raise ErrStatusConflict else ret c) s1 = (q, s')" by simp
      then obtain q1 where up: "?up s1 = (q1, s')" "q = Inl e \<Longrightarrow> q1 = Inl e"
        "\<And>x. q = Inr x \<Longrightarrow> q1 = Inr () \<and> x = c\<lparr>c_status := mid\<rparr>" for e
        by (auto simp: bnd_def ret_def raise_def split: prod.splits sum.splits)
      have inv: "saga_inv look key (sys s1)" using assms(5) get by simp
      note upd = UpdateStatus_auto [OF up(1) moves_neq [OF assms(2)]]
      have "stands_for (s_db s') x i mid" if "q = Inr x" for x
      proof -
        from up(3) [OF that] upd(2) obtain c1 now where c1: "c1 \<in> set (contracts (s_db s1))" "c_id c1 = i"
          "c_status c1 = first" "s_db s' = (s_db s1)\<lparr>contracts := advance i first mid now (contracts (s_db s1))\<rparr>"
          by blast
        have "c1 = c"
          using same_contract [OF saga_invD(1) [OF assms(5)], of c1 c] get(1) get(3) [OF refl] c1(1,2) by simp
        have "stands_for (s_db s') c1 i mid" by (rule stands_for_advance [OF c1(1-3)]) (simp add: c1(4))
        with \<open>c1 = c\<close> up(3) [OF that] show ?thesis by (simp add: stands_for_def)
      qed
      with update_step [OF up(1) assms(2-4) inv] upd(1) get(1,2) show ?thesis by auto
    qed
  qed
  then show "sys s' = sys s \<or> sys_step look key (sys s) (sys s')"
    "\<forall>c. q = Inr c \<longrightarrow> stands_for (s_db s') c i mid" "s_pay s' = s_pay s" by blast+
qed

section \<open>Calls to payments\<close>

context payments_interface
begin

lemma transfer_step:
  assumes "pay_rpc (svc_TransferFunds svc hold w) s = (q, s')" "saga_inv look key (sys s)"
    and "c \<in> set (contracts (s_db s))" "c_status c = StatusCompleting" "c_hold_id c = Some hold"
      "c_freelancer_wallet_id c = w"
  shows "s_db s' = s_db s" "sys_step look key (sys s) (sys s')"
    "q = Inr () \<longrightarrow> hold_is look (s_pay s') c (PaidOut (terms key c) (key w))"
proof -
  obtain r where r: "svc_TransferFunds svc hold w (s_pay s) = (r, s_pay s')" "s_db s' = s_db s"
    "q = Inr () \<longrightarrow> r = Inr ()"
    using assms(1) by (auto simp: pay_rpc_def split: prod.splits sum.splits)
  have known: "look (s_pay s) hold \<noteq> None"
    using saga_invD(7) [OF assms(2,3)] assms(5) by (auto simp: money_ok_def)
  note law = transfer_law [OF r(1) known]
  have others: "known_but look {hold} (s_pay s) (s_pay s')"
    using law by (auto simp: known_but_def)
  from law have "sys_step look key (sys s) (sys s') \<and>
      (q = Inr () \<longrightarrow> hold_is look (s_pay s') c (PaidOut (terms key c) (key w)))"
  proof (elim conjE disjE)
    assume "look (s_pay s') hold = look (s_pay s) hold" "r \<noteq> Inr ()"
    then have "known_but look {} (s_pay s) (s_pay s')" "q \<noteq> Inr ()"
      using others r(3) by (auto simp: known_but_def)
    then show ?thesis by (simp add: r(2) sys_step.holding)
  next
    assume "\<exists>t. look (s_pay s) hold = Some (StillHeld t) \<and> look (s_pay s') hold = Some (PaidOut t (key w))"
    then obtain t where t: "look (s_pay s) hold = Some (StillHeld t)"
      "look (s_pay s') hold = Some (PaidOut t (key w))" by blast
    from money_held [OF saga_invD(7) [OF assms(2,3)] assms(5) t(1)] t assms(3-6) others show ?thesis
      by (auto simp: r(2) hold_is_def intro: sys_step.paid_out)
  qed
  then show "s_db s' = s_db s" "sys_step look key (sys s) (sys s')"
    "q = Inr () \<longrightarrow> hold_is look (s_pay s') c (PaidOut (terms key c) (key w))" by (simp_all add: r(2))
qed

lemma release_step:
  assumes "pay_rpc (svc_ReleaseFunds svc hold) s = (q, s')" "saga_inv look key (sys s)"
    and "c \<in> set (contracts (s_db s))" "c_status c = StatusDeclining" "c_hold_id c = Some hold"
  shows "s_db s' = s_db s" "sys_step look key (sys s) (sys s')"
    "q = Inr () \<longrightarrow> hold_is look (s_pay s') c (GivenBack (terms key c))"
proof -
  obtain r where r: "svc_ReleaseFunds svc hold (s_pay s) = (r, s_pay s')" "s_db s' = s_db s"
    "q = Inr () \<longrightarrow> r = Inr ()"
    using assms(1) by (auto simp: pay_rpc_def split: prod.splits sum.splits)
  have known: "look (s_pay s) hold \<noteq> None"
    using saga_invD(7) [OF assms(2,3)] assms(5) by (auto simp: money_ok_def)
  note law = release_law [OF r(1) known]
  have others: "known_but look {hold} (s_pay s) (s_pay s')"
    using law by (auto simp: known_but_def)
  from law have "sys_step look key (sys s) (sys s') \<and>
      (q = Inr () \<longrightarrow> hold_is look (s_pay s') c (GivenBack (terms key c)))"
  proof (elim conjE disjE)
    assume "look (s_pay s') hold = look (s_pay s) hold" "r \<noteq> Inr ()"
    then have "known_but look {} (s_pay s) (s_pay s')" "q \<noteq> Inr ()"
      using others r(3) by (auto simp: known_but_def)
    then show ?thesis by (simp add: r(2) sys_step.holding)
  next
    assume "\<exists>t. look (s_pay s) hold = Some (StillHeld t) \<and> look (s_pay s') hold = Some (GivenBack t)"
    then obtain t where t: "look (s_pay s) hold = Some (StillHeld t)" "look (s_pay s') hold = Some (GivenBack t)"
      by blast
    from money_held [OF saga_invD(7) [OF assms(2,3)] assms(5) t(1)] t assms(3-5) others show ?thesis
      by (auto simp: r(2) hold_is_def intro: sys_step.given_back)
  qed
  then show "s_db s' = s_db s" "sys_step look key (sys s) (sys s')"
    "q = Inr () \<longrightarrow> hold_is look (s_pay s') c (GivenBack (terms key c))" by (simp_all add: r(2))
qed

lemma hold_step:
  assumes "pay_rpc (svc_HoldFunds svc req) s = (q, s')"
  shows "s_db s' = s_db s" "known_but look {} (s_pay s) (s_pay s')"
    "q = Inr x \<Longrightarrow> look (s_pay s) (php_id x) = None \<and> look (s_pay s') (php_id x)
       = Some (StillHeld (phr_amount req, key (phr_wallet_id req), key (phr_contract_id req)))"
proof -
  obtain r where r: "svc_HoldFunds svc req (s_pay s) = (r, s_pay s')" "s_db s' = s_db s"
    "q = Inr x \<longrightarrow> r = Inr x"
    using assms(1) by (auto simp: pay_rpc_def split: prod.splits sum.splits)
  with hold_law [OF r(1)] show "s_db s' = s_db s" "known_but look {} (s_pay s) (s_pay s')"
    "q = Inr x \<Longrightarrow> look (s_pay s) (php_id x) = None \<and> look (s_pay s') (php_id x)
       = Some (StillHeld (phr_amount req, key (phr_wallet_id req), key (phr_contract_id req)))"
    by (auto simp: known_but_def)
qed

end

section \<open>The operations of the saga\<close>

lemma sys_steps_inv: "(sys_step look key)\<^sup>*\<^sup>* x y \<Longrightarrow> saga_inv look key x \<Longrightarrow> saga_inv look key y"
  by (induction rule: rtranclp_induct) (auto intro: sys_step_inv)

lemma sys_steps_trans:
  "(sys_step look key)\<^sup>*\<^sup>* x y \<Longrightarrow> sys_step look key y z \<or> z = y \<Longrightarrow> (sys_step look key)\<^sup>*\<^sup>* x z"
  by (auto intro: rtranclp.rtrancl_into_rtrancl)

text \<open>What a contract in a final status says about its hold.\<close>

definition final_ok ::
  "('p \<Rightarrow> string \<Rightarrow> 'w hold_state option) \<Rightarrow> (string \<Rightarrow> 'w) \<Rightarrow> 'p \<Rightarrow> string \<Rightarrow> Contract \<Rightarrow> bool" where
  "final_ok look key p final c \<longleftrightarrow>
     (final = StatusCompleted \<longrightarrow> hold_is look p c (PaidOut (terms key c) (key (c_freelancer_wallet_id c)))) \<and>
     (final = StatusDeclined \<longrightarrow> hold_is look p c (GivenBack (terms key c)))"

text \<open>Claim, settle, finish: the shape of both operations. \<open>rpc\<close> is the call to payments.\<close>

lemma settle_steps:
  fixes s :: "(cdb, string, 'p) saga_sess"
  assumes run: "bnd (saga_claim i first mid) (\<lambda>c. case c_hold_id c of None \<Rightarrow> raise ErrNoHold
      | Some hold \<Rightarrow> bnd (pay_rpc (rpc hold c)) (\<lambda>_. saga_finish k i c mid final event)) s = (q, s')"
    and inv: "saga_inv look key (sys s)"
    and edges: "(first, mid, []) \<in> set moves" "(mid, final, [event]) \<in> set moves"
    and rpc: "\<And>hold c c' q1 s1 s2. pay_rpc (rpc hold c) s1 = (q1, s2) \<Longrightarrow> saga_inv look key (sys s1) \<Longrightarrow>
      c' \<in> set (contracts (s_db s1)) \<Longrightarrow> c_status c' = mid \<Longrightarrow> c_hold_id c' = Some hold \<Longrightarrow>
      c_freelancer_wallet_id c' = c_freelancer_wallet_id c \<Longrightarrow>
      s_db s2 = s_db s1 \<and> sys_step look key (sys s1) (sys s2) \<and>
      (q1 = Inr () \<longrightarrow> final_ok look key (s_pay s2) final c')"
  shows "(sys_step look key)\<^sup>*\<^sup>* (sys s) (sys s') \<and> (q = Inr () \<longrightarrow> in_status (s_db s') i final)"
proof (cases rule: bnd_eqE [OF run])
  have mid: "mid \<noteq> StatusCompleted" "mid \<noteq> StatusDeclined" using edges(1) by (auto simp: moves_def)
  {
    case (1 e)
    with saga_claim_step(1) [OF 1(1) edges(1) mid inv] show ?thesis by auto
  next
    case (2 c s1)
    note claim = saga_claim_step [OF 2(1) edges(1) mid inv]
    have s1: "(sys_step look key)\<^sup>*\<^sup>* (sys s) (sys s1)" using claim(1) by auto
    have inv1: "saga_inv look key (sys s1)" using s1 inv by (rule sys_steps_inv)
    show ?thesis
    proof (cases "c_hold_id c")
      case None
      with 2(2) s1 show ?thesis by (auto simp: raise_def)
    next
      case (Some hold)
      from claim(2) Some obtain c' where c': "c' \<in> set (contracts (s_db s1))" "c_id c' = i"
        "c_status c' = mid" "c_hold_id c' = Some hold"
        "c_freelancer_wallet_id c' = c_freelancer_wallet_id c" by (auto simp: stands_for_def)
      from 2(2) Some have "bnd (pay_rpc (rpc hold c)) (\<lambda>_. saga_finish k i c mid final event) s1 = (q, s')"
        by simp
      then show ?thesis
      proof (cases rule: bnd_eqE)
        case (stop e)
        from rpc [OF stop(1) inv1 c'(1,3,4,5)] s1 stop(2) show ?thesis by (auto intro: sys_steps_trans)
      next
        case (go x s2)
        note settled = rpc [OF go(1) inv1 c'(1,3,4,5)]
        have s2: "(sys_step look key)\<^sup>*\<^sup>* (sys s) (sys s2)" using s1 settled by (auto intro: sys_steps_trans)
        then have inv2: "saga_inv look key (sys s2)" using inv by (rule sys_steps_inv)
        have "final_ok look key (s_pay s2) final c''" if "c'' \<in> set (contracts (s_db s2))" "c_id c'' = i" for c''
          using same_contract [OF saga_invD(1) [OF inv1], of c'' c'] that c' settled by simp
        with saga_finish_step [OF go(2) edges(2) inv2] s2 show ?thesis
          by (auto simp: final_ok_def intro: sys_steps_trans)
      qed
    qed
  }
qed

context payments_interface
begin

lemma CompleteContract_steps:
  assumes "saga_CompleteContract k svc i s = (q, s')" "saga_inv look key (sys s)"
  shows "(sys_step look key)\<^sup>*\<^sup>* (sys s) (sys s') \<and> (q = Inr () \<longrightarrow> in_status (s_db s') i StatusCompleted)"
  using assms(1) [unfolded saga_CompleteContract_def] assms(2)
  by (rule settle_steps [where rpc = "\<lambda>hold c. svc_TransferFunds svc hold (c_freelancer_wallet_id c)"])
    (auto simp: moves_def final_ok_def dest: transfer_step)

lemma CancelContract_steps:
  assumes "saga_CancelContract k svc i s = (q, s')" "saga_inv look key (sys s)"
  shows "(sys_step look key)\<^sup>*\<^sup>* (sys s) (sys s') \<and> (q = Inr () \<longrightarrow> in_status (s_db s') i StatusDeclined)"
  using assms(1) [unfolded saga_CancelContract_def] assms(2)
  by (rule settle_steps [where rpc = "\<lambda>hold c. svc_ReleaseFunds svc hold"])
    (auto simp: moves_def final_ok_def dest: release_step)

end

section \<open>CreateContract\<close>

lemma number_milestones_run:
  assumes "number_milestones i ms (s :: (cdb, string, 'p) saga_sess) = (q, s')"
  shows "\<exists>ms'. q = Inr ms' \<and> list_all (\<lambda>m. m_contract_id m = i) ms' \<and>
    s_db s' = s_db s \<and> s_tx s' = s_tx s \<and> s_pay s' = s_pay s"
  using assms
proof (induction ms arbitrary: s q s')
  case (Cons m ms)
  from Cons.prems show ?case
  proof (cases rule: bnd_eqE [OF Cons.prems [unfolded number_milestones.simps]])
    case (1 e)
    then show ?thesis by (auto elim: draw_id_InlE)
  next
    case (2 x s1)
    from 2(1) have s1: "s_db s1 = s_db s" "s_tx s1 = s_tx s" "s_pay s1 = s_pay s"
      by (auto elim!: draw_id_InrE dest!: same_env_sagaD)
    obtain q1 s2 where rest: "number_milestones i ms s1 = (q1, s2)" by fastforce
    from Cons.IH [OF rest] rest 2(2) s1 show ?thesis by (auto simp: bnd_def ret_def)
  qed
qed auto

lemma CreateBatch_run:
  assumes "milestone_CreateBatch stmt ms (s :: (cdb, string, 'p) saga_sess) = (q, s')"
    and "list_all (\<lambda>m. m_contract_id m = i) ms"
  shows "s_db s' = s_db s \<and> s_pay s' = s_pay s \<and>
    (q = Inr () \<longrightarrow> (\<exists>ms'. list_all (\<lambda>m. m_contract_id m = i \<and> 0 < sint (m_amount m)) ms' \<and>
       s_tx s' = (s_tx s)\<lparr>milestones := milestones (s_tx s) @ ms'\<rparr>))"
  using assms
proof (induction ms arbitrary: s)
  case Nil
  then show ?case by (auto intro!: exI [of _ "[]"])
next
  case (Cons m ms)
  show ?case
  proof (cases rule: bnd_eqE [OF Cons.prems(1) [unfolded milestone_CreateBatch.simps]])
    case (1 e)
    then show ?thesis by (auto elim!: stmt_InlE dest!: same_env_sagaD)
  next
    case (2 x s1)
    from 2(1) obtain u where ins: "milestone_insert m (s_now s) u (s_tx s) = Inr (x, s_tx s1)"
      "s_db s1 = s_db s" "s_pay s1 = s_pay s" by (auto elim!: stmt_InrE dest!: same_env_sagaD)
    let ?m = "m\<lparr>m_created_at := s_now s, m_updated_at := s_now s\<rparr>"
    from ins(1) have m: "s_tx s1 = (s_tx s)\<lparr>milestones := milestones (s_tx s) @ [?m]\<rparr>" "0 < sint (m_amount m)"
      by (auto simp: milestone_insert_def word_sle_eq split: if_splits)
    from Cons.prems(2) have rest: "list_all (\<lambda>m. m_contract_id m = i) ms" "m_contract_id m = i" by simp_all
    note IH = Cons.IH [OF 2(2) rest(1)]
    show ?thesis
    proof (cases "q = Inr ()")
      case True
      with IH obtain ms' where "list_all (\<lambda>m. m_contract_id m = i \<and> 0 < sint (m_amount m)) ms'"
        "s_tx s' = (s_tx s1)\<lparr>milestones := milestones (s_tx s1) @ ms'\<rparr>" by blast
      with IH ins m rest show ?thesis by (auto intro!: exI [of _ "?m # ms'"])
    qed (use IH ins in simp)
  qed
qed

text \<open>A contract that has just been created: pending, without a hold, nothing said of it.\<close>

definition opened_as :: "cdb \<Rightarrow> Contract \<Rightarrow> bool" where
  "opened_as d c \<longleftrightarrow> (\<exists>r\<in>set (contracts d). same_deal c r \<and> c_status r = StatusPending) \<and>
     events EventContractCancelled (c_id c) (contract_events d) = 0"

lemma contract_Create_InrE:
  assumes "contract_Create c now u d = Inr (x, d')"
  obtains "d' = d\<lparr>contracts := contracts d
      @ [c\<lparr>c_hold_id := None, c_created_at := now, c_updated_at := now\<rparr>]\<rparr>"
    "c_id c \<notin> c_id ` set (contracts d)" "0 < sint (c_amount c)"
  using assms by (auto simp: contract_Create_def sel_None_iff word_sle_eq split: if_splits)

lemma no_events:
  assumes "saga_inv look key (d, p)" "i \<notin> c_id ` set (contracts d)"
  shows "events t i (contract_events d) = 0"
proof -
  have "e_aggregate_id e \<noteq> i" if "e \<in> set (contract_events d)" for e
    using saga_invD(4) [OF assms(1)] that assms(2) by metis
  then show ?thesis by (simp add: events_def filter_empty_conv)
qed

lemma opened_step:
  assumes inv: "saga_inv look key (d, p)"
    and new: "contract_Create c now u d = Inr (x, d1)" "c_status c = StatusPending"
    and ms: "list_all (\<lambda>m. m_contract_id m = c_id c \<and> 0 < sint (m_amount m)) ms"
    and d': "d' = d1\<lparr>milestones := milestones d1 @ ms\<rparr>"
  shows "sys_step look key (d, p) (d', p) \<and> opened_as d' c"
  using new(1)
proof (cases rule: contract_Create_InrE)
  case 1
  let ?r = "c\<lparr>c_hold_id := None, c_created_at := now, c_updated_at := now\<rparr>"
  have d'': "d' = d\<lparr>contracts := contracts d @ [?r], milestones := milestones d @ ms\<rparr>"
    by (simp add: d' 1(1))
  have "sys_step look key (d, p) (d', p)"
    unfolding d'' by (rule sys_step.opened) (use 1 new(2) ms in simp_all)
  moreover have "opened_as d' c"
    using no_events [OF inv 1(2)] new(2) by (simp add: opened_as_def d'' same_deal_def)
  ultimately show ?thesis ..
qed

lemma milestones_run:
  assumes "(if ms = [] then ret () else bnd (number_milestones i ms) (\<lambda>ms.
      map_err ErrDatabase (milestone_CreateBatch stmt ms))) (s :: (cdb, string, 'p) saga_sess) = (q, s')"
  shows "s_db s' = s_db s \<and> s_pay s' = s_pay s \<and> (q = Inr () \<longrightarrow>
    (\<exists>ms'. list_all (\<lambda>m. m_contract_id m = i \<and> 0 < sint (m_amount m)) ms' \<and>
       s_tx s' = (s_tx s)\<lparr>milestones := milestones (s_tx s) @ ms'\<rparr>))"
proof (cases "ms = []")
  case True
  with assms show ?thesis by (auto intro!: exI [of _ "[]"])
next
  case False
  obtain q6 s6 where num: "number_milestones i ms s = (q6, s6)" by fastforce
  from number_milestones_run [OF num] obtain ms' where ms': "q6 = Inr ms'"
    "list_all (\<lambda>m. m_contract_id m = i) ms'" "s_db s6 = s_db s" "s_tx s6 = s_tx s" "s_pay s6 = s_pay s"
    by blast
  obtain q7 where "milestone_CreateBatch stmt ms' s6 = (q7, s')" "q = Inr () \<longrightarrow> q7 = Inr ()"
    using assms False num ms'(1) by (auto simp: bnd_def map_err_def split: prod.splits sum.splits)
  from CreateBatch_run [OF this(1) ms'(2)] this(2) ms'(3-5) show ?thesis by simp
qed

lemma create_insert_step:
  assumes "create_insert c ms (s :: (cdb, string, 'p) saga_sess) = (q, s')" "saga_inv look key (sys s)"
  shows "s_pay s' = s_pay s" "sys s' = sys s \<or> sys_step look key (sys s) (sys s')"
    "q = Inr c' \<Longrightarrow> opened_as (s_db s') c'"
proof -
  have "s_pay s' = s_pay s \<and> (sys s' = sys s \<or> sys_step look key (sys s) (sys s')) \<and>
      (\<forall>c'. q = Inr c' \<longrightarrow> opened_as (s_db s') c')"
  proof (cases rule: saga_bracket [OF assms(1) [unfolded create_insert_def]])
    case (1 e)
    then show ?thesis by simp
  next
    case (2 s1 s2)
    from 2(1) show ?thesis
    proof (cases rule: bnd_eqE)
      case (stop e)
      then show ?thesis by (auto elim: draw_id_InlE)
    next
      case (go i s3)
      let ?c = "c\<lparr>c_id := i, c_status := StatusPending, c_currency := ''USD''\<rparr>"
      let ?batch = "if ms = [] then ret () else bnd (number_milestones i ms) (\<lambda>ms.
            map_err ErrDatabase (milestone_CreateBatch stmt ms))"
      from go(1) 2 have s3: "s_db s3 = s_db s" "s_tx s3 = s_db s" "s_pay s3 = s_pay s"
        by (auto elim!: draw_id_InrE dest!: same_env_sagaD)
      from go(2) have "bnd (map_err ErrDatabase (stmt (contract_Create ?c))) (\<lambda>_. bnd ?batch (\<lambda>_.
          bnd (map_err ErrDatabase commit_tx) (\<lambda>_. ret ?c))) s3 = (q, s2)"
        by (simp only: Let_def)
      then show ?thesis
      proof (cases rule: bnd_eqE)
        case (stop e)
        with s3 2 show ?thesis by (auto elim!: map_err_InlE stmt_InlE dest!: same_env_sagaD)
      next
        case made: (go x s4)
        from made(1) obtain u where row: "contract_Create ?c (s_now s3) u (s_tx s3) = Inr (x, s_tx s4)"
          and s4: "s_db s4 = s_db s" "s_pay s4 = s_pay s"
          using s3 by (auto elim!: map_err_InrE stmt_InrE dest!: same_env_sagaD)
        obtain q5 s5 where batch: "?batch s4 = (q5, s5)" by fastforce
        note s5 = milestones_run [OF batch]
        show ?thesis
        proof (cases "q5 = Inr ()")
          case False
          then obtain e where "q5 = Inl e" by (cases q5) auto
          with made(2) batch have "s2 = s5" "q = Inl e" by (simp_all add: bnd_def [of ?batch])
          with s5 s4 2 show ?thesis by simp
        next
          case True
          with s5 obtain ms' where ms': "list_all (\<lambda>m. m_contract_id m = i \<and> 0 < sint (m_amount m)) ms'"
            "s_tx s5 = (s_tx s4)\<lparr>milestones := milestones (s_tx s4) @ ms'\<rparr>" by blast
          have tx: "sys_step look key (sys s) (s_tx s5, s_pay s) \<and> opened_as (s_tx s5) ?c"
            using assms(2) row [unfolded s3(2)] _ _ ms'(2) by (rule opened_step) (use ms'(1) in simp_all)
          from True made(2) batch obtain q8 where c: "map_err ErrDatabase commit_tx s5 = (q8, s2)"
            "\<forall>c'. q = Inr c' \<longrightarrow> q8 = Inr () \<and> c' = ?c"
            by (auto simp: bnd_def ret_def split: prod.splits sum.splits)
          have "s_pay s' = s_pay s" "s_db s' = s_tx s5 \<or> s_db s' = s_db s \<and> q8 \<noteq> Inr ()"
            using commit_saga [OF c(1)] s5 s4 2 by simp_all
          with tx c(2) show ?thesis by (elim disjE) (simp_all, blast+)
        qed
      qed
    qed
  qed
  then show "s_pay s' = s_pay s" "sys s' = sys s \<or> sys_step look key (sys s) (sys s')"
    "q = Inr c' \<Longrightarrow> opened_as (s_db s') c'" by blast+
qed

lemma create_compensate_step:
  assumes "create_compensate k c (s :: (cdb, string, 'p) saga_sess) = (q, s')"
    and inv: "saga_inv look key (sys s)" and "opened_as (s_db s) c"
  shows "s_pay s' = s_pay s" "sys s' = sys s \<or> sys_step look key (sys s) (sys s')" "\<exists>x. q = Inr x"
proof -
  obtain r where r: "r \<in> set (contracts (s_db s))" "c_id r = c_id c" "c_status r = StatusPending"
    "events EventContractCancelled (c_id r) (contract_events (s_db s)) = 0"
    using assms(3) by (auto simp: opened_as_def same_deal_def)
  obtain q1 s1 where s1: "begin_tx s = (q1, s1)" by fastforce
  obtain q2 s2 where s2: "contract_UpdateStatus stmt (c_id c) StatusPending StatusCancelled s1 = (q2, s2)" by fastforce
  obtain q3 s3 where s3: "emit (c_id c) EventContractCancelled (contract_json k c) s2 = (q3, s3)" by fastforce
  obtain q4 s4 where s4: "commit_tx s3 = (q4, s4)" by fastforce
  note b = begin_tx_saga [OF s1]
  have "s_pay s' = s_pay s \<and> (sys s' = sys s \<or> sys_step look key (sys s) (sys s')) \<and> (\<exists>x. q = Inr x)"
  proof (cases "q1 = Inr ()")
    case False
    then obtain e where "q1 = Inl e" by (cases q1) auto
    with assms(1) s1 b show ?thesis by (auto simp: create_compensate_def bnd_def attempt_def)
  next
    case True
    with assms(1) s1 s2 s3 s4 have s': "s' = s4" "q = Inr ()"
      by (simp_all add: create_compensate_def bnd_def attempt_def)
    note b = b(1,2) b(3) [OF True]
    obtain cs now where cs: "s_tx s2 = (s_db s)\<lparr>contracts := cs\<rparr>" "s_db s2 = s_db s" "s_pay s2 = s_pay s"
      "cs \<in> {contracts (s_db s), advance (c_id r) StatusPending StatusCancelled now (contracts (s_db s))}"
    proof (cases q2)
      case (Inl e)
      with UpdateStatus_tx [OF s2] b show thesis by (intro that [of "contracts (s_db s)"]) simp_all
    next
      case (Inr x)
      with UpdateStatus_tx [OF s2] b r(2) show thesis by (auto intro: that)
    qed
    have dist: "distinct (map e_id (contract_events (s_tx s2)))"
      using cs(1) saga_invD(3) [OF inv] by simp
    obtain es where es: "s_tx s3 = (s_db s)\<lparr>contracts := cs,
        contract_events := contract_events (s_db s) @ es\<rparr>" "s_db s3 = s_db s" "s_pay s3 = s_pay s"
      "tells (s_db s) (c_id r) [EventContractCancelled] es \<or> es = []"
    proof (cases q3)
      case (Inl e)
      with emit_tx [OF s3 dist] cs show thesis by (intro that [of "[]"]) simp_all
    next
      case (Inr x)
      with emit_tx [OF s3 dist] cs r(2) show thesis by (auto intro: that)
    qed
    have "sys_step look key (sys s) (s_tx s3, s_pay s)"
      unfolding es(1) using r(1,3,4) cs(4) es(4) by (rule sys_step.compensated)
    with commit_tx_saga [OF s4] es s' show ?thesis by auto
  qed
  then show "s_pay s' = s_pay s" "sys s' = sys s \<or> sys_step look key (sys s) (sys s')" "\<exists>x. q = Inr x"
    by blast+
qed

lemma SetHoldID_tx:
  assumes "map_err ErrDatabase (stmt (contract_SetHoldID i hold)) (s :: (cdb, string, 'p) saga_sess) = (q, s')"
  shows "s_db s' = s_db s \<and> s_pay s' = s_pay s \<and>
    (q = Inr () \<longrightarrow> (\<exists>now. s_tx s' = (s_tx s)\<lparr>contracts := set_hold i hold now (contracts (s_tx s))\<rparr>))"
proof (cases q)
  case (Inl e)
  with assms show ?thesis by (auto elim!: map_err_InlE stmt_InlE dest!: same_env_sagaD)
next
  case (Inr x)
  with assms obtain u where "contract_SetHoldID i hold (s_now s) u (s_tx s) = Inr (x, s_tx s')"
    "s_db s' = s_db s" "s_pay s' = s_pay s"
    by (auto elim!: map_err_InrE stmt_InrE dest!: same_env_sagaD)
  moreover from this(1) have "s_tx s' = (s_tx s)\<lparr>contracts := set_hold i hold (s_now s) (contracts (s_tx s))\<rparr>"
    by (auto simp: contract_SetHoldID_def set_hold_def split: if_splits)
  ultimately show ?thesis by blast
qed

lemma set_hold_in:
  assumes "r \<in> set cs" "c_id r = i"
  shows "\<exists>c\<in>set (set_hold i hold now cs). same_deal r c \<and> c_status c = c_status r \<and> c_hold_id c = Some hold"
proof -
  let ?f = "\<lambda>c. if c_id c = i then (if c_hold_id c = Some hold then c
                  else c\<lparr>c_hold_id := Some hold, c_updated_at := now\<rparr>) else c"
  have "?f r \<in> set (set_hold i hold now cs)"
    unfolding set_hold_def upd_def set_map using assms(1) by (rule imageI)
  with assms(2) show ?thesis by (intro bexI [of _ "?f r"]) (simp_all add: same_deal_def)
qed

text \<open>A contract whose hold is in place.\<close>

definition holds_with :: "cdb \<Rightarrow> Contract \<Rightarrow> string \<Rightarrow> bool" where
  "holds_with d c hold \<longleftrightarrow> (\<exists>r\<in>set (contracts d). same_deal c r \<and>
     c_status r = StatusHoldPending \<and> c_hold_id r = Some hold)"

lemma create_confirm_step:
  assumes "create_confirm k c hold (s :: (cdb, string, 'p) saga_sess) = (q, s')"
    and inv: "saga_inv look key (sys s)" and "opened_as (s_db s) c"
    and hold: "look (s_pay s) hold = Some (StillHeld (terms key c))" "Some hold \<notin> c_hold_id ` set (contracts (s_db s))"
  shows "sys s' = sys s \<and> q \<noteq> Inr () \<or>
    sys_step look key (sys s) (sys s') \<and> holds_with (s_db s') c hold"
proof (cases rule: saga_bracket [OF assms(1) [unfolded create_confirm_def]])
  case (1 e)
  then show ?thesis by simp
next
  case (2 s1 s2)
  obtain r where r: "r \<in> set (contracts (s_db s))" "c_id r = c_id c" "c_status r = StatusPending"
    "events EventContractCancelled (c_id r) (contract_events (s_db s)) = 0"
    "look (s_pay s) hold = Some (StillHeld (terms key r))" "same_deal c r"
    using assms(3) hold(1) by (auto simp: opened_as_def terms_def same_deal_def)
  show ?thesis
  proof (cases rule: bnd_eqE [OF 2(1)])
    case (1 e)
    with UpdateStatus_tx [OF 1(1)] 2 show ?thesis by simp
  next
    case upd: (2 x s3)
    from UpdateStatus_tx [OF upd(1)] 2 obtain c1 now where s3:
      "c1 \<in> set (contracts (s_db s))" "c_id c1 = c_id c" "s_db s3 = s_db s" "s_pay s3 = s_pay s"
      "s_tx s3 = (s_db s)\<lparr>contracts := advance (c_id c) StatusPending StatusHoldPending now (contracts (s_db s))\<rparr>"
      by auto
    show ?thesis
    proof (cases rule: bnd_eqE [OF upd(2)])
      case (1 e)
      with SetHoldID_tx [OF 1(1)] 2 s3 show ?thesis by simp
    next
      case set: (2 y s4)
      from SetHoldID_tx [OF set(1)] s3 obtain now' where s4: "s_db s4 = s_db s" "s_pay s4 = s_pay s"
        "s_tx s4 = (s_db s)\<lparr>contracts := set_hold (c_id c) hold now'
           (advance (c_id c) StatusPending StatusHoldPending now (contracts (s_db s)))\<rparr>" by auto
      have "distinct (map e_id (contract_events (s_tx s4)))"
        using s4(3) saga_invD(3) [OF inv] by simp
      from emit_commit [OF set(2) this] s4 2 consider "sys s' = sys s" "q \<noteq> Inr ()"
        | es where "tells (s_db s) (c_id c) [EventContractCreated] es" "s_pay s' = s_pay s"
            "s_db s' = (s_db s)\<lparr>contracts := contracts (s_tx s4), contract_events := contract_events (s_db s) @ es\<rparr>"
        by auto
      then show ?thesis
      proof cases
        case (2 es)
        have cs: "contracts (s_tx s4) = set_hold (c_id c) hold now'
            (advance (c_id c) StatusPending StatusHoldPending now (contracts (s_db s)))"
          by (simp add: s4(3))
        have "sys_step look key (sys s) (sys s')"
          unfolding 2(2,3) cs r(2) [symmetric]
          by (rule sys_step.confirmed) (use r hold 2(1) in simp_all)
        moreover have "r\<lparr>c_status := StatusHoldPending, c_updated_at := now\<rparr>
            \<in> set (advance (c_id c) StatusPending StatusHoldPending now (contracts (s_db s)))"
          using r(1-3) by (rule advance_in)
        from set_hold_in [OF this, of "c_id c" hold now'] r(2,6) have "holds_with (s_db s') c hold"
          unfolding holds_with_def 2(3) by (auto simp: cs same_deal_def)
        ultimately show ?thesis by simp
      qed simp
    qed
  qed
qed

context payments_interface
begin

lemma CreateContract_steps:
  assumes "saga_CreateContract k svc c ms s = (q, s')" "saga_inv look key (sys s)"
  shows "(sys_step look key)\<^sup>*\<^sup>* (sys s) (sys s') \<and>
    (\<forall>c'. q = Inr c' \<longrightarrow> (\<exists>h. c_hold_id c' = Some h \<and> holds_with (s_db s') c' h))"
proof (cases rule: bnd_eqE [OF assms(1) [unfolded saga_CreateContract_def]])
  case (1 e)
  from 1(1) obtain e' where "create_insert c ms s = (Inl e', s')" by (auto elim: map_err_InlE)
  from create_insert_step(2) [OF this assms(2)] 1(2) show ?thesis by auto
next
  case (2 c1 s1)
  from 2(1) have ins: "create_insert c ms s = (Inr c1, s1)" by (auto elim: map_err_InrE)
  note open1 = create_insert_step [OF ins assms(2)]
  have steps1: "(sys_step look key)\<^sup>*\<^sup>* (sys s) (sys s1)" using open1(2) by auto
  have inv1: "saga_inv look key (sys s1)" using steps1 assms(2) by (rule sys_steps_inv)
  let ?req = "\<lparr>phr_wallet_id = c_client_wallet_id c1, phr_amount = c_amount c1, phr_contract_id = c_id c1\<rparr>"
  obtain r s2 where rpc: "pay_rpc (svc_HoldFunds svc ?req) s1 = (r, s2)" by fastforce
  note hold = hold_step [OF rpc]
  have steps2: "(sys_step look key)\<^sup>*\<^sup>* (sys s) (sys s2)"
    using steps1 sys_step.holding [OF hold(2), of key "s_db s1"] hold(1) by (auto intro: sys_steps_trans)
  then have inv2: "saga_inv look key (sys s2)" using assms(2) by (rule sys_steps_inv)
  have opened2: "opened_as (s_db s2) c1" using open1(3) hold(1) by simp
  show ?thesis
  proof (cases r)
    case (Inl e)
    obtain q3 s3 where comp: "create_compensate k c1 s2 = (q3, s3)" by fastforce
    note c3 = create_compensate_step [OF comp inv2 opened2]
    from 2(2) rpc comp Inl c3(3) have "s' = s3" "\<forall>c'. q \<noteq> Inr c'"
      by (auto simp: bnd_def attempt_def map_err_def raise_def)
    with steps2 c3(2) show ?thesis by (auto intro: sys_steps_trans)
  next
    case (Inr x)
    have look: "look (s_pay s2) (php_id x) = Some (StillHeld (terms key c1))"
      using hold(3) [OF Inr] by (simp add: terms_def)
    have "Some (php_id x) \<notin> c_hold_id ` set (contracts (s_db s2))"
    proof
      assume "Some (php_id x) \<in> c_hold_id ` set (contracts (s_db s2))"
      then obtain y where "y \<in> set (contracts (s_db s1))" "c_hold_id y = Some (php_id x)"
        using hold(1) by auto
      with saga_invD(7) [OF inv1, of y] hold(3) [OF Inr] show False by (auto simp: money_ok_def)
    qed
    note confirm = create_confirm_step [OF _ inv2 opened2 look this]
    obtain q3 s3 where conf: "create_confirm k c1 (php_id x) s2 = (q3, s3)" by fastforce
    from 2(2) rpc conf Inr have s': "s' = s3"
      and q: "\<forall>c'. q = Inr c' \<longrightarrow> q3 = Inr () \<and> same_deal c1 c' \<and> c_hold_id c' = Some (php_id x)"
      by (auto simp: same_deal_def bnd_def attempt_def map_err_def ret_def split: sum.splits prod.splits)
    have "(sys_step look key)\<^sup>*\<^sup>* (sys s) (sys s')"
      using sys_steps_trans [OF steps2, of "sys s3"] confirm [OF conf] unfolding s' by blast
    moreover have "holds_with (s_db s') c' (php_id x)" if "q = Inr c'" for c'
      using q that confirm [OF conf] unfolding s' by (auto simp: holds_with_def same_deal_def)
    ultimately show ?thesis using q by blast
  qed
qed

end

section \<open>The consumer and the handlers\<close>

lemma dispatch_step:
  assumes "dispatch k subject i (s :: (cdb, string, 'p) saga_sess) = (q, s')" "saga_inv look key (sys s)"
  shows "sys s' = sys s \<or> sys_step look key (sys s) (sys s')"
proof -
  consider (held) "saga_HandlePaymentHeld i s = (q, s')" | (failed) "saga_HandlePaymentFailed k i s = (q, s')"
    | (none) "s' = s"
    using assms(1) by (auto simp: dispatch_def split: if_splits)
  then show ?thesis
  proof cases
    case held
    from update_step [OF held [unfolded saga_HandlePaymentHeld_def] _ _ _ assms(2)] show ?thesis
      by (auto simp: moves_def)
  next
    case failed
    from saga_move_step [OF failed [unfolded saga_HandlePaymentFailed_def] _ _ _ assms(2)] show ?thesis
      by (auto simp: moves_def)
  qed simp
qed

lemma consume_step:
  assumes "consume k m (s :: (cdb, string, 'p) saga_sess) = (v, s')" "saga_inv look key (sys s)"
  shows "sys s' = sys s \<or> sys_step look key (sys s) (sys s')"
proof -
  obtain subject data where m: "m = (subject, data)" by fastforce
  from assms(1) consider "s' = s" | i q where "dispatch k subject i s = (q, s')"
    by (auto simp: consume_def m split: option.splits if_splits prod.splits sum.splits)
  then show ?thesis using dispatch_step [OF _ assms(2)] by cases auto
qed

lemma consume_all_steps:
  assumes "consume_all k ms (s :: (cdb, string, 'p) saga_sess) = (vs, s')" "saga_inv look key (sys s)"
  shows "(sys_step look key)\<^sup>*\<^sup>* (sys s) (sys s')"
  using assms
proof (induction ms arbitrary: s vs)
  case (Cons m ms)
  obtain v s1 where one: "consume k m s = (v, s1)" by fastforce
  obtain vs' where rest: "consume_all k ms s1 = (vs', s')"
    using Cons.prems(1) one by (auto split: prod.splits)
  have "(sys_step look key)\<^sup>*\<^sup>* (sys s) (sys s1)" using consume_step [OF one Cons.prems(2)] by auto
  moreover from this Cons.prems(2) have "saga_inv look key (sys s1)" by (rule sys_steps_inv)
  ultimately show ?case using Cons.IH [OF rest] by auto
qed simp

text \<open>An action's reply, and the rows it leaves.\<close>

lemma handle_action_run:
  assumes "handle_action k op conflict failure i (s :: (cdb, string, 'p) saga_sess) = (q, s')"
  obtains (early) "sys s' = sys s" "\<exists>e. q = Inl (lookup_reply e)"
  | (refused) s1 e where "sys s1 = sys s" "op i s1 = (Inl e, s')"
      "q = Inl (if e = ErrStatusConflict then error_resp 409 conflict else failure)"
  | (finished) s1 s2 where "sys s1 = sys s" "op i s1 = (Inr (), s2)" "sys s' = sys s2"
      "q = Inl internal_error \<or> (\<exists>c. q = Inr (Resp 200 (contract_json k c)) \<and>
         c \<in> set (contracts (s_db s')) \<and> c_id c = i)"
proof (cases rule: bnd_eqE [OF assms [unfolded handle_action_def]])
  case (1 e)
  from 1(1) obtain e' where "contract_GetByID auto_stmt i s = (Inl e', s')" "e = lookup_reply e'"
    by (auto elim: map_err_InlE)
  with GetByID_auto(1,2) [OF this(1)] 1(2) show thesis by (intro early) auto
next
  case (2 c s1)
  from 2(1) have get: "contract_GetByID auto_stmt i s = (Inr c, s1)" by (auto elim: map_err_InrE)
  have s1: "sys s1 = sys s" using GetByID_auto(1,2) [OF get] by simp
  show thesis
  proof (cases rule: bnd_eqE [OF 2(2)])
    case (1 e)
    from 1(1) obtain e' where "op i s1 = (Inl e', s')"
      "e = (if e' = ErrStatusConflict then error_resp 409 conflict else failure)"
      by (auto elim: map_err_InlE)
    with s1 1(2) show thesis by (intro refused [of s1 e']) auto
  next
    case run: (2 u s2)
    from run(1) have op: "op i s1 = (Inr (), s2)" by (auto elim: map_err_InrE)
    show thesis
    proof (cases rule: bnd_eqE [OF run(2)])
      case (1 e)
      from 1(1) obtain e' where "contract_GetByID auto_stmt i s2 = (Inl e', s')" "e = internal_error"
        by (auto elim: map_err_InlE)
      with GetByID_auto(1,2) [OF this(1)] 1(2) s1 op show thesis by (intro finished [of s1 s2]) auto
    next
      case fin: (2 c2 s3)
      from fin(1) have get2: "contract_GetByID auto_stmt i s2 = (Inr c2, s3)" by (auto elim: map_err_InrE)
      from fin(2) have "s' = s3" "q = Inr (Resp 200 (contract_json k c2))" by simp_all
      with GetByID_auto [OF get2] s1 op show thesis by (intro finished [of s1 s2]) auto
    qed
  qed
qed

end
