(* ===== verification/ContractsOutbox.thy ===== *)
theory ContractsOutbox
  imports ContractsStore
begin

text \<open>
  The publisher of the contracts service (outbox_publisher.go), which repeats the one of
  pkg/outbox over the MySQL store. The store keeps the same contract, so the lemmas of the
  locale \<open>outbox_store\<close> apply to it.
\<close>

text \<open>\<open>NewOutboxPublisher\<close> fixes the batch size.\<close>

definition OutboxPublisher_batch :: int where
  "OutboxPublisher_batch = 100"

definition OutboxPublisher_PublishBatch ::
  "'n publish \<Rightarrow> string set \<Rightarrow> ((cdb, string, 'n) pub_sess, db_err, unit) prog" where
  "OutboxPublisher_PublishBatch pub locked =
     bnd begin_tx (\<lambda>_. defer_rollback (
     bnd (stmt (FetchUnpublished MySQLOutboxStore locked OutboxPublisher_batch)) (\<lambda>entries.
     if entries = [] then ret ()
     else
       bnd (publish_each pub entries) (\<lambda>published.
       bnd (if published \<noteq> [] then stmt (MarkPublished MySQLOutboxStore published) else ret ()) (\<lambda>_.
       commit_tx)))))"

fun OutboxPublisher_Run ::
  "'n publish \<Rightarrow> string set list \<Rightarrow> (cdb, string, 'n) pub_sess \<Rightarrow> (cdb, string, 'n) pub_sess" where
  "OutboxPublisher_Run pub [] s = s"
| "OutboxPublisher_Run pub (locked # ticks) s =
     OutboxPublisher_Run pub ticks (snd (OutboxPublisher_PublishBatch pub locked s))"

interpretation contracts_outbox: outbox_store MySQLOutboxStore contract_events "\<lambda>d. d\<lparr>contract_events := []\<rparr>"
  by unfold_locales
    (auto simp: MySQLOutboxStore_def mysql_Insert_def mysql_FetchUnpublished_def mysql_MarkPublished_def
      split: if_splits)

lemma OutboxPublisher_is_PublishBatch:
  "OutboxPublisher_PublishBatch pub locked = PublishBatch MySQLOutboxStore pub batch_size locked"
  by (simp add: OutboxPublisher_PublishBatch_def PublishBatch_def OutboxPublisher_batch_def batch_size_def)

lemma OutboxPublisher_is_Run: "OutboxPublisher_Run pub ticks s = Run MySQLOutboxStore pub ticks s"
  by (induction ticks arbitrary: s) (simp_all add: OutboxPublisher_is_PublishBatch)

end
