(* ===== verification/ContractsService.thy ===== *)
theory ContractsService
  imports ContractsRefine ContractsOutbox
begin

text \<open>
  The contracts service as a whole: its requests as one function, and the invariant of theory
  ContractsSpec over everything the service does, whatever payments service it is connected to.
\<close>

datatype contracts_call =
    PostContract "CreateContractRequest option"
  | PostAccept string
  | PostComplete string
  | PostCancel string
  | GetContractBy string
  | GetContracts string string string string

definition contracts_serve ::
  "codec \<Rightarrow> 'p PaymentsService \<Rightarrow> contracts_call \<Rightarrow> (cdb, string, 'p) saga_sess
   \<Rightarrow> response \<times> (cdb, string, 'p) saga_sess" where
  "contracts_serve k svc call = run_handler (case call of
       PostContract bound \<Rightarrow> handle_CreateContract k svc bound
     | PostAccept i \<Rightarrow> handle_AcceptContract k i
     | PostComplete i \<Rightarrow> handle_CompleteContract k svc i
     | PostCancel i \<Rightarrow> handle_CancelContract k svc i
     | GetContractBy i \<Rightarrow> handle_GetContract k i
     | GetContracts client freelancer limit offset \<Rightarrow>
         handle_ListContracts k client freelancer limit offset)"

definition empty_cdb :: cdb where
  "empty_cdb = \<lparr>contracts = [], milestones = [], contract_events = []\<rparr>"

lemma empty_saga_inv: "saga_inv look key (empty_cdb, p)"
  by (simp add: saga_inv_def empty_cdb_def holds_apart_def)

lemma list_reads:
  "contract_List f now u d = Inr (cs, d') \<Longrightarrow> d' = d"
  "contract_Count f now u d = Inr (n, d') \<Longrightarrow> d' = d"
  by (simp_all add: contract_List_def contract_Count_def Let_def split: if_splits)

lemma handle_GetContract_same:
  assumes "handle_GetContract k i (s :: (cdb, string, 'p) saga_sess) = (q, s')"
  shows "sys s' = sys s"
proof (cases rule: bnd_eqE [OF assms [unfolded handle_GetContract_def]])
  case (1 e)
  from 1(1) obtain e' where "contract_GetByID auto_stmt i s = (Inl e', s')" by (auto elim: map_err_InlE)
  from GetByID_auto(1,2) [OF this] show ?thesis by simp
next
  case (2 c s1)
  from 2(1) have "contract_GetByID auto_stmt i s = (Inr c, s1)" by (auto elim: map_err_InrE)
  from GetByID_auto(1,2) [OF this] 2(2) show ?thesis by simp
qed

lemma handle_ListContracts_same:
  assumes "handle_ListContracts k client freelancer l n (s :: (cdb, string, 'p) saga_sess) = (q, s')"
  shows "sys s' = sys s"
proof (cases q)
  case (Inl r)
  from assms [unfolded Inl] show ?thesis
    by (auto simp: handle_ListContracts_def Let_def elim!: prog_elims dest!: list_reads same_env_sagaD)
next
  case (Inr r)
  from assms [unfolded Inr] show ?thesis
    by (auto simp: handle_ListContracts_def Let_def elim!: prog_elims dest!: list_reads same_env_sagaD)
qed

lemma handle_CreateContract_run:
  assumes "handle_CreateContract k svc bound s = (q, s')"
  obtains (invalid) "s' = s" "\<exists>r. q = Inl r \<and> code r = 400"
  | (runs) req q' where "bound = Some req" "\<not> create_missing req"
      "saga_CreateContract k svc (request_contract req) (map request_milestone (cr_milestones req)) s = (q', s')"
      "q = (case q' of Inl e \<Rightarrow> Inl (create_reply e) | Inr c \<Rightarrow> Inr (Resp 201 (contract_json k c)))"
proof (cases "\<exists>req. bound = Some req \<and> \<not> create_missing req")
  case False
  with assms show thesis
    by (intro invalid) (auto simp: handle_CreateContract_def split: option.splits if_splits)
next
  case True
  then obtain req where req: "bound = Some req" "\<not> create_missing req" by blast
  obtain q' s1 where run: "saga_CreateContract k svc (request_contract req)
      (map request_milestone (cr_milestones req)) s = (q', s1)" by fastforce
  with req assms have "s' = s1"
    "q = (case q' of Inl e \<Rightarrow> Inl (create_reply e) | Inr c \<Rightarrow> Inr (Resp 201 (contract_json k c)))"
    by (auto simp: handle_CreateContract_def bnd_def map_err_def ret_def split: sum.splits)
  with req run show thesis by (intro runs) simp_all
qed

context payments_interface
begin

lemma action_steps:
  assumes "handle_action k op conflict failure i s = (q, s')" "saga_inv look key (sys s)"
    and op: "\<And>s1 q1 s2. op i s1 = (q1, s2) \<Longrightarrow> saga_inv look key (sys s1) \<Longrightarrow>
      (sys_step look key)\<^sup>*\<^sup>* (sys s1) (sys s2) \<and> (q1 = Inr () \<longrightarrow> in_status (s_db s2) i final)"
  shows "(sys_step look key)\<^sup>*\<^sup>* (sys s) (sys s') \<and>
    (\<forall>r. q = Inr r \<longrightarrow> (\<exists>c\<in>set (contracts (s_db s')). c_id c = i \<and> c_status c = final \<and>
       r = Resp 200 (contract_json k c)))"
  using assms(1)
proof (cases rule: handle_action_run)
  case early
  then show ?thesis by auto
next
  case (refused s1 e)
  with op [OF refused(2)] assms(2) show ?thesis by simp
next
  case (finished s1 s2)
  from op [OF finished(2)] assms(2) finished(1,3)
  have steps: "(sys_step look key)\<^sup>*\<^sup>* (sys s) (sys s')" and st: "in_status (s_db s') i final" by simp_all
  from sys_steps_inv [OF steps assms(2)] have "distinct (map c_id (contracts (s_db s')))"
    by (rule saga_invD)
  with st finished(4) have "\<forall>r. q = Inr r \<longrightarrow> (\<exists>c\<in>set (contracts (s_db s')). c_id c = i \<and>
      c_status c = final \<and> r = Resp 200 (contract_json k c))"
    by (auto simp: in_status_def dest: same_contract)
  with steps show ?thesis by blast
qed

lemma AcceptContract_steps:
  assumes "saga_AcceptContract k i s = (q, s')" "saga_inv look key (sys s)"
  shows "(sys_step look key)\<^sup>*\<^sup>* (sys s) (sys s') \<and> (q = Inr () \<longrightarrow> in_status (s_db s') i StatusActive)"
  using saga_move_step [OF assms(1) [unfolded saga_AcceptContract_def] _ _ _ assms(2)]
  by (auto simp: moves_def)

lemma handle_Accept_steps:
  assumes "handle_AcceptContract k i s = (q, s')" "saga_inv look key (sys s)"
  shows "(sys_step look key)\<^sup>*\<^sup>* (sys s) (sys s') \<and>
    (\<forall>r. q = Inr r \<longrightarrow> (\<exists>c\<in>set (contracts (s_db s')). c_id c = i \<and> c_status c = StatusActive \<and>
       r = Resp 200 (contract_json k c)))"
  using assms(1) [unfolded handle_AcceptContract_def] assms(2)
  by (rule action_steps) (rule AcceptContract_steps)

lemma handle_Complete_steps:
  assumes "handle_CompleteContract k svc i s = (q, s')" "saga_inv look key (sys s)"
  shows "(sys_step look key)\<^sup>*\<^sup>* (sys s) (sys s') \<and>
    (\<forall>r. q = Inr r \<longrightarrow> (\<exists>c\<in>set (contracts (s_db s')). c_id c = i \<and> c_status c = StatusCompleted \<and>
       r = Resp 200 (contract_json k c)))"
  using assms(1) [unfolded handle_CompleteContract_def] assms(2)
  by (rule action_steps) (rule CompleteContract_steps)

lemma handle_Cancel_steps:
  assumes "handle_CancelContract k svc i s = (q, s')" "saga_inv look key (sys s)"
  shows "(sys_step look key)\<^sup>*\<^sup>* (sys s) (sys s') \<and>
    (\<forall>r. q = Inr r \<longrightarrow> (\<exists>c\<in>set (contracts (s_db s')). c_id c = i \<and> c_status c = StatusDeclined \<and>
       r = Resp 200 (contract_json k c)))"
  using assms(1) [unfolded handle_CancelContract_def] assms(2)
  by (rule action_steps) (rule CancelContract_steps)

text \<open>Every request makes steps of the saga only.\<close>

lemma contracts_serve_steps:
  assumes "contracts_serve k svc call s = (r, s')" "saga_inv look key (sys s)"
  shows "(sys_step look key)\<^sup>*\<^sup>* (sys s) (sys s')"
proof (cases call)
  case (PostContract bound)
  with assms(1) obtain q where q: "handle_CreateContract k svc bound s = (q, s')"
    by (auto simp: contracts_serve_def elim: run_handler_sumE)
  then show ?thesis
    by (cases rule: handle_CreateContract_run) (use CreateContract_steps assms(2) in auto)
next
  case (PostAccept i)
  with assms(1) obtain q where "handle_AcceptContract k i s = (q, s')"
    by (auto simp: contracts_serve_def elim: run_handler_sumE)
  from handle_Accept_steps [OF this assms(2)] show ?thesis ..
next
  case (PostComplete i)
  with assms(1) obtain q where "handle_CompleteContract k svc i s = (q, s')"
    by (auto simp: contracts_serve_def elim: run_handler_sumE)
  from handle_Complete_steps [OF this assms(2)] show ?thesis ..
next
  case (PostCancel i)
  with assms(1) obtain q where "handle_CancelContract k svc i s = (q, s')"
    by (auto simp: contracts_serve_def elim: run_handler_sumE)
  from handle_Cancel_steps [OF this assms(2)] show ?thesis ..
next
  case (GetContractBy i)
  with assms(1) show ?thesis
    by (auto simp: contracts_serve_def elim!: run_handler_sumE dest!: handle_GetContract_same)
next
  case (GetContracts client freelancer l n)
  with assms(1) show ?thesis
    by (auto simp: contracts_serve_def elim!: run_handler_sumE dest!: handle_ListContracts_same)
qed

end

text \<open>What a list answered with 200 shows.\<close>

lemma GetContracts_answer:
  assumes "contracts_serve k svc (GetContracts client freelancer lp op) s = (Resp 200 b, s')"
  shows "\<exists>limit offset cs. param lp 0 = Some limit \<and> param op 0 = Some offset \<and> s_db s' = s_db s \<and>
    (let all = filter (\<lambda>c. (client = '''' \<or> c_client_id c = client) \<and> (freelancer = '''' \<or> c_freelancer_id c = freelancer))
       (contracts (s_db s));
       page = if 0 < limit \<and> limit \<le> 100 then nat limit else 20 in
     b = JObj [(''items'', JArr (map (contract_json k) cs)), (''total'', JNum (int (length all)))] \<and>
     cs = take page (drop (nat offset) (sort_key (\<lambda>c. - c_created_at c) all)))"
proof -
  have "code r \<noteq> 200" if "handle_ListContracts k client freelancer lp op s = (Inl r, s')" for r
    using that [unfolded handle_ListContracts_def Let_def] by (elim prog_elims) auto
  with assms have "handle_ListContracts k client freelancer lp op s = (Inr (Resp 200 b), s')"
    by (fastforce simp: contracts_serve_def elim: run_handler_eqE)
  then obtain limit offset cs n s1 where run: "param lp 0 = Some limit" "param op 0 = Some offset"
    "auto_stmt (contract_List \<lparr>lf_client_id = client, lf_freelancer_id = freelancer, lf_limit = limit, lf_offset = offset\<rparr>) s = (Inr cs, s1)"
    "auto_stmt (contract_Count \<lparr>lf_client_id = client, lf_freelancer_id = freelancer, lf_limit = limit, lf_offset = offset\<rparr>) s1 = (Inr n, s')"
    "b = JObj [(''items'', JArr (map (contract_json k) cs)), (''total'', JNum n)]"
    unfolding handle_ListContracts_def Let_def by (elim bnd_InrE map_err_InrE int_param_InrE ret_InrE) auto
  let ?all = "filter (\<lambda>c. (client = '''' \<or> c_client_id c = client) \<and> (freelancer = '''' \<or> c_freelancer_id c = freelancer))
     (contracts (s_db s))"
  have cs: "cs = take (if 0 < limit \<and> limit \<le> 100 then nat limit else 20)
      (drop (nat offset) (sort_key (\<lambda>c. - c_created_at c) ?all))" "s_db s1 = s_db s"
    using run(3) by (auto elim!: auto_stmt_InrE simp: contract_List_def contract_matches_def [abs_def] Let_def)
  have n: "n = int (length ?all)" "s_db s' = s_db s"
    using run(4) cs(2) by (auto elim!: auto_stmt_InrE simp: contract_Count_def contract_matches_def [abs_def])
  have "b = JObj [(''items'', JArr (map (contract_json k) cs)), (''total'', JNum (int (length ?all)))]"
    using run(5) n(1) by simp
  then show ?thesis unfolding Let_def using run(1,2) n(2) cs(1) by (intro exI conjI)
qed

lemma published_step:
  assumes "OutboxPublisher_PublishBatch pub locked s = (q, s')"
  shows "sys_step look key (s_db s, p) (s_db s', p)"
  using contracts_outbox.PublishBatch_rest [OF assms [unfolded OutboxPublisher_is_PublishBatch]]
  by (intro sys_step.announced_step) (simp_all add: batch_size_def)

end
