(* ===== verification/PaymentsClient.thy ===== *)
theory PaymentsClient
  imports PaymentsService Saga
begin

text \<open>
  How the contracts service reaches payments: the HTTP client (payments_client.go), the wire
  between the two services, and the binding of the request bodies on the other side. \<open>parse\<close> is
  \<open>uuid.Parse\<close>, a package outside the repository.
\<close>

section \<open>Decoding\<close>

text \<open>
  One field of a struct, as \<open>json.Unmarshal\<close> fills it: members match ignoring case, later ones
  overwrite earlier ones, \<open>null\<close> leaves the field, \<open>dec\<close> refuses values of another type.
\<close>

fun scan_field :: "(json \<Rightarrow> 'a option) \<Rightarrow> string \<Rightarrow> (string \<times> json) list \<Rightarrow> bool \<times> 'a \<Rightarrow> bool \<times> 'a" where
  "scan_field dec name [] (bad, v) = (bad, v)"
| "scan_field dec name ((k, j) # rest) (bad, v) =
     (if to_lower k = name \<and> j \<noteq> JNull then
        (case dec j of Some x \<Rightarrow> scan_field dec name rest (bad, x)
         | None \<Rightarrow> scan_field dec name rest (True, v))
      else scan_field dec name rest (bad, v))"

definition field :: "(json \<Rightarrow> 'a option) \<Rightarrow> 'a \<Rightarrow> string \<Rightarrow> json \<Rightarrow> 'a option" where
  "field dec zero name j =
     (case j of
        JNull \<Rightarrow> Some zero
      | JObj members \<Rightarrow>
          (case scan_field dec name members (False, zero) of (bad, v) \<Rightarrow> if bad then None else Some v)
      | _ \<Rightarrow> None)"

fun dec_string :: "json \<Rightarrow> string option" where
  "dec_string (JStr x) = Some x"
| "dec_string _ = None"

fun dec_int64 :: "json \<Rightarrow> int64 option" where
  "dec_int64 (JNum n) = (if - (2 ^ 63) \<le> n \<and> n < 2 ^ 63 then Some (word_of_int n) else None)"
| "dec_int64 _ = None"

fun dec_uuid :: "(string \<Rightarrow> uuid option) \<Rightarrow> json \<Rightarrow> uuid option" where
  "dec_uuid parse (JStr x) = parse x"
| "dec_uuid parse _ = None"

section \<open>Bodies\<close>

definition hold_request_json :: "pay_hold_request \<Rightarrow> json" where
  "hold_request_json req = JObj
     [(''wallet_id'', JStr (phr_wallet_id req)), (''amount'', json_int64 (phr_amount req)),
      (''contract_id'', JStr (phr_contract_id req))]"

definition release_request_json :: "string \<Rightarrow> json" where
  "release_request_json hold = JObj [(''hold_id'', JStr hold)]"

definition transfer_request_json :: "string \<Rightarrow> string \<Rightarrow> json" where
  "transfer_request_json hold recipient =
     JObj [(''hold_id'', JStr hold), (''recipient_wallet_id'', JStr recipient)]"

text \<open>What the payments handlers bind, \<open>None\<close> for a 400.\<close>

definition bind_HoldRequest :: "(string \<Rightarrow> uuid option) \<Rightarrow> json \<Rightarrow> HoldRequest option" where
  "bind_HoldRequest parse j =
     (case (field (dec_uuid parse) uuid_Nil ''wallet_id'' j, field dec_int64 0 ''amount'' j,
            field (dec_uuid parse) uuid_Nil ''contract_id'' j) of
        (Some w, Some a, Some c) \<Rightarrow> Some \<lparr>hr_wallet_id = w, hr_amount = a, hr_contract_id = c\<rparr>
      | _ \<Rightarrow> None)"

definition bind_ReleaseRequest :: "(string \<Rightarrow> uuid option) \<Rightarrow> json \<Rightarrow> ReleaseRequest option" where
  "bind_ReleaseRequest parse j =
     map_option (\<lambda>h. \<lparr>rr_hold_id = h\<rparr>) (field (dec_uuid parse) uuid_Nil ''hold_id'' j)"

definition bind_TransferRequest :: "(string \<Rightarrow> uuid option) \<Rightarrow> json \<Rightarrow> TransferRequest option" where
  "bind_TransferRequest parse j =
     (case (field (dec_uuid parse) uuid_Nil ''hold_id'' j,
            field (dec_uuid parse) uuid_Nil ''recipient_wallet_id'' j) of
        (Some h, Some w) \<Rightarrow> Some \<lparr>tr_hold_id = h, tr_recipient_wallet_id = w\<rparr>
      | _ \<Rightarrow> None)"

text \<open>The reply to a hold, as the client decodes it.\<close>

definition decode_hold :: "json \<Rightarrow> pay_hold_response option" where
  "decode_hold j =
     (case (field dec_string '''' ''id'' j, field dec_string '''' ''wallet_id'' j,
            field dec_int64 0 ''amount'' j, field dec_string '''' ''status'' j,
            field dec_string '''' ''contract_id'' j) of
        (Some i, Some w, Some a, Some st, Some c) \<Rightarrow>
          Some \<lparr>php_id = i, php_wallet_id = w, php_amount = a, php_status = st, php_contract_id = c\<rparr>
      | _ \<Rightarrow> None)"

section \<open>The client\<close>

text \<open>
  The payments service at the other end of the wire, and the wire's own faults: a call that did
  not arrive, and one whose reply was lost or came after the client's timeout.
\<close>

record net =
  net_pay :: psess
  net_faults :: "fault list"

definition http_post :: "(psess \<Rightarrow> response \<times> psess) \<Rightarrow> net \<Rightarrow> response option \<times> net" where
  "http_post serve n =
     (case (case net_faults n of [] \<Rightarrow> (Fine, []) | f # fs \<Rightarrow> (f, fs)) of (f, fs) \<Rightarrow>
      if f = Before then (None, n\<lparr>net_faults := fs\<rparr>)
      else case serve (net_pay n) of (r, s) \<Rightarrow>
        (if f = Fine then Some r else None, n\<lparr>net_pay := s, net_faults := fs\<rparr>))"

definition client_HoldFunds ::
  "codec \<Rightarrow> (string \<Rightarrow> uuid option) \<Rightarrow> pay_hold_request \<Rightarrow> net \<Rightarrow> (string + pay_hold_response) \<times> net" where
  "client_HoldFunds k parse req n =
     (case http_post (pay_serve k (PostHold (bind_HoldRequest parse (hold_request_json req)))) n of
        (None, n') \<Rightarrow> (Inl ''payments hold call'', n')
      | (Some r, n') \<Rightarrow>
          if code r \<noteq> 201 then (Inl ''payments hold failed'', n')
          else case decode_hold (body r) of
            None \<Rightarrow> (Inl ''payments hold unmarshal'', n')
          | Some x \<Rightarrow> (Inr x, n'))"

definition client_ReleaseFunds ::
  "codec \<Rightarrow> (string \<Rightarrow> uuid option) \<Rightarrow> string \<Rightarrow> net \<Rightarrow> (string + unit) \<times> net" where
  "client_ReleaseFunds k parse hold n =
     (case http_post (pay_serve k (PostRelease (bind_ReleaseRequest parse (release_request_json hold)))) n of
        (None, n') \<Rightarrow> (Inl ''payments release call'', n')
      | (Some r, n') \<Rightarrow> (if code r \<noteq> 200 then Inl ''payments release failed'' else Inr (), n'))"

definition client_TransferFunds ::
  "codec \<Rightarrow> (string \<Rightarrow> uuid option) \<Rightarrow> string \<Rightarrow> string \<Rightarrow> net \<Rightarrow> (string + unit) \<times> net" where
  "client_TransferFunds k parse hold recipient n =
     (case http_post (pay_serve k (PostTransfer
             (bind_TransferRequest parse (transfer_request_json hold recipient)))) n of
        (None, n') \<Rightarrow> (Inl ''payments transfer call'', n')
      | (Some r, n') \<Rightarrow> (if code r \<noteq> 200 then Inl ''payments transfer failed'' else Inr (), n'))"

definition PaymentsClient :: "codec \<Rightarrow> (string \<Rightarrow> uuid option) \<Rightarrow> net PaymentsService" where
  "PaymentsClient k parse =
     \<lparr>svc_HoldFunds = client_HoldFunds k parse, svc_ReleaseFunds = client_ReleaseFunds k parse,
      svc_TransferFunds = client_TransferFunds k parse\<rparr>"

end
