(* ===== verification/UuidText.thy ===== *)
theory UuidText
  imports Json
begin

text \<open>
  The text of a UUID. The two directions (\<open>uuid.UUID.String\<close>, \<open>uuid.Parse\<close>) belong to a package
  outside the repository; the services rely on one law, that parsing inverts printing: locale
  \<open>uuid_text\<close>. The canonical form of RFC 9562, which that package documents, has it.
\<close>

locale uuid_text =
  fixes k :: codec and parse :: "string \<Rightarrow> uuid option"
  assumes parse_String: "parse (uuid_String k u) = Some u"
begin

lemma String_inj: "uuid_String k u = uuid_String k v \<Longrightarrow> u = v"
  by (metis option.inject parse_String)

end

section \<open>The canonical form\<close>

definition hex_digit :: "nat \<Rightarrow> char" where
  "hex_digit n = ''0123456789abcdef'' ! n"

definition hex_value :: "char \<Rightarrow> nat option" where
  "hex_value ch = (let n = (of_char ch :: nat) in
     if 48 \<le> n \<and> n \<le> 57 then Some (n - 48) else if 97 \<le> n \<and> n \<le> 102 then Some (n - 87) else None)"

fun hex :: "nat \<Rightarrow> nat \<Rightarrow> string" where
  "hex 0 n = []"
| "hex (Suc w) n = hex w (n div 16) @ [hex_digit (n mod 16)]"

fun unhex :: "nat \<Rightarrow> string \<Rightarrow> nat option" where
  "unhex acc [] = Some acc"
| "unhex acc (ch # cs) = (case hex_value ch of None \<Rightarrow> None | Some d \<Rightarrow> unhex (16 * acc + d) cs)"

definition hyphenate :: "string \<Rightarrow> string" where
  "hyphenate s = take 8 s @ ''-'' @ take 4 (drop 8 s) @ ''-'' @ take 4 (drop 12 s) @ ''-''
     @ take 4 (drop 16 s) @ ''-'' @ drop 20 s"

definition canonical_String :: "uuid \<Rightarrow> string" where
  "canonical_String u = hyphenate (hex 32 (unat u))"

definition canonical_Parse :: "string \<Rightarrow> uuid option" where
  "canonical_Parse s =
     (let ds = filter (\<lambda>ch. ch \<noteq> CHR ''-'') s in
      if length ds = 32 \<and> s = hyphenate ds then map_option word_of_nat (unhex 0 ds) else None)"

lemma length_hex [simp]: "length (hex w n) = w"
  by (induction w arbitrary: n) simp_all

lemma hex_value_digit: "n < 16 \<Longrightarrow> hex_value (hex_digit n) = Some n"
proof -
  have "\<forall>n\<in>{0..<16}. hex_value (hex_digit n) = Some n" by code_simp
  then show "n < 16 \<Longrightarrow> hex_value (hex_digit n) = Some n" by simp
qed

lemma hex_digit_hyphen: "n < 16 \<Longrightarrow> hex_digit n \<noteq> CHR ''-''"
  using hex_value_digit [of n] by (auto simp: hex_value_def)

lemma unhex_append:
  "unhex acc (xs @ ys) = (case unhex acc xs of None \<Rightarrow> None | Some a \<Rightarrow> unhex a ys)"
  by (induction xs arbitrary: acc) (auto split: option.splits)

lemma unhex_hex: "unhex acc (hex w n) = Some (16 ^ w * acc + n mod 16 ^ w)"
proof (induction w arbitrary: n)
  case (Suc w)
  have "n mod (16 * 16 ^ w) = 16 * (n div 16 mod 16 ^ w) + n mod 16"
    by (rule mod_mult2_eq [of n 16, simplified])
  with Suc show ?case by (simp add: unhex_append hex_value_digit algebra_simps)
qed simp

lemma no_hyphen_hex: "filter (\<lambda>ch. ch \<noteq> CHR ''-'') (hex w n) = hex w n"
  by (induction w arbitrary: n) (simp_all add: hex_digit_hyphen)

lemma dehyphenate:
  assumes "filter (\<lambda>ch. ch \<noteq> CHR ''-'') s = s"
  shows "filter (\<lambda>ch. ch \<noteq> CHR ''-'') (hyphenate s) = s"
proof -
  have *: "\<forall>ch\<in>set s. ch \<noteq> CHR ''-''" using assms by (simp only: filter_id_conv)
  have parts: "filter (\<lambda>ch. ch \<noteq> CHR ''-'') (take m (drop n s)) = take m (drop n s)"
    "filter (\<lambda>ch. ch \<noteq> CHR ''-'') (drop n s) = drop n s" for m n
    using * by (simp_all add: filter_id_conv) (meson in_set_takeD in_set_dropD)+
  have "filter (\<lambda>ch. ch \<noteq> CHR ''-'') (hyphenate s)
      = take 8 s @ take 4 (drop 8 s) @ take 4 (drop 12 s) @ take 4 (drop 16 s) @ drop 20 s"
    using parts(1) [of 8 0] by (simp add: hyphenate_def parts)
  also have "\<dots> = s"
    using append_take_drop_id [of 4 "drop 16 s"] append_take_drop_id [of 4 "drop 12 s"]
      append_take_drop_id [of 4 "drop 8 s"] append_take_drop_id [of 8 s]
    by (simp del: append_take_drop_id)
  finally show ?thesis .
qed

definition canonical_codec :: codec where
  "canonical_codec = \<lparr>uuid_String = canonical_String, time_String = (\<lambda>t. ''t'')\<rparr>"

interpretation canonical: uuid_text canonical_codec canonical_Parse
proof
  fix u :: uuid
  have "unat u < 2 ^ LENGTH(128)" by (rule unsigned_less)
  then show "canonical_Parse (uuid_String canonical_codec u) = Some u"
    by (simp add: canonical_codec_def canonical_String_def canonical_Parse_def Let_def
        dehyphenate no_hyphen_hex unhex_hex)
qed

section \<open>A short form\<close>

text \<open>
  Hexadecimal without leading zeros: another pair of functions with the law, which the concrete
  runs of the properties use.
\<close>

fun short_hex :: "nat \<Rightarrow> string" where
  "short_hex n = (if n < 16 then [hex_digit n] else short_hex (n div 16) @ [hex_digit (n mod 16)])"

declare short_hex.simps [simp del]

definition short_codec :: codec where
  "short_codec = \<lparr>uuid_String = (\<lambda>u. short_hex (unat u)), time_String = (\<lambda>t. ''t'')\<rparr>"

definition short_Parse :: "string \<Rightarrow> uuid option" where
  "short_Parse s = (case unhex 0 s of None \<Rightarrow> None | Some n \<Rightarrow> Some (word_of_int (int n)))"

lemma unhex_short: "unhex 0 (short_hex n) = Some n"
proof (induction n rule: short_hex.induct)
  case (1 n)
  show ?case
  proof (cases "n < 16")
    case True
    then show ?thesis by (simp add: short_hex.simps [of n] hex_value_digit)
  next
    case False
    then show ?thesis by (simp add: short_hex.simps [of n] unhex_append 1 hex_value_digit)
  qed
qed

interpretation short: uuid_text short_codec short_Parse
  by unfold_locales (simp add: short_codec_def short_Parse_def unhex_short)

end
