(* ===== verification/PaymentsLink.thy ===== *)
theory PaymentsLink
  imports PaymentsClient ContractsSpec UuidText
begin

text \<open>
  The payments service keeps the promises the saga relies on: seen through its HTTP client, over
  a wire that can lose requests and replies, it is an instance of the locale
  \<open>payments_interface\<close>. The proof rests on the refinement of the payments handlers (theories
  PaymentsRefine, PaymentsService).
\<close>

section \<open>What can be seen of a hold\<close>

text \<open>The wallet a transferred hold was paid to is in the log.\<close>

definition recipient :: "pdb \<Rightarrow> uuid \<Rightarrow> uuid option" where
  "recipient d u = map_option t_wallet_id
     (find (\<lambda>t. t_hold_id t = Some u \<and> t_type t = ''transfer_credit'') (rev (transactions d)))"

definition hold_terms :: "Hold \<Rightarrow> uuid option terms" where
  "hold_terms h = (h_amount h, Some (h_wallet_id h), Some (h_contract_id h))"

definition hold_at :: "pdb \<Rightarrow> uuid \<Rightarrow> uuid option hold_state option" where
  "hold_at d u =
     (case sel h_id u (holds d) of None \<Rightarrow> None
      | Some h \<Rightarrow>
          if h_status h = ''active'' then Some (StillHeld (hold_terms h))
          else if h_status h = ''released'' then Some (GivenBack (hold_terms h))
          else if h_status h = ''transferred'' then Some (PaidOut (hold_terms h) (recipient d u))
          else None)"

text \<open>The saga names a hold by the string payments sent it.\<close>

definition look_payments ::
  "codec \<Rightarrow> (string \<Rightarrow> uuid option) \<Rightarrow> net \<Rightarrow> string \<Rightarrow> uuid option hold_state option" where
  "look_payments k parse n i =
     (case parse i of None \<Rightarrow> None
      | Some u \<Rightarrow> if uuid_String k u = i then hold_at (s_db (net_pay n)) u else None)"

lemma recipient_snoc:
  "recipient (d\<lparr>transactions := ts @ [t]\<rparr>) u
   = (if t_hold_id t = Some u \<and> t_type t = ''transfer_credit'' then Some (t_wallet_id t)
      else recipient (d\<lparr>transactions := ts\<rparr>) u)"
  by (simp add: recipient_def)

lemma recipient_transactions: "transactions d' = transactions d \<Longrightarrow> recipient d' u = recipient d u"
  by (simp add: recipient_def)

lemma hold_at_step:
  assumes "pay_step k d ev d'"
  shows "case ev of
      Placed h \<Rightarrow> hold_at d (h_id h) = None \<and> hold_at d' (h_id h) = Some (StillHeld (hold_terms h)) \<and>
        (\<forall>u. hold_at d u \<noteq> None \<longrightarrow> hold_at d' u = hold_at d u)
    | Failed _ \<Rightarrow> hold_at d' = hold_at d
    | Released h \<Rightarrow> hold_at d (h_id h) = Some (StillHeld (hold_terms h)) \<and>
        hold_at d' (h_id h) = Some (GivenBack (hold_terms h)) \<and>
        (\<forall>u. u \<noteq> h_id h \<longrightarrow> hold_at d' u = hold_at d u)
    | Transferred h w \<Rightarrow> hold_at d (h_id h) = Some (StillHeld (hold_terms h)) \<and>
        hold_at d' (h_id h) = Some (PaidOut (hold_terms h) (Some w)) \<and>
        (\<forall>u. u \<noteq> h_id h \<longrightarrow> hold_at d' u = hold_at d u)"
  using assms
proof cases
  case (placed h row t e)
  have "recipient d' u = recipient d u" for u
    using placed by (simp add: posts_def recipient_def)
  then show ?thesis
    using placed by (auto simp: hold_at_def sel_append sel_Cons active_def hold_terms_def split: option.splits)
next
  case (failed req row t e)
  have "recipient d' u = recipient d u" for u
    using failed by (simp add: posts_def recipient_def)
  then show ?thesis using failed by (auto simp: hold_at_def fun_eq_iff split: option.splits)
next
  case (released h t e)
  have "recipient d' u = recipient d u" for u
    using released by (simp add: posts_def recipient_def)
  then show ?thesis
    using released by (auto simp: hold_at_def sel_set_status active_def hold_terms_def split: option.splits)
next
  case (transferred h w src rcp t1 t2 e now2 now1)
  have "recipient d' u = (if u = h_id h then Some w else recipient d u)" for u
    using transferred by (auto simp: posts_def recipient_def)
  then show ?thesis
    using transferred by (auto simp: hold_at_def sel_set_status active_def hold_terms_def split: option.splits)
qed

section \<open>What the client's calls do\<close>

lemma http_post_cases:
  assumes "http_post serve n = (r, n')"
  obtains (lost) "r = None" "net_pay n' = net_pay n"
  | (served) x where "serve (net_pay n) = (x, net_pay n')" "r = None \<or> r = Some x"
  using assms by (auto simp: http_post_def split: prod.splits if_splits)

lemma field_names [simp]:
  "to_lower ''hold_id'' = ''hold_id''" "to_lower ''wallet_id'' = ''wallet_id''"
  "to_lower ''amount'' = ''amount''" "to_lower ''contract_id'' = ''contract_id''"
  "to_lower ''recipient_wallet_id'' = ''recipient_wallet_id''" "to_lower ''id'' = ''id''"
  "to_lower ''status'' = ''status''" "to_lower ''created_at'' = ''created_at''"
  "to_lower ''expires_at'' = ''expires_at''"
  by code_simp+

lemma dec_int64_json [simp]: "dec_int64 (json_int64 a) = Some a"
  using sint64_bounds [of a] by (simp add: json_int64_def)

lemma json_int64_neq [simp]: "json_int64 a \<noteq> JNull"
  by (simp add: json_int64_def)

lemma bind_release [simp]:
  "bind_ReleaseRequest parse (release_request_json i) = map_option (\<lambda>h. \<lparr>rr_hold_id = h\<rparr>) (parse i)"
  by (auto simp: bind_ReleaseRequest_def release_request_json_def field_def split: option.splits)

lemma bind_transfer [simp]:
  "bind_TransferRequest parse (transfer_request_json i w) =
     (case (parse i, parse w) of
        (Some h, Some u) \<Rightarrow> Some \<lparr>tr_hold_id = h, tr_recipient_wallet_id = u\<rparr> | _ \<Rightarrow> None)"
  by (auto simp: bind_TransferRequest_def transfer_request_json_def field_def split: option.splits)

lemma bind_hold [simp]:
  "bind_HoldRequest parse (hold_request_json req) =
     (case (parse (phr_wallet_id req), parse (phr_contract_id req)) of
        (Some w, Some c) \<Rightarrow> Some \<lparr>hr_wallet_id = w, hr_amount = phr_amount req, hr_contract_id = c\<rparr>
      | _ \<Rightarrow> None)"
  by (auto simp: bind_HoldRequest_def hold_request_json_def field_def split: option.splits)

lemma decode_hold_json [simp]:
  "decode_hold (hold_json k h) = Some
     \<lparr>php_id = uuid_String k (h_id h), php_wallet_id = uuid_String k (h_wallet_id h),
      php_amount = h_amount h, php_status = h_status h,
      php_contract_id = uuid_String k (h_contract_id h)\<rparr>"
  by (simp add: decode_hold_def hold_json_def field_def json_uuid_def json_time_def omitzero_def
      split: option.splits)

text \<open>One call: the wire, then one request of the payments service.\<close>

lemma call_cases:
  assumes "http_post (pay_serve k call) n = (r, n')"
  obtains (same) "s_db (net_pay n') = s_db (net_pay n)"
      "is_get call \<or> (\<forall>x. r = Some x \<longrightarrow> code x \<in> {400, 404, 409, 500})"
  | (step) ev where "pay_step k (s_db (net_pay n)) ev (s_db (net_pay n'))" "asked call ev"
      "\<forall>x. r = Some x \<longrightarrow> x \<in> {answer k ev, internal_error}"
  using assms
proof (cases rule: http_post_cases)
  case lost
  then show thesis by (intro same) simp_all
next
  case (served x)
  from served(1) show thesis
    by (cases rule: pay_serve_cases) (use served(2) in \<open>auto intro: same step\<close>)
qed

lemma look_eqI: "s_db (net_pay n') = s_db (net_pay n) \<Longrightarrow> look_payments k parse n' = look_payments k parse n"
  by (auto simp: look_payments_def fun_eq_iff split: option.splits)

lemma look_someD:
  assumes "look_payments k parse n i \<noteq> None"
  obtains u where "parse i = Some u" "uuid_String k u = i" "hold_at (s_db (net_pay n)) u \<noteq> None"
    "look_payments k parse n i = hold_at (s_db (net_pay n)) u"
    "\<And>n'. look_payments k parse n' i = hold_at (s_db (net_pay n')) u"
  using assms by (auto simp: look_payments_def split: option.splits if_splits)

text \<open>Only the hold with the parsed id changes, and a hold has one name.\<close>

lemma look_others:
  assumes "\<forall>v. v \<noteq> u \<longrightarrow> hold_at (s_db (net_pay n')) v = hold_at (s_db (net_pay n)) v"
    and "uuid_String k u = i" "j \<noteq> i"
  shows "look_payments k parse n' j = look_payments k parse n j"
  using assms by (auto simp: look_payments_def split: option.splits)

lemma release_call:
  assumes "client_ReleaseFunds k parse i n = (r, n')" "look_payments k parse n i \<noteq> None"
  shows "(\<forall>j. j \<noteq> i \<longrightarrow> look_payments k parse n' j = look_payments k parse n j) \<and>
    (look_payments k parse n' i = look_payments k parse n i \<and> r \<noteq> Inr () \<or>
     (\<exists>t. look_payments k parse n i = Some (StillHeld t) \<and> look_payments k parse n' i = Some (GivenBack t)))"
proof -
  obtain u where u: "parse i = Some u" "uuid_String k u = i"
    "\<And>n'. look_payments k parse n' i = hold_at (s_db (net_pay n')) u"
    using assms(2) by (elim look_someD) blast
  let ?call = "PostRelease (Some \<lparr>rr_hold_id = u\<rparr>)"
  obtain x where x: "http_post (pay_serve k ?call) n = (x, n')"
    "r = Inr () \<Longrightarrow> \<exists>y. x = Some y \<and> code y = 200"
    using assms(1) by (auto simp: client_ReleaseFunds_def u(1) split: prod.splits option.splits if_splits)
  from x(1) show ?thesis
  proof (cases rule: call_cases)
    case same
    with x(2) look_eqI [OF same(1)] show ?thesis by auto
  next
    case (step ev)
    from step(2) obtain h where ev: "ev = Released h" "h_id h = u" by (cases ev) auto
    from hold_at_step [OF step(1)] ev have "hold_at (s_db (net_pay n)) u = Some (StillHeld (hold_terms h))"
      "hold_at (s_db (net_pay n')) u = Some (GivenBack (hold_terms h))"
      "\<forall>v. v \<noteq> u \<longrightarrow> hold_at (s_db (net_pay n')) v = hold_at (s_db (net_pay n)) v" by auto
    with look_others [OF this(3) u(2)] show ?thesis by (simp add: u(3) hold_terms_def)
  qed
qed

lemma transfer_call:
  assumes "client_TransferFunds k parse i w n = (r, n')" "look_payments k parse n i \<noteq> None"
  shows "(\<forall>j. j \<noteq> i \<longrightarrow> look_payments k parse n' j = look_payments k parse n j) \<and>
    (look_payments k parse n' i = look_payments k parse n i \<and> r \<noteq> Inr () \<or>
     (\<exists>t. look_payments k parse n i = Some (StillHeld t) \<and>
        look_payments k parse n' i = Some (PaidOut t (parse w))))"
proof -
  obtain u where u: "parse i = Some u" "uuid_String k u = i"
    "\<And>n'. look_payments k parse n' i = hold_at (s_db (net_pay n')) u"
    using assms(2) by (elim look_someD) blast
  let ?call = "PostTransfer (case parse w of None \<Rightarrow> None
    | Some v \<Rightarrow> Some \<lparr>tr_hold_id = u, tr_recipient_wallet_id = v\<rparr>)"
  obtain x where x: "http_post (pay_serve k ?call) n = (x, n')"
    "r = Inr () \<Longrightarrow> \<exists>y. x = Some y \<and> code y = 200"
    using assms(1) by (auto simp: client_TransferFunds_def u(1) split: prod.splits option.splits if_splits)
  from x(1) show ?thesis
  proof (cases rule: call_cases)
    case same
    with x(2) look_eqI [OF same(1)] show ?thesis by auto
  next
    case (step ev)
    from step(2) obtain h v where ev: "ev = Transferred h v" "h_id h = u" "parse w = Some v"
      by (cases ev; cases "parse w") auto
    from hold_at_step [OF step(1)] ev have "hold_at (s_db (net_pay n)) u = Some (StillHeld (hold_terms h))"
      "hold_at (s_db (net_pay n')) u = Some (PaidOut (hold_terms h) (Some v))"
      "\<forall>v. v \<noteq> u \<longrightarrow> hold_at (s_db (net_pay n')) v = hold_at (s_db (net_pay n)) v" by auto
    with look_others [OF this(3) u(2)] show ?thesis by (simp add: u(3) ev(3) hold_terms_def)
  qed
qed

text \<open>What a hold response means.\<close>

lemma hold_call:
  assumes "client_HoldFunds k parse req n = (r, n')"
  shows "\<forall>i. look_payments k parse n i \<noteq> None \<longrightarrow> look_payments k parse n' i = look_payments k parse n i"
    "r = Inr x \<Longrightarrow> \<exists>u. php_id x = uuid_String k u \<and> hold_at (s_db (net_pay n)) u = None \<and>
       hold_at (s_db (net_pay n')) u
         = Some (StillHeld (phr_amount req, parse (phr_wallet_id req), parse (phr_contract_id req)))"
proof -
  obtain call y where call: "call = PostHold (bind_HoldRequest parse (hold_request_json req))"
    and y: "http_post (pay_serve k call) n = (y, n')"
    "r = Inr x \<longrightarrow> (\<exists>z. y = Some z \<and> code z = 201 \<and> decode_hold (body z) = Some x)"
    using assms by (fastforce simp: client_HoldFunds_def split: prod.splits option.splits if_splits)
  have "(\<forall>i. look_payments k parse n i \<noteq> None \<longrightarrow> look_payments k parse n' i = look_payments k parse n i)
    \<and> (r = Inr x \<longrightarrow> (\<exists>u. php_id x = uuid_String k u \<and> hold_at (s_db (net_pay n)) u = None \<and>
       hold_at (s_db (net_pay n')) u
         = Some (StillHeld (phr_amount req, parse (phr_wallet_id req), parse (phr_contract_id req)))))"
    using y(1)
  proof (cases rule: call_cases)
    case same
    with y(2) look_eqI [OF same(1)] show ?thesis by (auto simp: call)
  next
    case (step ev)
    from step(2) consider h where "ev = Placed h" | req' where "ev = Failed req'"
      unfolding call by (cases ev; cases "bind_HoldRequest parse (hold_request_json req)") auto
    then show ?thesis
    proof cases
      case (1 h)
      from hold_at_step [OF step(1)] 1 have h: "hold_at (s_db (net_pay n)) (h_id h) = None"
        "hold_at (s_db (net_pay n')) (h_id h) = Some (StillHeld (hold_terms h))"
        "\<forall>u. hold_at (s_db (net_pay n)) u \<noteq> None \<longrightarrow> hold_at (s_db (net_pay n')) u = hold_at (s_db (net_pay n)) u"
        by auto
      have "hold_terms h = (phr_amount req, parse (phr_wallet_id req), parse (phr_contract_id req))"
        using step(2) unfolding call 1 by (auto simp: hold_terms_def split: option.splits)
      moreover have "php_id x = uuid_String k (h_id h)" if "r = Inr x"
        using that y(2) step(3) 1 by auto
      moreover have "\<forall>i. look_payments k parse n i \<noteq> None \<longrightarrow> look_payments k parse n' i = look_payments k parse n i"
        using h(3) by (auto simp: look_payments_def split: option.splits)
      ultimately show ?thesis using h(1,2) by auto
    next
      case (2 req')
      from hold_at_step [OF step(1)] 2 have "look_payments k parse n' = look_payments k parse n"
        by (auto simp: look_payments_def fun_eq_iff split: option.splits)
      moreover have "r \<noteq> Inr x" using y(2) step(3) 2 by auto
      ultimately show ?thesis by simp
    qed
  qed
  then show "\<forall>i. look_payments k parse n i \<noteq> None \<longrightarrow> look_payments k parse n' i = look_payments k parse n i"
    "r = Inr x \<Longrightarrow> \<exists>u. php_id x = uuid_String k u \<and> hold_at (s_db (net_pay n)) u = None \<and>
       hold_at (s_db (net_pay n')) u
         = Some (StillHeld (phr_amount req, parse (phr_wallet_id req), parse (phr_contract_id req)))" by blast+
qed

section \<open>The payments service is a payments interface\<close>

sublocale uuid_text \<subseteq> link: payments_interface "PaymentsClient k parse" "look_payments k parse" parse
proof
  fix req and p p' :: net and r
  assume "svc_HoldFunds (PaymentsClient k parse) req p = (r, p')"
  then have call: "client_HoldFunds k parse req p = (r, p')" by (simp add: PaymentsClient_def)
  have "look_payments k parse p (php_id x) = None \<and> look_payments k parse p' (php_id x)
      = Some (StillHeld (phr_amount req, parse (phr_wallet_id req), parse (phr_contract_id req)))"
    if "r = Inr x" for x
    using hold_call(2) [OF call that] by (auto simp: look_payments_def parse_String)
  with hold_call(1) [OF call] show "(\<forall>i. look_payments k parse p i \<noteq> None \<longrightarrow>
        look_payments k parse p' i = look_payments k parse p i) \<and>
      (\<forall>x. r = Inr x \<longrightarrow> look_payments k parse p (php_id x) = None \<and>
        look_payments k parse p' (php_id x)
          = Some (StillHeld (phr_amount req, parse (phr_wallet_id req), parse (phr_contract_id req))))" by blast
qed (auto simp: PaymentsClient_def dest: release_call transfer_call)

end
