(* ===== verification/Hire.thy ===== *)
theory Hire
  imports ContractsService PaymentsLink
begin

text \<open>
  The contracts and payments services together: the states of their two databases that requests,
  payment events, publishers and the seed command can lead to, with faults on both databases, on
  the wire between the services and at the broker. A message consumed may be any message: nothing
  here relies on the broker passing on what was published.
\<close>

section \<open>Payments are only touched through the client\<close>

text \<open>A program keeps a property of what is behind the payments interface.\<close>

definition keeps :: "('p \<Rightarrow> bool) \<Rightarrow> ((cdb, string, 'p) saga_sess, 'e, 'a) prog \<Rightarrow> bool" where
  "keeps P m \<longleftrightarrow> (\<forall>s q s'. m s = (q, s') \<longrightarrow> P (s_pay s) \<longrightarrow> P (s_pay s'))"

named_theorems keeps_intros \<open>programs that keep a property of the payments service\<close>

lemma keepsD: "keeps P m \<Longrightarrow> m s = (q, s') \<Longrightarrow> P (s_pay s) \<Longrightarrow> P (s_pay s')"
  by (simp add: keeps_def)

lemma keeps_bnd [keeps_intros]: "keeps P m \<Longrightarrow> (\<And>x. keeps P (f x)) \<Longrightarrow> keeps P (bnd m f)"
  by (auto simp: keeps_def elim!: bnd_eqE)

lemma keeps_ret [keeps_intros]: "keeps P (ret x)" and keeps_raise [keeps_intros]: "keeps P (raise e)"
  by (simp_all add: keeps_def)

lemma keeps_Pair [keeps_intros]: "keeps P (Pair r)"
  by (simp add: keeps_def)

lemma keeps_map_err [keeps_intros]: "keeps P m \<Longrightarrow> keeps P (map_err h m)"
  by (fastforce simp: keeps_def map_err_def split: prod.splits sum.splits)

lemma keeps_attempt [keeps_intros]: "keeps P m \<Longrightarrow> keeps P (attempt m)"
  by (fastforce simp: keeps_def attempt_def split: prod.splits)

lemma keeps_defer [keeps_intros]: "keeps P m \<Longrightarrow> keeps P (defer_rollback m)"
  by (fastforce simp: keeps_def elim!: defer_rollback_pairE dest!: same_env_sagaD)

lemma keeps_if [keeps_intros]: "keeps P m \<Longrightarrow> keeps P m' \<Longrightarrow> keeps P (if b then m else m')"
  by simp

lemma keeps_option [keeps_intros]:
  "keeps P m \<Longrightarrow> (\<And>x. keeps P (f x)) \<Longrightarrow> keeps P (case v of None \<Rightarrow> m | Some x \<Rightarrow> f x)"
  by (cases v) simp_all

lemma keeps_sum [keeps_intros]:
  "(\<And>x. keeps P (f x)) \<Longrightarrow> (\<And>x. keeps P (g x)) \<Longrightarrow> keeps P (case v of Inl x \<Rightarrow> f x | Inr x \<Rightarrow> g x)"
  by (cases v) simp_all

lemma keeps_let [keeps_intros]: "keeps P (f x) \<Longrightarrow> keeps P (Let x f)"
  by simp

lemma keeps_calls [keeps_intros]:
  "keeps P begin_tx" "keeps P commit_tx" "keeps P draw_id" "keeps P (stmt f)" "keeps P (auto_stmt f)"
  by (auto simp: keeps_def dest!: begin_tx_saga(1) commit_tx_saga(1) elim!: draw_id_eqE stmt_eqE auto_stmt_eqE
      dest!: same_env_sagaD)

lemma keeps_int_param [keeps_intros]: "keeps P (int_param v d err)"
  by (auto simp: int_param_def keeps_def split: prod.splits)

lemma keeps_rpc: "(\<And>p r p'. f p = (r, p') \<Longrightarrow> P p \<Longrightarrow> P p') \<Longrightarrow> keeps P (pay_rpc f)"
  by (auto simp: keeps_def pay_rpc_def split: prod.splits)

lemmas store_programs =
  contract_GetByID_def contract_UpdateStatus_def emit_def create_insert_def create_compensate_def
  create_confirm_def saga_move_def saga_claim_def saga_finish_def

lemma keeps_number [keeps_intros]: "keeps P (number_milestones i ms)"
  by (induction ms) (auto intro!: keeps_intros)

lemma keeps_batch [keeps_intros]: "keeps P (milestone_CreateBatch stmt ms)"
  by (induction ms) (auto intro!: keeps_intros)

lemma keeps_saga:
  assumes "\<And>req p r p'. svc_HoldFunds svc req p = (r, p') \<Longrightarrow> P p \<Longrightarrow> P p'"
    and "\<And>h p r p'. svc_ReleaseFunds svc h p = (r, p') \<Longrightarrow> P p \<Longrightarrow> P p'"
    and "\<And>h w p r p'. svc_TransferFunds svc h w p = (r, p') \<Longrightarrow> P p \<Longrightarrow> P p'"
  shows "keeps P (saga_CreateContract k svc c ms)" "keeps P (saga_CompleteContract k svc i)"
    "keeps P (saga_CancelContract k svc i)"
  unfolding saga_CreateContract_def saga_CompleteContract_def saga_CancelContract_def store_programs
  by (intro keeps_intros keeps_rpc; blast intro: assms)+

lemma keeps_serve:
  assumes "\<And>req p r p'. svc_HoldFunds svc req p = (r, p') \<Longrightarrow> P p \<Longrightarrow> P p'"
    and "\<And>h p r p'. svc_ReleaseFunds svc h p = (r, p') \<Longrightarrow> P p \<Longrightarrow> P p'"
    and "\<And>h w p r p'. svc_TransferFunds svc h w p = (r, p') \<Longrightarrow> P p \<Longrightarrow> P p'"
    and "contracts_serve k svc call s = (r, s')" "P (s_pay s)"
  shows "P (s_pay s')"
proof -
  note saga = keeps_saga [OF assms(1-3)]
  have accept: "keeps P (saga_AcceptContract k i)" for i
    unfolding saga_AcceptContract_def store_programs by (intro keeps_intros)
  have "keeps P (case call of
       PostContract bound \<Rightarrow> handle_CreateContract k svc bound
     | PostAccept i \<Rightarrow> handle_AcceptContract k i
     | PostComplete i \<Rightarrow> handle_CompleteContract k svc i
     | PostCancel i \<Rightarrow> handle_CancelContract k svc i
     | GetContractBy i \<Rightarrow> handle_GetContract k i
     | GetContracts client freelancer limit offset \<Rightarrow>
         handle_ListContracts k client freelancer limit offset)"
    unfolding handle_CreateContract_def handle_AcceptContract_def handle_CompleteContract_def
      handle_CancelContract_def handle_GetContract_def handle_ListContracts_def handle_action_def
      contract_GetByID_def
    by (cases call; simp only: contracts_call.case; intro keeps_intros saga accept)
  with assms(4,5) show ?thesis
    by (auto simp: contracts_serve_def elim!: run_handler_sumE dest: keepsD)
qed

lemma keeps_consume:
  assumes "consume k m s = (v, s')" "P (s_pay s)"
  shows "P (s_pay s')"
proof -
  have "keeps P (dispatch k subject i)" for subject i
    unfolding dispatch_def saga_HandlePaymentHeld_def saga_HandlePaymentFailed_def store_programs
    by (intro keeps_intros)
  with assms show ?thesis
    by (fastforce simp: consume_def split: prod.splits option.splits if_splits sum.splits dest: keepsD)
qed

section \<open>The states the two services reach\<close>

text \<open>
  The payments service also gets requests that do not come from the saga: holds, and reads. Its
  routes for releases and transfers have the contracts service as their only caller.
\<close>

fun harmless :: "pay_call \<Rightarrow> bool" where
  "harmless (PostRelease _) \<longleftrightarrow> False"
| "harmless (PostTransfer _) \<longleftrightarrow> False"
| "harmless _ \<longleftrightarrow> True"

inductive hire_reach ::
  "codec \<Rightarrow> (string \<Rightarrow> uuid option) \<Rightarrow> 'm publish \<Rightarrow> 'n publish \<Rightarrow> cdb \<Rightarrow> pdb \<Rightarrow> bool"
  for k parse cpub ppub where
  created: "hire_reach k parse cpub ppub empty_cdb empty_pdb"
| served:
    "\<lbrakk>hire_reach k parse cpub ppub (s_db s) (s_db (net_pay (s_pay s)));
      contracts_serve k (PaymentsClient k parse) call s = (r, s')\<rbrakk>
     \<Longrightarrow> hire_reach k parse cpub ppub (s_db s') (s_db (net_pay (s_pay s')))"
| consumed:
    "\<lbrakk>hire_reach k parse cpub ppub (s_db s) (s_db (net_pay (s_pay s))); consume k m s = (v, (s' :: (cdb, string, net) saga_sess))\<rbrakk>
     \<Longrightarrow> hire_reach k parse cpub ppub (s_db s') (s_db (net_pay (s_pay s')))"
| contracts_published:
    "\<lbrakk>hire_reach k parse cpub ppub (s_db s) p; OutboxPublisher_PublishBatch cpub locked s = (q, s')\<rbrakk>
     \<Longrightarrow> hire_reach k parse cpub ppub (s_db s') p"
| payments_published:
    "\<lbrakk>hire_reach k parse cpub ppub d (s_db s); PublishBatch payments_outbox ppub batch_size locked s = (q, s')\<rbrakk>
     \<Longrightarrow> hire_reach k parse cpub ppub d (s_db s')"
| payments_seeded:
    "\<lbrakk>hire_reach k parse cpub ppub d (s_db s); seed_main s = (q, s')\<rbrakk>
     \<Longrightarrow> hire_reach k parse cpub ppub d (s_db s')"
| payments_served:
    "\<lbrakk>hire_reach k parse cpub ppub d (s_db s); harmless call; pay_serve k call s = (r, s')\<rbrakk>
     \<Longrightarrow> hire_reach k parse cpub ppub d (s_db s')"

text \<open>The payments side stays within what theory PaymentsService covers.\<close>

lemma http_post_reach:
  assumes "http_post (pay_serve k call) n = (r, n')" "pay_reach k pub (s_db (net_pay n))"
  shows "pay_reach k pub (s_db (net_pay n'))"
  using assms(1)
  by (cases rule: http_post_cases) (use assms(2) in \<open>auto intro: pay_reach.served\<close>)

lemma client_reach:
  "svc_HoldFunds (PaymentsClient k parse) req p = (r1, p') \<Longrightarrow> pay_reach k pub (s_db (net_pay p)) \<Longrightarrow>
   pay_reach k pub (s_db (net_pay p'))"
  "svc_ReleaseFunds (PaymentsClient k parse) h p = (r2, p') \<Longrightarrow> pay_reach k pub (s_db (net_pay p)) \<Longrightarrow>
   pay_reach k pub (s_db (net_pay p'))"
  "svc_TransferFunds (PaymentsClient k parse) h w p = (r3, p') \<Longrightarrow> pay_reach k pub (s_db (net_pay p)) \<Longrightarrow>
   pay_reach k pub (s_db (net_pay p'))"
  by (auto simp: PaymentsClient_def client_HoldFunds_def client_ReleaseFunds_def client_TransferFunds_def
      split: prod.splits option.splits if_splits dest: http_post_reach)

lemma hire_reach_payments: "hire_reach k parse cpub ppub d p \<Longrightarrow> pay_reach k ppub p"
proof (induction rule: hire_reach.induct)
  case (served s call r s')
  show ?case
    by (rule keeps_serve [where P = "\<lambda>n. pay_reach k ppub (s_db (net_pay n))", OF _ _ _ served(2,3)])
      (erule (1) client_reach)+
next
  case (consumed s m v s')
  from keeps_consume [where P = "\<lambda>n. pay_reach k ppub (s_db (net_pay n))", OF consumed(2,3)] show ?case .
qed (auto intro: pay_reach.intros)

text \<open>The invariant of the saga only depends on the two databases.\<close>

definition hire_inv :: "codec \<Rightarrow> (string \<Rightarrow> uuid option) \<Rightarrow> cdb \<Rightarrow> pdb \<Rightarrow> bool" where
  "hire_inv k parse d p \<longleftrightarrow> saga_inv (look_payments k parse) parse
     (d, \<lparr>net_pay = \<lparr>s_db = p, s_tx = p, s_faults = [], s_now = 0, s_gen = (\<lambda>_. 0), s_used = 0\<rparr>, net_faults = []\<rparr>)"

lemma saga_inv_look:
  assumes "look p = look p'"
  shows "saga_inv look key (d, p) = saga_inv look key (d, p')"
proof -
  have "money_ok look key p c = money_ok look key p' c" for c
    by (simp add: money_ok_def assms split: option.splits)
  then show ?thesis by (simp add: saga_inv_def)
qed

lemma hire_inv_iff:
  "s_db (net_pay n) = p \<Longrightarrow> hire_inv k parse d p \<longleftrightarrow> saga_inv (look_payments k parse) parse (d, n)"
  unfolding hire_inv_def by (rule saga_inv_look) (rule look_eqI, simp)

lemma hire_inv_pay:
  assumes "hire_inv k parse d p" "\<And>u. hold_at p u \<noteq> None \<Longrightarrow> hold_at p' u = hold_at p u"
  shows "hire_inv k parse d p'"
proof -
  define net where "net p = \<lparr>net_pay = \<lparr>s_db = p, s_tx = p, s_faults = [], s_now = 0, s_gen = (\<lambda>_. 0),
     s_used = 0\<rparr>, net_faults = []\<rparr>" for p :: pdb
  have "known_but (look_payments k parse) {} (net p) (net p')"
    using assms(2) by (auto simp: known_but_def look_payments_def net_def split: option.splits)
  then have "sys_step (look_payments k parse) parse (d, net p) (d, net p')" by (rule sys_step.holding)
  moreover have "saga_inv (look_payments k parse) parse (d, net p)"
    using assms(1) by (simp add: hire_inv_def net_def)
  ultimately show ?thesis unfolding hire_inv_def net_def [symmetric] by (rule sys_step_inv)
qed

lemma hold_at_eqI:
  "holds p' = holds p \<Longrightarrow> transactions p' = transactions p \<Longrightarrow> hold_at p' u = hold_at p u"
  by (auto simp: hold_at_def recipient_def split: option.splits)

lemma seed_users_rows:
  assumes "seed_users us s = (q, s')"
  shows "holds (s_db s') = holds (s_db s) \<and> transactions (s_db s') = transactions (s_db s) \<and>
    outbox (s_db s') = outbox (s_db s)"
  using assms
proof (induction us arbitrary: s)
  case (Cons u us)
  obtain user bal where u: "u = (user, bal)" by fastforce
  have same: "holds d' = holds d \<and> transactions d' = transactions d \<and> outbox d' = outbox d"
    if "seed_insert user bal now v d = Inr (x, d')" for now v d x d'
    using that by (auto simp: seed_insert_def split: if_splits)
  from Cons.prems [unfolded u seed_users.simps] show ?case
  proof (cases rule: bnd_eqE)
    case (stop e)
    then show ?thesis by (auto elim!: auto_stmt_InlE dest: same)
  next
    case (go x s1)
    from go(1) have "holds (s_db s1) = holds (s_db s) \<and> transactions (s_db s1) = transactions (s_db s) \<and>
        outbox (s_db s1) = outbox (s_db s)"
      by (auto elim!: auto_stmt_InrE dest: same)
    with Cons.IH [OF go(2)] show ?thesis by simp
  qed
qed simp

lemma harmless_hold_at:
  assumes "pay_serve k call s = (r, s')" "harmless call" "hold_at (s_db s) u \<noteq> None"
  shows "hold_at (s_db s') u = hold_at (s_db s) u"
  using assms(1)
proof (cases rule: pay_serve_cases)
  case (step ev)
  from step(2) assms(2) consider h where "ev = Placed h" | req where "ev = Failed req"
    by (cases call; cases ev) auto
  then show ?thesis using hold_at_step [OF step(1)] assms(3) by cases auto
qed simp

context uuid_text
begin

lemma hire_reach_inv: "hire_reach k parse cpub ppub d p \<Longrightarrow> hire_inv k parse d p"
proof (induction rule: hire_reach.induct)
  case created
  show ?case by (simp add: hire_inv_def empty_saga_inv)
next
  case (served s call r s')
  from served(3) have inv: "saga_inv (look_payments k parse) parse (sys s)" by (simp add: hire_inv_iff)
  from sys_steps_inv [OF link.contracts_serve_steps [OF served(2) inv] inv] show ?case
    by (simp add: hire_inv_iff)
next
  case (consumed s m v s')
  from consumed(3) have inv: "saga_inv (look_payments k parse) parse (sys s)" by (simp add: hire_inv_iff)
  from consume_step [OF consumed(2) inv] inv have "saga_inv (look_payments k parse) parse (sys s')"
    by (auto dest: sys_step_inv)
  then show ?case by (simp add: hire_inv_iff)
next
  case (contracts_published s p locked q s')
  from published_step [OF contracts_published(2)] contracts_published(3) show ?case
    unfolding hire_inv_def by (rule sys_step_inv)
next
  case (payments_published d s locked q s')
  have "(s_db s')\<lparr>outbox := []\<rparr> = (s_db s)\<lparr>outbox := []\<rparr>"
    using payments_events.PublishBatch_rest [OF payments_published(2)] by (simp add: batch_size_def)
  then have "holds (s_db s') = holds (s_db s)" "transactions (s_db s') = transactions (s_db s)"
    by (cases "s_db s"; cases "s_db s'"; simp)+
  with payments_published(3) show ?case by (auto intro: hire_inv_pay hold_at_eqI)
next
  case (payments_seeded d s q s')
  from seed_users_rows [OF payments_seeded(2) [unfolded seed_main_def]] payments_seeded(3) show ?case
    by (auto intro: hire_inv_pay hold_at_eqI)
next
  case (payments_served d s call r s')
  from payments_served(4) harmless_hold_at [OF payments_served(3,2)] show ?case
    by (rule hire_inv_pay)
qed

text \<open>What the invariant says of one contract, in terms of the rows of both databases.\<close>

lemma hire_money:
  assumes "hire_inv k parse d p" "c \<in> set (contracts d)" "c_hold_id c = Some i"
  obtains u h where "i = uuid_String k u" "sel h_id u (holds p) = Some h"
    "h_amount h = c_amount c" "parse (c_client_wallet_id c) = Some (h_wallet_id h)"
    "parse (c_id c) = Some (h_contract_id h)"
    "h_status h = ''active'' \<and> c_status c \<in> {StatusHoldPending, StatusAwaitingAccept, StatusActive,
       StatusCompleting, StatusDeclining, StatusCancelled} \<or>
     h_status h = ''transferred'' \<and> recipient p u = parse (c_freelancer_wallet_id c) \<and>
       c_status c \<in> {StatusCompleting, StatusCompleted} \<or>
     h_status h = ''released'' \<and> c_status c \<in> {StatusDeclining, StatusDeclined}"
proof -
  note money = saga_invD(7) [OF assms(1) [unfolded hire_inv_def] assms(2)]
  from money assms(3) obtain x where "look_payments k parse \<lparr>net_pay = \<lparr>s_db = p, s_tx = p,
      s_faults = [], s_now = 0, s_gen = (\<lambda>_. 0), s_used = 0\<rparr>, net_faults = []\<rparr> i = Some x"
    by (auto simp: money_ok_def)
  then obtain u h where u: "parse i = Some u" "uuid_String k u = i" "sel h_id u (holds p) = Some h"
    by (auto simp: look_payments_def hold_at_def split: option.splits if_splits)
  with money assms(3) show thesis
    by (intro that [of u h])
      (auto simp: money_ok_def look_payments_def hold_at_def hold_terms_def terms_def split: if_splits)
qed

end

end
