(* ===== verification/ContractsLife.thy ===== *)
theory ContractsLife
  imports Hire
begin

text \<open>
  The life of a contract, end to end: the edges its status moves along, what the log of payments
  says of a completed one, and what requests and payment events do to it in the states where they
  matter.
\<close>

section \<open>Facts shared by the properties\<close>

lemma reach_saga_inv:
  assumes "uuid_text k parse" "hire_reach k parse cpub ppub (s_db s) (s_db (net_pay (s_pay s)))"
  shows "saga_inv (look_payments k parse) parse (sys s)"
  using uuid_text.hire_reach_inv [OF assms] by (simp add: hire_inv_iff)

text \<open>A credit in the log is for the whole of its hold.\<close>

definition credits_ok :: "pdb \<Rightarrow> bool" where
  "credits_ok p \<longleftrightarrow> list_all (\<lambda>t. t_type t = ''transfer_credit'' \<longrightarrow>
     (\<exists>u h. t_hold_id t = Some u \<and> sel h_id u (holds p) = Some h \<and> t_amount t = h_amount h)) (transactions p)"

lemma pay_step_credits:
  assumes "pay_step k p ev p'" "credits_ok p"
  shows "credits_ok p'"
proof -
  have old: "\<exists>u h. t_hold_id t = Some u \<and> sel h_id u (holds p') = Some h \<and> t_amount t = h_amount h"
    if t: "t \<in> set (transactions p)" "t_type t = ''transfer_credit''" for t
  proof -
    from assms(2) t obtain u h where u: "t_hold_id t = Some u" "sel h_id u (holds p) = Some h"
      "t_amount t = h_amount h" by (auto simp: credits_ok_def list_all_iff)
    from assms(1) u(2) have "\<exists>h'. sel h_id u (holds p') = Some h' \<and> h_amount h' = h_amount h"
      by (cases rule: pay_step_hold) auto
    with u show ?thesis by auto
  qed
  have new: "transactions p' = transactions p @ ts \<Longrightarrow> \<forall>t\<in>set ts. t_type t = ''transfer_credit'' \<longrightarrow>
      (\<exists>u h. t_hold_id t = Some u \<and> sel h_id u (holds p') = Some h \<and> t_amount t = h_amount h) \<Longrightarrow>
      ?thesis" for ts
    using old by (auto simp: credits_ok_def list_all_iff)
  from assms(1) show ?thesis
    by cases (rule new, simp, force simp: posts_def sel_set_status)+
qed

text \<open>A hold that was paid out has a credit in the log.\<close>

definition paid_ok :: "pdb \<Rightarrow> bool" where
  "paid_ok p \<longleftrightarrow> list_all (\<lambda>h. h_status h = ''transferred'' \<longrightarrow> recipient p (h_id h) \<noteq> None) (holds p)"

lemma pay_step_paid:
  assumes "pay_step k p ev p'" "paid_ok p"
  shows "paid_ok p'"
  using assms(1)
proof cases
  case (placed h row t e)
  then have "recipient p' u = recipient p u" for u by (simp add: posts_def recipient_def)
  with placed assms(2) show ?thesis by (simp add: paid_ok_def list_all_iff active_def)
next
  case (failed req row t e)
  then have "recipient p' u = recipient p u" for u by (simp add: posts_def recipient_def)
  with failed assms(2) show ?thesis by (simp add: paid_ok_def)
next
  case (released h t e)
  then have "recipient p' u = recipient p u" for u by (simp add: posts_def recipient_def)
  with released assms(2) show ?thesis by (auto simp: paid_ok_def list_all_iff set_status_def upd_def)
next
  case (transferred h w src rcp t1 t2 e now2 now1)
  then have "recipient p' u = (if u = h_id h then Some w else recipient p u)" for u
    by (auto simp: posts_def recipient_def)
  with transferred assms(2) show ?thesis by (auto simp: paid_ok_def list_all_iff set_status_def upd_def)
qed

text \<open>Seeding and publishing touch neither holds nor log.\<close>

lemma pay_reach_rows:
  assumes "pay_reach k pub p" "P empty_pdb" "\<And>p ev p'. pay_step k p ev p' \<Longrightarrow> P p \<Longrightarrow> P p'"
    and same: "\<And>p p'. holds p' = holds p \<Longrightarrow> transactions p' = transactions p \<Longrightarrow> P p \<Longrightarrow> P p'"
  shows "P p"
  using assms(1)
proof (induction rule: pay_reach.induct)
  case (seeded s q s')
  then show ?case using seed_users_rows by (metis same seed_main_def)
next
  case (served s call r s')
  from served(2) show ?case
    by (cases rule: pay_serve_cases) (use served(3) assms(3) in auto)
next
  case (published s locked q s')
  have "(s_db s')\<lparr>outbox := []\<rparr> = (s_db s)\<lparr>outbox := []\<rparr>"
    using payments_events.PublishBatch_rest [OF published(2)] by (simp add: batch_size_def)
  then have "holds (s_db s') = holds (s_db s)" "transactions (s_db s') = transactions (s_db s)"
    by (cases "s_db s"; cases "s_db s'"; simp)+
  with published(3) show ?case by (rule same [rotated 2])
qed (rule assms(2))

lemma pay_reach_credits: "pay_reach k pub p \<Longrightarrow> credits_ok p"
  by (erule pay_reach_rows [where P = credits_ok])
    (erule (1) pay_step_credits | simp add: credits_ok_def empty_pdb_def)+

lemma recipient_same: "transactions p' = transactions p \<Longrightarrow> recipient p' = recipient p"
  by (simp add: recipient_def fun_eq_iff)

lemma pay_reach_paid: "pay_reach k pub p \<Longrightarrow> paid_ok p"
proof (erule pay_reach_rows [where P = paid_ok])
  fix p p' :: pdb
  assume "holds p' = holds p" "transactions p' = transactions p" "paid_ok p"
  with recipient_same [of p' p] show "paid_ok p'" by (simp add: paid_ok_def)
qed (erule (1) pay_step_paid | simp add: paid_ok_def empty_pdb_def)+

lemma find_SomeD: "find P xs = Some x \<Longrightarrow> x \<in> set xs \<and> P x"
  by (metis find_Some_iff nth_mem)

lemma recipient_credit:
  assumes "credits_ok p" "recipient p u = Some w" "sel h_id u (holds p) = Some h"
  shows "\<exists>t\<in>set (transactions p). t_type t = ''transfer_credit'' \<and> t_hold_id t = Some u \<and>
    t_wallet_id t = w \<and> t_amount t = h_amount h"
proof -
  from assms(2) obtain t where t: "t \<in> set (transactions p)" "t_type t = ''transfer_credit''"
    "t_hold_id t = Some u" "t_wallet_id t = w"
    by (auto simp: recipient_def dest!: find_SomeD)
  with assms(1,3) have "t_amount t = h_amount h" by (auto simp: credits_ok_def list_all_iff)
  with t show ?thesis by blast
qed

section \<open>The life of a contract\<close>

definition edges :: "(string \<times> string) list" where
  "edges = [(StatusPending, StatusHoldPending), (StatusPending, StatusCancelled)]
     @ map (\<lambda>(from, to, evs). (from, to)) moves"

definition becomes :: "Contract \<Rightarrow> Contract \<Rightarrow> bool" where
  "becomes c c' \<longleftrightarrow> same_deal c c' \<and> (c_status c, c_status c') \<in> (set edges)\<^sup>* \<and>
     (c_hold_id c \<noteq> None \<longrightarrow> c_hold_id c' = c_hold_id c)"

definition grows :: "Contract list \<Rightarrow> Contract list \<Rightarrow> bool" where
  "grows cs cs' \<longleftrightarrow> (\<forall>c\<in>set cs. \<exists>c'\<in>set cs'. becomes c c')"

lemma becomes_refl: "becomes c c"
  by (simp add: becomes_def same_deal_def)

lemma becomes_trans: "becomes a b \<Longrightarrow> becomes b c \<Longrightarrow> becomes a c"
  unfolding becomes_def same_deal_def by (auto intro: rtrancl_trans)

lemma grows_refl: "grows cs cs"
  unfolding grows_def using becomes_refl by blast

lemma grows_append: "grows cs (cs @ cs')"
  unfolding grows_def using becomes_refl by auto

lemma grows_trans: "grows cs cs' \<Longrightarrow> grows cs' cs'' \<Longrightarrow> grows cs cs''"
  unfolding grows_def using becomes_trans by blast

lemma grows_map: "(\<And>c. c \<in> set cs \<Longrightarrow> becomes c (f c)) \<Longrightarrow> grows cs (map f cs)"
  unfolding grows_def set_map by blast

lemma grows_advance: "(from, to) \<in> set edges \<Longrightarrow> grows cs (advance i from to now cs)"
  unfolding advance_def by (rule grows_map) (auto simp: becomes_def same_deal_def)

lemma sys_step_grows:
  assumes "sys_step look key x y" "saga_inv look key x"
  shows "grows (contracts (fst x)) (contracts (fst y))"
  using assms(1)
proof cases
  case (opened c d ms p)
  then show ?thesis by (simp add: grows_append)
next
  case (confirmed c d p hold es now2 now1)
  let ?cs = "advance (c_id c) StatusPending StatusHoldPending now1 (contracts d)"
  have inv: "saga_inv look key (d, p)" using assms(2) confirmed(1) by simp
  have none: "c_hold_id x = None" if "x \<in> set ?cs" "c_id x = c_id c" for x
  proof -
    from that obtain y where y: "y \<in> set (contracts d)" "c_id y = c_id c" "c_hold_id y = c_hold_id x"
      by (auto simp: advance_def split: if_splits)
    with same_contract [OF saga_invD(1) [OF inv], of y c] confirmed(3) have "y = c" by simp
    with y(3) saga_invD(7) [OF inv confirmed(3)] confirmed(4) show ?thesis
      by (auto simp: money_ok_def split: option.splits)
  qed
  have "grows ?cs (set_hold (c_id c) hold now2 ?cs)"
    unfolding set_hold_def upd_def by (rule grows_map) (auto simp: becomes_def same_deal_def none)
  moreover have "grows (contracts d) ?cs" by (rule grows_advance) (simp add: edges_def)
  ultimately show ?thesis using confirmed(1,2) by (auto intro: grows_trans)
next
  case (compensated c d cs now es p)
  then show ?thesis by (auto intro: grows_advance grows_refl simp: edges_def)
next
  case (moved c d src dst evs p es now)
  from moved(5) have "(src, dst) \<in> set edges" by (force simp: edges_def)
  with moved(1,2) show ?thesis by (simp add: grows_advance)
next
  case (announced_step d' d p)
  from announced_step(3) have "contracts d' = contracts d" by (cases d; cases d'; simp)
  with announced_step show ?thesis by (simp add: grows_refl)
qed (simp_all add: grows_refl)

lemma sys_steps_grow:
  assumes "(sys_step look key)\<^sup>*\<^sup>* x y" "saga_inv look key x"
  shows "grows (contracts (fst x)) (contracts (fst y))"
  using assms
proof (induction rule: rtranclp_induct)
  case (step y z)
  from sys_step_grows [OF step(2) sys_steps_inv [OF step(1,4)]] step show ?case by (auto intro: grows_trans)
qed (simp add: grows_refl)

section \<open>What a success says\<close>

lemma create_insert_result:
  assumes "create_insert c ms s = (Inr c', s')"
  shows "\<exists>i. c' = c\<lparr>c_id := i, c_status := StatusPending, c_currency := ''USD''\<rparr>"
  using assms by (auto simp: create_insert_def Let_def elim!: prog_elims)

lemma CreateContract_result:
  assumes "saga_CreateContract k svc c ms s = (Inr c', s')"
  shows "c_status c' = StatusHoldPending \<and> c_amount c' = c_amount c \<and>
    c_client_wallet_id c' = c_client_wallet_id c \<and> c_freelancer_wallet_id c' = c_freelancer_wallet_id c"
  using assms
  by (auto simp: saga_CreateContract_def elim!: prog_elims split: sum.splits dest!: create_insert_result)

text \<open>The hold behind a contract, in the payments database.\<close>

definition backed :: "codec \<Rightarrow> (string \<Rightarrow> uuid option) \<Rightarrow> pdb \<Rightarrow> Contract \<Rightarrow> string \<Rightarrow> bool" where
  "backed k parse p c st \<longleftrightarrow>
     (\<exists>u h. c_hold_id c = Some (uuid_String k u) \<and> sel h_id u (holds p) = Some h \<and> h_status h = st \<and>
        h_amount h = c_amount c \<and> parse (c_client_wallet_id c) = Some (h_wallet_id h) \<and>
        parse (c_id c) = Some (h_contract_id h) \<and>
        (st = ''transferred'' \<longrightarrow> recipient p u = parse (c_freelancer_wallet_id c)))"

text \<open>The reply to a request that succeeded, and the two databases after it.\<close>

definition success_state ::
  "codec \<Rightarrow> (string \<Rightarrow> uuid option) \<Rightarrow> contracts_call \<Rightarrow> response \<Rightarrow> cdb \<Rightarrow> pdb \<Rightarrow> bool" where
  "success_state k parse call r d p \<longleftrightarrow>
     (let ends = (\<lambda>i st hold. \<exists>c\<in>set (contracts d). c_id c = i \<and> c_status c = st \<and>
            r = Resp 200 (contract_json k c) \<and> backed k parse p c hold) in
      case call of
        PostContract bound \<Rightarrow> (\<exists>req c c'. bound = Some req \<and> r = Resp 201 (contract_json k c) \<and>
          c_amount c = cr_amount req \<and> c_client_wallet_id c = cr_client_wallet_id req \<and>
          c_freelancer_wallet_id c = cr_freelancer_wallet_id req \<and>
          c' \<in> set (contracts d) \<and> same_deal c c' \<and> c_status c' = StatusHoldPending \<and>
          backed k parse p c' ''active'')
      | PostAccept i \<Rightarrow> ends i StatusActive ''active''
      | PostComplete i \<Rightarrow> ends i StatusCompleted ''transferred''
      | PostCancel i \<Rightarrow> ends i StatusDeclined ''released''
      | _ \<Rightarrow> True)"

lemma code_create_reply: "code (create_reply e) \<notin> {200, 201}"
  by (simp add: create_reply_def)

lemma code_create_refused:
  assumes "handle_CreateContract k svc bound s = (Inl r, s')"
  shows "code r \<notin> {200, 201}"
  using assms
proof (cases rule: handle_CreateContract_run)
  case invalid
  then have "code r = 400" by blast
  then show ?thesis by simp
next
  case (runs req q')
  then obtain e where "r = create_reply e" by (cases q') simp_all
  then show ?thesis using code_create_reply by simp
qed

lemma code_action_reply:
  assumes "handle_action k op conflict failure i (s :: (cdb, string, 'p) saga_sess) = (Inl r, s')"
    and "code failure \<notin> {200, 201}"
  shows "code r \<notin> {200, 201}"
  using assms(1)
proof (cases rule: handle_action_run)
  case early
  then obtain e where "r = lookup_reply e" by blast
  then show ?thesis by (simp add: lookup_reply_def)
next
  case (refused s1 e)
  from refused(3) have "r = (if e = ErrStatusConflict then error_resp 409 conflict else failure)" by simp
  with assms(2) show ?thesis by simp
next
  case (finished s1 s2)
  from finished(4) have "r = internal_error" by simp
  then show ?thesis by simp
qed

lemma code_refused:
  fixes s :: "(cdb, string, 'p) saga_sess"
  shows "handle_AcceptContract k i s = (Inl r, s') \<Longrightarrow> code r \<notin> {200, 201}"
    and "handle_CompleteContract k svc i s = (Inl r, s') \<Longrightarrow> code r \<notin> {200, 201}"
    and "handle_CancelContract k svc i s = (Inl r, s') \<Longrightarrow> code r \<notin> {200, 201}"
  unfolding handle_AcceptContract_def handle_CompleteContract_def handle_CancelContract_def
  by (erule code_action_reply, simp)+

context uuid_text
begin

lemma serve_steps:
  assumes "contracts_serve k (PaymentsClient k parse) call s = (r, s')"
    and "saga_inv (look_payments k parse) parse (sys s)"
  shows "(sys_step (look_payments k parse) parse)\<^sup>*\<^sup>* (sys s) (sys s')"
  using assms by (rule link.contracts_serve_steps)

lemma serve_inv:
  assumes "saga_inv (look_payments k parse) parse (sys s)"
    and "contracts_serve k (PaymentsClient k parse) call s = (r, s')"
  shows "hire_inv k parse (s_db s') (s_db (net_pay (s_pay s')))"
  using sys_steps_inv [OF link.contracts_serve_steps [OF assms(2,1)] assms(1)] by (simp add: hire_inv_iff)

text \<open>The hold of a contract, by the contract's status.\<close>

lemma status_backed:
  assumes "hire_inv k parse d p" "c \<in> set (contracts d)"
  shows "c_hold_id c = None \<and> c_status c \<in> {StatusPending, StatusCancelled} \<or>
    backed k parse p c ''active'' \<and> c_status c \<in> {StatusHoldPending, StatusAwaitingAccept, StatusActive,
      StatusCompleting, StatusDeclining, StatusCancelled} \<or>
    backed k parse p c ''transferred'' \<and> c_status c \<in> {StatusCompleting, StatusCompleted} \<or>
    backed k parse p c ''released'' \<and> c_status c \<in> {StatusDeclining, StatusDeclined}"
proof (cases "c_hold_id c")
  case None
  with saga_invD(7) [OF assms(1) [unfolded hire_inv_def] assms(2)] show ?thesis
    by (simp add: money_ok_def)
next
  case (Some i)
  from hire_money [OF assms Some] obtain u h where u: "i = uuid_String k u" "sel h_id u (holds p) = Some h"
    "h_amount h = c_amount c" "parse (c_client_wallet_id c) = Some (h_wallet_id h)"
    "parse (c_id c) = Some (h_contract_id h)" and st:
    "h_status h = ''active'' \<and> c_status c \<in> {StatusHoldPending, StatusAwaitingAccept, StatusActive,
       StatusCompleting, StatusDeclining, StatusCancelled} \<or>
     h_status h = ''transferred'' \<and> recipient p u = parse (c_freelancer_wallet_id c) \<and>
       c_status c \<in> {StatusCompleting, StatusCompleted} \<or>
     h_status h = ''released'' \<and> c_status c \<in> {StatusDeclining, StatusDeclined}" .
  have "backed k parse p c (h_status h)" if "h_status h = ''transferred'' \<longrightarrow> recipient p u = parse (c_freelancer_wallet_id c)"
    unfolding backed_def using u Some that by blast
  with st show ?thesis by fastforce
qed

lemma action_success:
  assumes "(sys_step (look_payments k parse) parse)\<^sup>*\<^sup>* (sys s) (sys s') \<and>
      (\<forall>r. q = Inr r \<longrightarrow> (\<exists>c\<in>set (contracts (s_db s')). c_id c = i \<and> c_status c = st \<and>
         r = Resp 200 (contract_json k c)))"
    and "saga_inv (look_payments k parse) parse (sys s)" "q = Inr r"
    and "\<And>c. c_status c = st \<Longrightarrow> hire_inv k parse (s_db s') (s_db (net_pay (s_pay s'))) \<Longrightarrow>
      c \<in> set (contracts (s_db s')) \<Longrightarrow> backed k parse (s_db (net_pay (s_pay s'))) c hold"
  shows "\<exists>c\<in>set (contracts (s_db s')). c_id c = i \<and> c_status c = st \<and>
    r = Resp 200 (contract_json k c) \<and> backed k parse (s_db (net_pay (s_pay s'))) c hold"
proof -
  have "hire_inv k parse (s_db s') (s_db (net_pay (s_pay s')))"
    using sys_steps_inv [OF conjunct1 [OF assms(1)] assms(2)] by (simp add: hire_inv_iff)
  with assms(1,3,4) show ?thesis by blast
qed

lemma create_success:
  assumes "saga_inv (look_payments k parse) parse (sys s)"
    and "handle_CreateContract k (PaymentsClient k parse) bound s = (Inr r, s')"
  shows "success_state k parse (PostContract bound) r (s_db s') (s_db (net_pay (s_pay s')))"
  using assms(2)
proof (cases rule: handle_CreateContract_run)
  case (runs req q')
  from runs(4) obtain c where c: "q' = Inr c" "r = Resp 201 (contract_json k c)" by (cases q') auto
  from CreateContract_result [OF runs(3) [unfolded c(1)]] have fields: "c_amount c = cr_amount req"
    "c_client_wallet_id c = cr_client_wallet_id req" "c_freelancer_wallet_id c = cr_freelancer_wallet_id req"
    by (auto simp: request_contract_def)
  note steps = link.CreateContract_steps [OF runs(3) assms(1)]
  from steps c(1) obtain h c' where
    c': "c' \<in> set (contracts (s_db s'))" "same_deal c c'" "c_status c' = StatusHoldPending" "c_hold_id c' = Some h"
    by (auto simp: holds_with_def)
  have "hire_inv k parse (s_db s') (s_db (net_pay (s_pay s')))"
    using sys_steps_inv [OF conjunct1 [OF steps] assms(1)] by (simp add: hire_inv_iff)
  from status_backed [OF this c'(1)] c'(3) have "backed k parse (s_db (net_pay (s_pay s'))) c' ''active''" by simp
  with c' c(2) fields runs(1) show ?thesis
    unfolding success_state_def Let_def contracts_call.case by (intro exI conjI) assumption+
qed auto

lemma serve_success:
  assumes "saga_inv (look_payments k parse) parse (sys s)"
    and "contracts_serve k (PaymentsClient k parse) call s = (r, s')" "code r \<in> {200, 201}"
  shows "success_state k parse call r (s_db s') (s_db (net_pay (s_pay s')))"
proof (cases call)
  case (PostContract bound)
  with assms(2) obtain q where q: "handle_CreateContract k (PaymentsClient k parse) bound s = (q, s')"
    "q = Inl r \<or> q = Inr r" by (auto simp: contracts_serve_def elim: run_handler_sumE)
  from q code_create_refused assms(3) have "q \<noteq> Inl r" by blast
  with q create_success [OF assms(1)] PostContract show ?thesis by auto
next
  case (PostAccept i)
  with assms(2) obtain q where q: "handle_AcceptContract k i s = (q, s')" "q = Inl r \<or> q = Inr r"
    by (auto simp: contracts_serve_def elim: run_handler_sumE)
  have "q = Inr r" using q code_refused assms(3) by blast
  from action_success [OF link.handle_Accept_steps [OF q(1) assms(1)] assms(1) this, of "''active''"]
  show ?thesis by (simp add: success_state_def PostAccept) (use status_backed in fastforce)
next
  case (PostComplete i)
  with assms(2) obtain q where q: "handle_CompleteContract k (PaymentsClient k parse) i s = (q, s')"
    "q = Inl r \<or> q = Inr r" by (auto simp: contracts_serve_def elim: run_handler_sumE)
  have "q = Inr r" using q code_refused assms(3) by blast
  from action_success [OF link.handle_Complete_steps [OF q(1) assms(1)] assms(1) this, of "''transferred''"]
  show ?thesis by (simp add: success_state_def PostComplete) (use status_backed in fastforce)
next
  case (PostCancel i)
  with assms(2) obtain q where q: "handle_CancelContract k (PaymentsClient k parse) i s = (q, s')"
    "q = Inl r \<or> q = Inr r" by (auto simp: contracts_serve_def elim: run_handler_sumE)
  have "q = Inr r" using q code_refused assms(3) by blast
  from action_success [OF link.handle_Cancel_steps [OF q(1) assms(1)] assms(1) this, of "''released''"]
  show ?thesis by (simp add: success_state_def PostCancel) (use status_backed in fastforce)
qed (simp_all add: success_state_def)

end

section \<open>Retries of a settled contract\<close>

lemma GetByID_error:
  assumes "contract_GetByID auto_stmt i (s :: (cdb, string, 'p) saga_sess) = (Inl e, s')"
  shows "e \<noteq> ErrStatusConflict" "c \<in> set (contracts (s_db s)) \<Longrightarrow> c_id c = i \<Longrightarrow> e \<noteq> ErrContractNotFound"
proof -
  obtain e' where e': "auto_stmt (contract_select i) s = (Inl e', s')"
    "e = (if e' = ErrNoRows then ErrContractNotFound else ErrDatabase e')"
    using assms by (auto simp: contract_GetByID_def elim: map_err_InlE)
  then show "e \<noteq> ErrStatusConflict" by simp
  assume c: "c \<in> set (contracts (s_db s))" "c_id c = i"
  then have "sel c_id i (contracts (s_db s)) \<noteq> None" by (auto simp: sel_None_iff)
  with e' show "e \<noteq> ErrContractNotFound"
    by (auto simp: contract_select_def elim!: auto_stmt_InlE split: option.splits)
qed

lemma GetByID_found:
  assumes "contract_GetByID auto_stmt i (s :: (cdb, string, 'p) saga_sess) = (Inr c', s')"
    and "distinct (map c_id (contracts (s_db s)))" "c \<in> set (contracts (s_db s))" "c_id c = i"
  shows "c' = c"
  using GetByID_auto(3) [OF assms(1) refl] same_contract [OF assms(2), of c' c] assms(3,4) by simp

lemma claim_claimed:
  assumes "saga_claim i first mid (s :: (cdb, string, 'p) saga_sess) = (q, s')" "first \<noteq> mid"
    and c: "distinct (map c_id (contracts (s_db s)))" "c \<in> set (contracts (s_db s))" "c_id c = i"
      "c_status c = mid"
  shows "sys s' = sys s \<and> (q = Inr c \<or> (\<exists>e. q = Inl e \<and> e \<noteq> ErrStatusConflict))"
proof (cases rule: bnd_eqE [OF assms(1) [unfolded saga_claim_def]])
  case (1 e)
  with GetByID_auto(1,2) [OF 1(1)] GetByID_error(1) [OF 1(1)] show ?thesis by simp
next
  case (2 c' s1)
  from GetByID_found [OF 2(1) c(1-3)] have "c' = c" .
  with 2(2) assms(2) c(4) GetByID_auto(1,2) [OF 2(1)] show ?thesis by simp
qed

text \<open>Claim, settle, finish when the settling call fails: nothing changes.\<close>

lemma settle_refused:
  fixes s :: "(cdb, string, net) saga_sess"
  assumes run: "bnd (saga_claim i first mid) (\<lambda>c. case c_hold_id c of None \<Rightarrow> raise ErrNoHold
      | Some hold \<Rightarrow> bnd (pay_rpc (rpc hold c)) (\<lambda>_. saga_finish k i c mid final event)) s = (q, s')"
    and first: "first \<noteq> mid"
    and c: "distinct (map c_id (contracts (s_db s)))" "c \<in> set (contracts (s_db s))" "c_id c = i"
      "c_status c = mid" "c_hold_id c = Some hold"
    and rpc: "\<And>n r n'. rpc hold c n = (r, n') \<Longrightarrow> s_db (net_pay n) = s_db (net_pay (s_pay s)) \<Longrightarrow>
      s_db (net_pay n') = s_db (net_pay n) \<and> r \<noteq> Inr ()"
  shows "s_db s' = s_db s \<and> s_db (net_pay (s_pay s')) = s_db (net_pay (s_pay s)) \<and>
    (\<exists>e. q = Inl e \<and> e \<noteq> ErrStatusConflict)"
proof (cases rule: bnd_eqE [OF run])
  case (1 e)
  from claim_claimed [OF 1(1) first c(1-4)] 1(2) show ?thesis by auto
next
  case (2 c' s1)
  from claim_claimed [OF 2(1) first c(1-4)] have c': "c' = c" and s1: "sys s1 = sys s" by auto
  obtain r n where n: "rpc hold c (s_pay s1) = (r, n)" by fastforce
  from rpc [OF n] s1 have r: "s_db (net_pay n) = s_db (net_pay (s_pay s))" "\<exists>e. r = Inl e"
    by (cases r; simp)+
  from 2(2) n r(2) have "s' = s1\<lparr>s_pay := n\<rparr>" "q = Inl ErrPayments"
    by (auto simp: c' c(5) bnd_def pay_rpc_def)
  with r(1) s1 show ?thesis by simp
qed

lemma settled_call:
  assumes "parse i = Some u" "sel h_id u (holds (s_db (net_pay n))) = Some h" "\<not> active h"
  shows "client_TransferFunds k parse i w n = (r, n') \<Longrightarrow> s_db (net_pay n') = s_db (net_pay n) \<and> r \<noteq> Inr ()"
    and "client_ReleaseFunds k parse i n = (r, n') \<Longrightarrow> s_db (net_pay n') = s_db (net_pay n) \<and> r \<noteq> Inr ()"
proof -
  assume call: "client_TransferFunds k parse i w n = (r, n')"
  let ?call = "PostTransfer (case parse w of None \<Rightarrow> None
    | Some v \<Rightarrow> Some \<lparr>tr_hold_id = u, tr_recipient_wallet_id = v\<rparr>)"
  obtain x where x: "http_post (pay_serve k ?call) n = (x, n')"
    "r = Inr () \<Longrightarrow> \<exists>y. x = Some y \<and> code y = 200"
    using call by (auto simp: client_TransferFunds_def assms(1) split: prod.splits option.splits if_splits)
  from x(1) show "s_db (net_pay n') = s_db (net_pay n) \<and> r \<noteq> Inr ()"
  proof (cases rule: call_cases)
    case same
    with x(2) show ?thesis by auto
  next
    case (step ev)
    from step(2) obtain h' v where "ev = Transferred h' v" "h_id h' = u" by (cases ev; cases "parse w") auto
    with step(1) assms(2,3) show ?thesis by (auto elim!: transferred_stepE)
  qed
next
  assume call: "client_ReleaseFunds k parse i n = (r, n')"
  let ?call = "PostRelease (Some \<lparr>rr_hold_id = u\<rparr>)"
  obtain x where x: "http_post (pay_serve k ?call) n = (x, n')"
    "r = Inr () \<Longrightarrow> \<exists>y. x = Some y \<and> code y = 200"
    using call by (auto simp: client_ReleaseFunds_def assms(1) split: prod.splits option.splits if_splits)
  from x(1) show "s_db (net_pay n') = s_db (net_pay n) \<and> r \<noteq> Inr ()"
  proof (cases rule: call_cases)
    case same
    with x(2) show ?thesis by auto
  next
    case (step ev)
    from step(2) obtain h' where "ev = Released h'" "h_id h' = u" by (cases ev) auto
    with step(1) assms(2,3) show ?thesis by (auto elim!: released_stepE)
  qed
qed

lemma action_refused:
  assumes "handle_action k op conflict failure i (s :: (cdb, string, net) saga_sess) = (q, s')"
    and "c \<in> set (contracts (s_db s))" "c_id c = i"
    and op: "\<And>s1 q1 s2. op i s1 = (q1, s2) \<Longrightarrow> sys s1 = sys s \<Longrightarrow> s_db s2 = s_db s \<and>
      s_db (net_pay (s_pay s2)) = s_db (net_pay (s_pay s)) \<and> (\<exists>e. q1 = Inl e \<and> e \<noteq> ErrStatusConflict)"
  shows "s_db s' = s_db s \<and> s_db (net_pay (s_pay s')) = s_db (net_pay (s_pay s)) \<and>
    q \<in> {Inl failure, Inl internal_error}"
proof (cases rule: bnd_eqE [OF assms(1) [unfolded handle_action_def]])
  case (1 e)
  from 1(1) obtain e' where e': "contract_GetByID auto_stmt i s = (Inl e', s')" "e = lookup_reply e'"
    by (auto elim: map_err_InlE)
  with GetByID_auto(1,2) [OF e'(1)] GetByID_error(2) [OF e'(1) assms(2,3)] 1(2) show ?thesis
    by (simp add: lookup_reply_def)
next
  case (2 c' s1)
  from 2(1) have "contract_GetByID auto_stmt i s = (Inr c', s1)" by (auto elim: map_err_InrE)
  from GetByID_auto(1,2) [OF this] have s1: "sys s1 = sys s" by simp
  obtain q1 s2 where run: "op i s1 = (q1, s2)" by fastforce
  from op [OF run s1] 2(2) run show ?thesis by (auto simp: bnd_def map_err_def)
qed

context uuid_text
begin

lemma retry_refused:
  assumes inv: "hire_inv k parse (s_db s) (s_db (net_pay (s_pay s)))" and c: "c \<in> set (contracts (s_db s))"
    and st: "c_status c = StatusCompleting \<and> call = PostComplete (c_id c) \<or>
      c_status c = StatusDeclining \<and> call = PostCancel (c_id c)"
    and settled: "\<not> backed k parse (s_db (net_pay (s_pay s))) c ''active''"
    and run: "contracts_serve k (PaymentsClient k parse) call s = (r, s')"
  shows "s_db s' = s_db s \<and> s_db (net_pay (s_pay s')) = s_db (net_pay (s_pay s)) \<and> code r \<in> {500, 502}"
proof -
  have dist: "distinct (map c_id (contracts (s_db s)))"
    using saga_invD(1) [OF inv [unfolded hire_inv_def]] .
  obtain u h where u: "c_hold_id c = Some (uuid_String k u)" "sel h_id u (holds (s_db (net_pay (s_pay s)))) = Some h"
    "\<not> active h"
    using status_backed [OF inv c] settled st by (auto simp: backed_def active_def)
  note refused = settled_call [where parse = parse and i = "uuid_String k u" and u = u and h = h]
  from st show ?thesis
  proof (elim disjE conjE)
    assume st: "c_status c = StatusCompleting" and call: "call = PostComplete (c_id c)"
    from run obtain q where q: "handle_CompleteContract k (PaymentsClient k parse) (c_id c) s = (q, s')"
      "q = Inl r \<or> q = Inr r" by (auto simp: contracts_serve_def call elim: run_handler_sumE)
    have "s_db s2 = s_db s \<and> s_db (net_pay (s_pay s2)) = s_db (net_pay (s_pay s)) \<and>
        (\<exists>e. q1 = Inl e \<and> e \<noteq> ErrStatusConflict)"
      if run: "saga_CompleteContract k (PaymentsClient k parse) (c_id c) s1 = (q1, s2)" and s1: "sys s1 = sys s" for s1 q1 s2
    proof -
      have same: "s_db s1 = s_db s" "s_pay s1 = s_pay s" using s1 by simp_all
      have rpc: "s_db (net_pay n') = s_db (net_pay n) \<and> r \<noteq> Inr ()"
        if "svc_TransferFunds (PaymentsClient k parse) (uuid_String k u) (c_freelancer_wallet_id c) n = (r, n')" "s_db (net_pay n) = s_db (net_pay (s_pay s1))" for n r n'
      proof -
        have "sel h_id u (holds (s_db (net_pay n))) = Some h" using that(2) u(2) same by simp
        from refused(1) [OF parse_String this u(3)] that(1) show ?thesis by (simp add: PaymentsClient_def)
      qed
      from settle_refused [where rpc = "\<lambda>hold c. svc_TransferFunds (PaymentsClient k parse) hold (c_freelancer_wallet_id c)", OF run [unfolded saga_CompleteContract_def] _ _ _ refl st u(1) rpc]
        dist c same show ?thesis by simp
    qed
    with q(1) [unfolded handle_CompleteContract_def] c refl
    have "s_db s' = s_db s \<and> s_db (net_pay (s_pay s')) = s_db (net_pay (s_pay s)) \<and>
      q \<in> {Inl (error_resp 502 ''payment service unavailable, retry later''), Inl internal_error}"
      by (rule action_refused)
    with q(2) show ?thesis by auto
  next
    assume st: "c_status c = StatusDeclining" and call: "call = PostCancel (c_id c)"
    from run obtain q where q: "handle_CancelContract k (PaymentsClient k parse) (c_id c) s = (q, s')"
      "q = Inl r \<or> q = Inr r" by (auto simp: contracts_serve_def call elim: run_handler_sumE)
    have "s_db s2 = s_db s \<and> s_db (net_pay (s_pay s2)) = s_db (net_pay (s_pay s)) \<and>
        (\<exists>e. q1 = Inl e \<and> e \<noteq> ErrStatusConflict)"
      if run: "saga_CancelContract k (PaymentsClient k parse) (c_id c) s1 = (q1, s2)" and s1: "sys s1 = sys s" for s1 q1 s2
    proof -
      have same: "s_db s1 = s_db s" "s_pay s1 = s_pay s" using s1 by simp_all
      have rpc: "s_db (net_pay n') = s_db (net_pay n) \<and> r \<noteq> Inr ()"
        if "svc_ReleaseFunds (PaymentsClient k parse) (uuid_String k u) n = (r, n')" "s_db (net_pay n) = s_db (net_pay (s_pay s1))" for n r n'
      proof -
        have "sel h_id u (holds (s_db (net_pay n))) = Some h" using that(2) u(2) same by simp
        from refused(2) [OF parse_String this u(3)] that(1) show ?thesis by (simp add: PaymentsClient_def)
      qed
      from settle_refused [where rpc = "\<lambda>hold c. svc_ReleaseFunds (PaymentsClient k parse) hold", OF run [unfolded saga_CancelContract_def] _ _ _ refl st u(1) rpc]
        dist c same show ?thesis by simp
    qed
    with q(1) [unfolded handle_CancelContract_def] c refl
    have "s_db s' = s_db s \<and> s_db (net_pay (s_pay s')) = s_db (net_pay (s_pay s)) \<and>
      q \<in> {Inl (error_resp 502 ''payment service unavailable, retry later''), Inl internal_error}"
      by (rule action_refused)
    with q(2) show ?thesis by auto
  qed
qed

end

section \<open>Payment events that find no contract waiting for them\<close>

lemma move_rejected:
  assumes "saga_move k i from to event (s :: (cdb, string, 'p) saga_sess) = (q, s')" "to \<noteq> from"
    and "\<not> in_status (s_db s) i from"
  shows "sys s' = sys s \<and> q \<noteq> Inr ()"
proof (cases rule: saga_bracket [OF assms(1) [unfolded saga_move_def]])
  case (1 e)
  then show ?thesis by simp
next
  case (2 s1 s2)
  from 2(1) show ?thesis
  proof (cases rule: bnd_eqE)
    case (stop e)
    with UpdateStatus_tx [OF stop(1) assms(2)] 2 show ?thesis by simp
  next
    case (go x s3)
    from UpdateStatus_tx [OF go(1) assms(2)] 2(2) have "in_status (s_db s) i from"
      by (auto simp: in_status_def)
    with assms(3) show ?thesis ..
  qed
qed

lemma consume_rejected:
  assumes "consume k (subject, Some j) (s :: (cdb, string, 'p) saga_sess) = (v, s')"
    and "string_field ''contract_id'' j = Some i" "i \<noteq> ''''"
    and "subject \<in> {''payments.payment.held'', ''payments.payment.failed''}"
    and none: "\<not> in_status (s_db s) i StatusHoldPending"
  shows "v = Nak \<and> sys s' = sys s"
proof -
  obtain q s1 where run: "dispatch k subject i s = (q, s1)" by fastforce
  have "sys s1 = sys s \<and> q \<noteq> Inr ()"
  proof (cases "subject = ''payments.payment.held''")
    case True
    with run have "contract_UpdateStatus auto_stmt i StatusHoldPending StatusAwaitingAccept s = (q, s1)"
      by (simp add: dispatch_def saga_HandlePaymentHeld_def)
    from UpdateStatus_auto [OF this] none show ?thesis by (auto simp: in_status_def)
  next
    case False
    with run assms(4) have "saga_move k i StatusHoldPending StatusCancelled EventContractCancelled s = (q, s1)"
      by (simp add: dispatch_def saga_HandlePaymentFailed_def)
    from move_rejected [OF this _ none] show ?thesis by simp
  qed
  with assms(1-3) run show ?thesis
    by (cases q) (auto simp: consume_def)
qed

lemma consume_ignored:
  assumes "consume k (subject, Some j) s = (v, s')" "string_field ''contract_id'' j = Some i" "i \<noteq> ''''"
    and "subject \<notin> {''payments.payment.held'', ''payments.payment.failed''}"
  shows "v = Ack \<and> s' = s"
  using assms by (auto simp: consume_def dispatch_def ret_def)

end
