(* ===== verification/ContractsProgress.thy ===== *)
theory ContractsProgress
  imports ContractsLife
begin

text \<open>
  Liveness of the settling requests: when neither database nor the network between the services
  fails and the identifiers drawn are new, completing an active contract and cancelling one that
  awaits acceptance go through, also when an earlier attempt stopped before the hold was settled.
\<close>

section \<open>Completion goes through when nothing fails\<close>

text \<open>Runs without faults that draw at most \<open>n\<close> identifiers; \<open>calm\<close> is what they keep.\<close>

definition calm :: "nat \<Rightarrow> (cdb, string, 'p) saga_sess \<Rightarrow> (cdb, string, 'p) saga_sess \<Rightarrow> bool" where
  "calm n s s' \<longleftrightarrow> s_faults s' = [] \<and> s_gen s' = s_gen s \<and> s_pay s' = s_pay s \<and>
     s_used s \<le> s_used s' \<and> s_used s' \<le> s_used s + n"

lemma GetByID_fine:
  assumes "s_faults s = []" "sel c_id i (contracts (s_db s)) = Some c"
  obtains s' where "contract_GetByID auto_stmt i s = (Inr c, s')" "s_db s' = s_db s" "calm 1 s s'"
  using assms by (simp add: contract_GetByID_def map_err_def auto_stmt_fine contract_select_def calm_def)

lemma update_status_hit:
  assumes "c \<in> set (contracts d)" "c_id c = i" "c_status c = from" "to \<noteq> from" "fits 30 to"
  shows "\<exists>n. contract_update_status i from to now u d
    = Inr (Suc n, d\<lparr>contracts := advance i from to now (contracts d)\<rparr>)"
proof -
  have "filter (\<lambda>c. c_id c = i \<and> c_status c = from \<and> to \<noteq> from) (contracts d) \<noteq> []"
    using assms(1-4) by (auto simp: filter_empty_conv)
  then obtain n where "length (filter (\<lambda>c. c_id c = i \<and> c_status c = from \<and> to \<noteq> from) (contracts d)) = Suc n"
    by (cases "filter (\<lambda>c. c_id c = i \<and> c_status c = from \<and> to \<noteq> from) (contracts d)") auto
  with assms(4,5) show ?thesis
    by (intro exI [of _ n]) (auto simp: contract_update_status_def Let_def advance_def intro!: map_cong)
qed

lemma UpdateStatus_auto_fine:
  assumes "s_faults s = []" "c \<in> set (contracts (s_db s))" "c_id c = i" "c_status c = from" "to \<noteq> from" "fits 30 to"
  obtains s' where "contract_UpdateStatus auto_stmt i from to s = (Inr (), s')" "calm 1 s s'"
    "s_db s' = (s_db s)\<lparr>contracts := advance i from to (s_now s) (contracts (s_db s))\<rparr>"
proof -
  obtain n where "contract_update_status i from to (s_now s) (next_id s) (s_db s)
      = Inr (Suc n, (s_db s)\<lparr>contracts := advance i from to (s_now s) (contracts (s_db s))\<rparr>)"
    using update_status_hit [OF assms(2-6)] by blast
  with assms(1) show thesis
    by (intro that [of "snd (contract_UpdateStatus auto_stmt i from to s)"])
      (simp_all add: contract_UpdateStatus_def bnd_def map_err_def auto_stmt_fine calm_def)
qed

lemma finish_fine:
  assumes "s_faults s = []" "c0 \<in> set (contracts (s_db s))" "c_id c0 = i" "c_status c0 = mid" "final \<noteq> mid"
    and "fits 30 final" "fits 36 i" "fits 100 event"
    and ids: "s_gen s (Suc (s_used s)) \<notin> e_id ` set (contract_events (s_db s))" "fits 36 (s_gen s (Suc (s_used s)))"
  obtains s' where "saga_finish k i c mid final event s = (Inr (), s')" "s_faults s' = []"
    "contracts (s_db s') = advance i mid final (s_now s) (contracts (s_db s))"
proof -
  let ?d = "(s_db s)\<lparr>contracts := advance i mid final (s_now s) (contracts (s_db s))\<rparr>"
  let ?p = "contract_json k (c\<lparr>c_status := final\<rparr>)"
  obtain n where upd: "contract_update_status i mid final (s_now s) (s_gen s (s_used s)) (s_db s) = Inr (Suc n, ?d)"
    using update_status_hit [OF assms(2-6)] by blast
  let ?e = "contract_entry (s_gen s (Suc (s_used s))) i event ?p"
  have ins: "mysql_Insert ?e (s_now s) (s_gen s (Suc (Suc (s_used s)))) ?d
      = Inr ((), ?d\<lparr>contract_events := contract_events (s_db s) @ [?e\<lparr>e_created_at := s_now s, e_published_at := None\<rparr>]\<rparr>)"
    using ids assms(7,8)
    by (simp add: mysql_Insert_def contract_entry_def entry_fits_def fits_def)
  show thesis
    by (rule that [of "snd (saga_finish k i c mid final event s)"])
      (use assms(1) upd ins in \<open>simp_all add: saga_finish_def contract_UpdateStatus_def emit_def
      bnd_def map_err_def fine_runs draw_id_def MySQLOutboxStore_def\<close>)
qed

lemma sel_contract:
  "distinct (map c_id cs) \<Longrightarrow> c \<in> set cs \<Longrightarrow> sel c_id (c_id c) cs = Some c"
  by (simp add: sel_eq_Some_iff)

lemma claim_fine:
  assumes "s_faults s = []" "distinct (map c_id (contracts (s_db s)))" "c \<in> set (contracts (s_db s))"
    and "c_status c \<in> {first, mid}" "first \<noteq> mid" "fits 30 mid"
  obtains s' c' where "saga_claim (c_id c) first mid s = (Inr (c\<lparr>c_status := mid\<rparr>), s')" "calm 2 s s'"
    "contract_events (s_db s') = contract_events (s_db s)" "c' \<in> set (contracts (s_db s'))"
    "c_id c' = c_id c" "c_status c' = mid"
proof -
  obtain s1 where get: "contract_GetByID auto_stmt (c_id c) s = (Inr c, s1)" "s_db s1 = s_db s" "calm 1 s s1"
    using GetByID_fine [OF assms(1) sel_contract [OF assms(2,3)]] .
  show thesis
  proof (cases "c_status c = first")
    case True
    from get(3) have "s_faults s1 = []" by (simp add: calm_def)
    moreover from assms(3) get(2) have "c \<in> set (contracts (s_db s1))" by simp
    ultimately obtain s2 where upd: "contract_UpdateStatus auto_stmt (c_id c) first mid s1 = (Inr (), s2)" "calm 1 s1 s2"
      "s_db s2 = (s_db s1)\<lparr>contracts := advance (c_id c) first mid (s_now s1) (contracts (s_db s1))\<rparr>"
      by (rule UpdateStatus_auto_fine [OF _ _ refl True not_sym [OF assms(5)] assms(6)])
    have "saga_claim (c_id c) first mid s = (Inr (c\<lparr>c_status := mid\<rparr>), s2)"
      using get upd True assms(5) by (simp add: saga_claim_def bnd_def)
    then show thesis
    proof (rule that)
      show "c\<lparr>c_status := mid, c_updated_at := s_now s1\<rparr> \<in> set (contracts (s_db s2))"
        using advance_in [OF assms(3) refl True] upd(3) get(2) by simp
    qed (use upd get in \<open>simp_all add: calm_def\<close>)
  next
    case False
    with assms(4) have mid: "c_status c = mid" by simp
    then have "c\<lparr>c_status := mid\<rparr> = c" by (cases c) simp
    with get mid assms(5) have "saga_claim (c_id c) first mid s = (Inr (c\<lparr>c_status := mid\<rparr>), s1)"
      by (simp add: saga_claim_def bnd_def)
    then show thesis by (rule that [where c' = c]) (use get assms(3) mid in \<open>simp_all add: calm_def\<close>)
  qed
qed

text \<open>Claim, settle, finish when the settling call succeeds.\<close>

lemma settle_fine:
  fixes s :: "(cdb, string, 'p) saga_sess"
  assumes "s_faults s = []" "distinct (map c_id (contracts (s_db s)))" "c \<in> set (contracts (s_db s))"
      "c_status c \<in> {first, mid}" "c_hold_id c = Some hold"
    and neq: "first \<noteq> mid" "final \<noteq> mid" and fits: "fits 30 mid" "fits 30 final" "fits 36 (c_id c)" "fits 100 event"
    and ids: "\<And>n. s_used s \<le> n \<Longrightarrow> n \<le> s_used s + 3 \<Longrightarrow>
      s_gen s n \<notin> e_id ` set (contract_events (s_db s)) \<and> fits 36 (s_gen s n)"
    and rpc: "fst (rpc hold (c\<lparr>c_status := mid\<rparr>) (s_pay s)) = Inr ()"
  shows "\<exists>s'. bnd (saga_claim (c_id c) first mid) (\<lambda>c'. case c_hold_id c' of None \<Rightarrow> raise ErrNoHold
      | Some hold \<Rightarrow> bnd (pay_rpc (rpc hold c')) (\<lambda>_. saga_finish k (c_id c) c' mid final event)) s = (Inr (), s') \<and>
    s_faults s' = [] \<and> c_id c \<in> c_id ` set (contracts (s_db s'))"
proof -
  obtain s1 c1 where claim: "saga_claim (c_id c) first mid s = (Inr (c\<lparr>c_status := mid\<rparr>), s1)" "calm 2 s s1"
    "contract_events (s_db s1) = contract_events (s_db s)" "c1 \<in> set (contracts (s_db s1))"
    "c_id c1 = c_id c" "c_status c1 = mid"
    using claim_fine [OF assms(1-4) neq(1) fits(1)] .
  obtain p where p: "rpc hold (c\<lparr>c_status := mid\<rparr>) (s_pay s1) = (Inr (), p)"
    using rpc claim(2) by (cases "rpc hold (c\<lparr>c_status := mid\<rparr>) (s_pay s)") (auto simp: calm_def)
  let ?s2 = "s1\<lparr>s_pay := p\<rparr>"
  obtain s3 where fin: "saga_finish k (c_id c) (c\<lparr>c_status := mid\<rparr>) mid final event ?s2 = (Inr (), s3)"
    "s_faults s3 = []" "contracts (s_db s3) = advance (c_id c) mid final (s_now ?s2) (contracts (s_db ?s2))"
    by (rule finish_fine [of ?s2 c1 "c_id c" mid final event])
      (use claim neq fits ids in \<open>simp_all add: calm_def\<close>)
  have "map c_id (contracts (s_db s3)) = map c_id (contracts (s_db s1))" using fin(3) by simp
  then have "c_id c \<in> c_id ` set (contracts (s_db s3))"
    using claim(4,5) by (metis image_eqI list.set_map)
  with claim(1) p fin assms(5) show ?thesis
    by (intro exI [of _ s3]) (simp add: bnd_def pay_rpc_def)
qed

text \<open>An action that succeeds is answered with the contract.\<close>

lemma action_fine:
  assumes "s_faults s = []" "sel c_id i (contracts (s_db s)) = Some c"
    and op: "\<And>s1. s_db s1 = s_db s \<Longrightarrow> calm 1 s s1 \<Longrightarrow>
      \<exists>s2. op i s1 = (Inr (), s2) \<and> s_faults s2 = [] \<and> i \<in> c_id ` set (contracts (s_db s2))"
  shows "\<exists>r s'. handle_action k op conflict failure i s = (Inr r, s') \<and> code r = 200"
proof -
  obtain s1 where get: "contract_GetByID auto_stmt i s = (Inr c, s1)" "s_db s1 = s_db s" "calm 1 s s1"
    using GetByID_fine [OF assms(1,2)] .
  from op [OF get(2,3)] obtain s2 where s2: "op i s1 = (Inr (), s2)" "s_faults s2 = []"
    "i \<in> c_id ` set (contracts (s_db s2))" by blast
  then obtain c2 where "sel c_id i (contracts (s_db s2)) = Some c2" by (metis not_None_eq sel_None_iff)
  from GetByID_fine [OF s2(2) this] obtain s3 where "contract_GetByID auto_stmt i s2 = (Inr c2, s3)" .
  with get s2(1) show ?thesis by (simp add: handle_action_def bnd_def map_err_def)
qed


lemma names_fit:
  "fits 30 StatusCompleting" "fits 30 StatusCompleted" "fits 30 StatusDeclining" "fits 30 StatusDeclined"
  "fits 100 EventContractCompleted" "fits 100 EventContractDeclined"
  by code_simp+

lemma http_post_fine: "net_faults n = [] \<Longrightarrow> http_post serve n =
    (Some (fst (serve (net_pay n))), n\<lparr>net_pay := snd (serve (net_pay n))\<rparr>)"
  by (cases "serve (net_pay n)") (simp add: http_post_def)

text \<open>Both services healthy, and identifiers that are new to their tables.\<close>

definition healthy :: "(cdb, string, net) saga_sess \<Rightarrow> bool" where
  "healthy s \<longleftrightarrow> s_faults s = [] \<and> net_faults (s_pay s) = [] \<and> s_faults (net_pay (s_pay s)) = [] \<and>
     pay_inv (s_db (net_pay (s_pay s))) \<and> fresh_ids (net_pay (s_pay s)) \<and>
     distinct (map c_id (contracts (s_db s))) \<and>
     (\<forall>n\<in>{s_used s..s_used s + 8}. s_gen s n \<notin> e_id ` set (contract_events (s_db s)) \<and> fits 36 (s_gen s n))"

context uuid_text
begin

lemma complete_progress:
  assumes "healthy s" and c: "c \<in> set (contracts (s_db s))" "fits 36 (c_id c)"
      "c_status c \<in> {StatusActive, StatusCompleting}"
    and hold: "backed k parse (s_db (net_pay (s_pay s))) c ''active''" "c_hold_id c \<noteq> Some (uuid_String k uuid_Nil)"
    and rcp: "parse (c_freelancer_wallet_id c) = Some w" "parse (c_client_wallet_id c) \<noteq> Some w" "w \<noteq> uuid_Nil"
      "sel w_id w (wallets (s_db (net_pay (s_pay s)))) = Some row"
      "sint (w_balance row) + sint (c_amount c) < 2 ^ 63"
  shows "code (fst (contracts_serve k (PaymentsClient k parse) (PostComplete (c_id c)) s)) = 200"
proof -
  let ?n = "s_pay s"
  obtain u h where u: "c_hold_id c = Some (uuid_String k u)" "sel h_id u (holds (s_db (net_pay ?n))) = Some h"
    "active h" "h_amount h = c_amount c" "parse (c_client_wallet_id c) = Some (h_wallet_id h)"
    using hold(1) by (auto simp: backed_def active_def)
  let ?req = "\<lparr>tr_hold_id = u, tr_recipient_wallet_id = w\<rparr>"
  have "code (fst (pay_serve k (PostTransfer (Some ?req)) (net_pay ?n))) = 200"
    using transfer_progress [of "net_pay ?n" ?req h k] assms(1) u hold(2) rcp by (auto simp: healthy_def)
  then have rpc: "fst (client_TransferFunds k parse (uuid_String k u) (c_freelancer_wallet_id c) ?n) = Inr ()"
    using assms(1) rcp(1) by (simp add: client_TransferFunds_def http_post_fine healthy_def parse_String)
  have "\<exists>s2. saga_CompleteContract k (PaymentsClient k parse) (c_id c) s1 = (Inr (), s2) \<and>
      s_faults s2 = [] \<and> c_id c \<in> c_id ` set (contracts (s_db s2))"
    if s1: "s_db s1 = s_db s" "calm 1 s s1" for s1
    unfolding saga_CompleteContract_def
    by (rule settle_fine [where rpc = "\<lambda>hold c. svc_TransferFunds (PaymentsClient k parse) hold (c_freelancer_wallet_id c)"])
      (use s1 assms(1) c u(1) rpc in \<open>simp_all add: calm_def healthy_def PaymentsClient_def names_fit\<close>)
  then have "\<exists>r s'. handle_CompleteContract k (PaymentsClient k parse) (c_id c) s = (Inr r, s') \<and> code r = 200"
    unfolding handle_CompleteContract_def
    by (rule action_fine [rotated 2]) (use assms(1) sel_contract [OF _ c(1)] in \<open>auto simp: healthy_def\<close>)
  then show ?thesis by (auto simp: contracts_serve_def run_handler_def)
qed

lemma cancel_progress:
  assumes "healthy s" and c: "c \<in> set (contracts (s_db s))" "fits 36 (c_id c)"
      "c_status c \<in> {StatusAwaitingAccept, StatusDeclining}"
    and hold: "backed k parse (s_db (net_pay (s_pay s))) c ''active''" "c_hold_id c \<noteq> Some (uuid_String k uuid_Nil)"
  shows "code (fst (contracts_serve k (PaymentsClient k parse) (PostCancel (c_id c)) s)) = 200"
proof -
  let ?n = "s_pay s"
  obtain u h where u: "c_hold_id c = Some (uuid_String k u)" "sel h_id u (holds (s_db (net_pay ?n))) = Some h"
    "active h" using hold(1) by (auto simp: backed_def active_def)
  have "code (fst (pay_serve k (PostRelease (Some \<lparr>rr_hold_id = u\<rparr>)) (net_pay ?n))) = 200"
    using release_progress [of "net_pay ?n" "\<lparr>rr_hold_id = u\<rparr>" h k] assms(1) u hold(2) by (auto simp: healthy_def)
  then have rpc: "fst (client_ReleaseFunds k parse (uuid_String k u) ?n) = Inr ()"
    using assms(1) by (simp add: client_ReleaseFunds_def http_post_fine healthy_def parse_String)
  have "\<exists>s2. saga_CancelContract k (PaymentsClient k parse) (c_id c) s1 = (Inr (), s2) \<and>
      s_faults s2 = [] \<and> c_id c \<in> c_id ` set (contracts (s_db s2))"
    if s1: "s_db s1 = s_db s" "calm 1 s s1" for s1
    unfolding saga_CancelContract_def
    by (rule settle_fine [where rpc = "\<lambda>hold c. svc_ReleaseFunds (PaymentsClient k parse) hold"])
      (use s1 assms(1) c u(1) rpc in \<open>simp_all add: calm_def healthy_def PaymentsClient_def names_fit\<close>)
  then have "\<exists>r s'. handle_CancelContract k (PaymentsClient k parse) (c_id c) s = (Inr r, s') \<and> code r = 200"
    unfolding handle_CancelContract_def
    by (rule action_fine [rotated 2]) (use assms(1) sel_contract [OF _ c(1)] in \<open>auto simp: healthy_def\<close>)
  then show ?thesis by (auto simp: contracts_serve_def run_handler_def)
qed

end

end
