(* ===== verification/ContractsProps.thy ===== *)
theory ContractsProps
  imports ContractsProgress PaymentsProps
begin

text \<open>
  The properties of the contracts service and of the two services together, each with a concrete
  run that its hypotheses fit. The \<open>demo\<close> definitions are the data of those runs, the \<open>world\<close>
  ones the pairs of databases they lead to.
\<close>

section \<open>Data for the concrete runs\<close>

definition demo_gen :: "nat \<Rightarrow> string" where
  "demo_gen i = short_hex (i + 256)"

definition demo_net :: "nat \<Rightarrow> fault list \<Rightarrow> fault list \<Rightarrow> pdb \<Rightarrow> net" where
  "demo_net used faults lost p = \<lparr>net_pay = demo_session used faults p, net_faults = lost\<rparr>"

definition demo_saga :: "nat \<Rightarrow> fault list \<Rightarrow> cdb \<Rightarrow> net \<Rightarrow> (cdb, string, net) saga_sess" where
  "demo_saga used faults d n = \<lparr>s_db = d, s_tx = d, s_faults = faults, s_now = 9, s_gen = demo_gen,
     s_used = used, s_pay = n\<rparr>"

definition demo_request :: CreateContractRequest where
  "demo_request = \<lparr>cr_client_id = ''11'', cr_freelancer_id = ''22'', cr_title = ''site'',
     cr_description = '''', cr_amount = 60000, cr_client_wallet_id = ''10'', cr_freelancer_wallet_id = ''11'',
     cr_milestones = [\<lparr>ms_title = ''all'', ms_description = '''', ms_amount = 60000, ms_position = 0\<rparr>]\<rparr>"

type_synonym world = "cdb \<times> pdb"

definition demo_run ::
  "contracts_call \<Rightarrow> fault list \<Rightarrow> fault list \<Rightarrow> fault list \<Rightarrow> nat \<Rightarrow> world \<Rightarrow> response \<times> (cdb, string, net) saga_sess" where
  "demo_run call faults pfaults lost used w = contracts_serve short_codec (PaymentsClient short_codec short_Parse) call
     (demo_saga used faults (fst w) (demo_net used pfaults lost (snd w)))"

definition world_of :: "(cdb, string, net) saga_sess \<Rightarrow> world" where
  "world_of s = (s_db s, s_db (net_pay (s_pay s)))"

definition demo_serve :: "contracts_call \<Rightarrow> fault list \<Rightarrow> fault list \<Rightarrow> fault list \<Rightarrow> nat \<Rightarrow> world \<Rightarrow> world" where
  "demo_serve call faults pfaults lost used w = world_of (snd (demo_run call faults pfaults lost used w))"

definition demo_consume :: "string \<times> json option \<Rightarrow> nat \<Rightarrow> world \<Rightarrow> world" where
  "demo_consume m used w = world_of (snd (consume short_codec m
     (demo_saga used [] (fst w) (demo_net used [] [] (snd w)))))"

definition demo_message :: "string \<Rightarrow> string \<Rightarrow> string \<times> json option" where
  "demo_message subject i = (subject, Some (JObj [(''contract_id'', JStr i)]))"

definition world_created :: world where
  "world_created = demo_serve (PostContract (Some demo_request)) [] [] [] 20 (empty_cdb, demo_seeded)"

definition world_lost :: world where
  "world_lost = demo_serve (PostContract (Some demo_request)) [] [] [After] 20 (empty_cdb, demo_seeded)"

text \<open>Compensations of which only one half is written: the status without the event, the event
  without the status.\<close>

definition world_silent :: world where
  "world_silent = demo_serve (PostContract (Some demo_request)) (replicate 6 Fine @ [Before]) [] [Before] 20
     (empty_cdb, demo_seeded)"

definition world_early :: world where
  "world_early = demo_serve (PostContract (Some demo_request)) (replicate 5 Fine @ [Before]) [] [Before] 20
     (empty_cdb, demo_seeded)"

definition world_awaiting :: world where
  "world_awaiting = demo_consume (demo_message ''payments.payment.held'' ''114'') 40 world_created"

definition world_active :: world where
  "world_active = demo_serve (PostAccept ''114'') [] [] [] 60 world_awaiting"

definition world_completed :: world where
  "world_completed = demo_serve (PostComplete ''114'') [] [] [] 80 world_active"

text \<open>Completion whose last transaction failed after payments had transferred the hold.\<close>

definition world_stuck :: world where
  "world_stuck = demo_serve (PostComplete ''114'') (replicate 4 Fine @ [Before]) [] [] 80 world_active"

text \<open>
  The rows of these worlds: one contract for 60000, its milestone and its events; the seeded
  wallets, with 60000 on hold or paid out.
\<close>

definition demo_contract :: "string \<Rightarrow> string option \<Rightarrow> Contract" where
  "demo_contract st hold = \<lparr>c_id = ''114'', c_client_id = ''11'', c_freelancer_id = ''22'',
     c_title = ''site'', c_description = '''', c_amount = 60000, c_currency = ''USD'', c_status = st,
     c_client_wallet_id = ''10'', c_freelancer_wallet_id = ''11'', c_hold_id = hold,
     c_created_at = 9, c_updated_at = 9\<rparr>"

definition demo_event :: "string \<Rightarrow> string \<Rightarrow> string \<Rightarrow> string option \<Rightarrow> string entry" where
  "demo_event i event st hold = \<lparr>e_id = i, e_aggregate_type = ''contract'', e_aggregate_id = ''114'',
     e_event_type = event, e_payload = contract_json short_codec (demo_contract st hold),
     e_created_at = 9, e_published_at = None\<rparr>"

definition demo_contracts :: "string \<Rightarrow> string option \<Rightarrow> string entry list \<Rightarrow> cdb" where
  "demo_contracts st hold es = \<lparr>contracts = [demo_contract st hold],
     milestones = [\<lparr>m_id = ''116'', m_contract_id = ''114'', m_title = ''all'', m_description = '''',
       m_amount = 60000, m_position = 0, m_status = ''PENDING'', m_created_at = 9, m_updated_at = 9\<rparr>],
     contract_events = es\<rparr>"

definition demo_wallets :: "int64 \<Rightarrow> int64 \<Rightarrow> wallet_row list" where
  "demo_wallets a b =
    [\<lparr>w_id = 16, w_user_id = 0x11111111111111111111111111111111, w_balance = a,
         w_currency = ''USD'', w_created_at = 7, w_updated_at = 7\<rparr>,
     \<lparr>w_id = 17, w_user_id = 0x22222222222222222222222222222222, w_balance = b,
         w_currency = ''USD'', w_created_at = 7, w_updated_at = 7\<rparr>,
     \<lparr>w_id = 18, w_user_id = 0x33333333333333333333333333333333, w_balance = 0,
         w_currency = ''USD'', w_created_at = 7, w_updated_at = 7\<rparr>,
     \<lparr>w_id = 19, w_user_id = 0x44444444444444444444444444444444, w_balance = 0,
         w_currency = ''USD'', w_created_at = 7, w_updated_at = 7\<rparr>,
     \<lparr>w_id = 20, w_user_id = 0x55555555555555555555555555555555, w_balance = 0,
         w_currency = ''USD'', w_created_at = 7, w_updated_at = 7\<rparr>]"

definition demo_ledger :: "int64 \<Rightarrow> int64 \<Rightarrow> string \<Rightarrow> Transaction list \<Rightarrow> uuid entry list \<Rightarrow> pdb" where
  "demo_ledger a b st ts es =
    \<lparr>wallets = demo_wallets a b,
     holds = [\<lparr>h_id = 37, h_wallet_id = 16, h_amount = 60000, h_status = st, h_contract_id = 276,
         h_created_at = 7, h_expires_at = None\<rparr>],
     transactions =
      \<lparr>t_id = 38, t_wallet_id = 16, t_amount = - 60000, t_type = ''hold'', t_hold_id = Some 37,
         t_reference_id = None, t_created_at = 7\<rparr> # ts,
     outbox =
      \<lparr>e_id = 39, e_aggregate_type = ''payment'', e_aggregate_id = 37, e_event_type = ''payments.payment.held'',
         e_payload = JObj [(''id'', JStr ''25''), (''wallet_id'', JStr ''10''), (''amount'', JNum 60000),
           (''status'', JStr ''active''), (''contract_id'', JStr ''114''), (''created_at'', JStr ''t'')],
         e_created_at = 7, e_published_at = None\<rparr> # es\<rparr>"

definition ledger_held :: pdb where
  "ledger_held = demo_ledger 100000 50000 ''active'' [] []"

definition ledger_paid :: pdb where
  "ledger_paid = demo_ledger 40000 110000 ''transferred''
     [\<lparr>t_id = 102, t_wallet_id = 16, t_amount = - 60000, t_type = ''transfer_debit'', t_hold_id = Some 37,
         t_reference_id = None, t_created_at = 7\<rparr>,
      \<lparr>t_id = 103, t_wallet_id = 17, t_amount = 60000, t_type = ''transfer_credit'', t_hold_id = Some 37,
         t_reference_id = None, t_created_at = 7\<rparr>]
     [\<lparr>e_id = 104, e_aggregate_type = ''payment'', e_aggregate_id = 37,
         e_event_type = ''payments.payment.transferred'',
         e_payload = JObj [(''amount'', JNum 60000), (''contract_id'', JStr ''114''), (''hold_id'', JStr ''25''),
           (''recipient_wallet_id'', JStr ''11''), (''source_wallet_id'', JStr ''10'')],
         e_created_at = 7, e_published_at = None\<rparr>]"

definition told_created :: "string entry" where
  "told_created = demo_event ''11a'' EventContractCreated StatusPending None"

definition told_accepted :: "string entry" where
  "told_accepted = demo_event ''13f'' EventContractAccepted StatusActive (Some ''25'')"

definition told_completed :: "string entry" where
  "told_completed = demo_event ''154'' EventContractCompleted StatusCompleted (Some ''25'')"

lemma world_created_code [code]:
  "world_created = (demo_contracts ''HOLD_PENDING'' (Some ''25'') [told_created], ledger_held)"
  by code_simp

lemma world_lost_code [code]:
  "world_lost = (demo_contracts ''CANCELLED'' None
     [demo_event ''119'' EventContractCancelled StatusPending None], ledger_held)"
  by code_simp

lemma world_awaiting_code [code]:
  "world_awaiting = (demo_contracts ''AWAITING_ACCEPT'' (Some ''25'') [told_created], ledger_held)"
  by code_simp

lemma world_active_code [code]:
  "world_active = (demo_contracts ''ACTIVE'' (Some ''25'') [told_created, told_accepted], ledger_held)"
  by code_simp

lemma world_completed_code [code]:
  "world_completed = (demo_contracts ''COMPLETED'' (Some ''25'') [told_created, told_accepted, told_completed],
     ledger_paid)"
  by code_simp

lemma world_stuck_code [code]:
  "world_stuck = (demo_contracts ''COMPLETING'' (Some ''25'') [told_created, told_accepted], ledger_paid)"
  by code_simp

section \<open>The worlds are reached\<close>

abbreviation reached :: "world \<Rightarrow> bool" where
  "reached w \<equiv> hire_reach short_codec short_Parse demo_pub demo_pub (fst w) (snd w)"

lemma start_reached: "reached (empty_cdb, demo_seeded)"
proof -
  have "hire_reach short_codec short_Parse demo_pub demo_pub empty_cdb (s_db (demo_session 0 [] empty_pdb))"
    by (simp add: demo_session_def hire_reach.created)
  from hire_reach.payments_seeded [OF this, of _ "snd (seed_main (demo_session 0 [] empty_pdb))"] show ?thesis
    by (metis demo_seeded_def fst_conv snd_conv surjective_pairing)
qed

lemma serve_reached:
  assumes "reached w"
  shows "reached (demo_serve call faults pfaults lost used w)"
proof -
  let ?s = "demo_saga used faults (fst w) (demo_net used pfaults lost (snd w))"
  have "hire_reach short_codec short_Parse demo_pub demo_pub (s_db ?s) (s_db (net_pay (s_pay ?s)))"
    using assms by (simp add: demo_saga_def demo_net_def demo_session_def)
  from hire_reach.served [OF this surjective_pairing] show ?thesis
    by (simp add: demo_serve_def demo_run_def world_of_def)
qed

lemma consume_reached:
  assumes "reached w"
  shows "reached (demo_consume m used w)"
proof -
  let ?s = "demo_saga used [] (fst w) (demo_net used [] [] (snd w))"
  have "hire_reach short_codec short_Parse demo_pub demo_pub (s_db ?s) (s_db (net_pay (s_pay ?s)))"
    using assms by (simp add: demo_saga_def demo_net_def demo_session_def)
  from hire_reach.consumed [OF this surjective_pairing] show ?thesis
    by (simp add: demo_consume_def world_of_def)
qed

lemma worlds_reached:
  "reached world_created" "reached world_lost" "reached world_awaiting" "reached world_active"
  "reached world_completed" "reached world_stuck"
  unfolding world_stuck_def world_completed_def world_active_def world_awaiting_def world_created_def
    world_lost_def
  by (intro serve_reached consume_reached start_reached)+

lemma uuid_textI: "(\<And>u. parse (uuid_String k u) = Some u) \<Longrightarrow> uuid_text k parse"
  by (simp add: uuid_text_def)

section \<open>Invariants of the two services together\<close>

text \<open>C1: The money of a contract is where its status says. In every state the two services can
  reach, whatever faults and lost replies lie on the way: a contract without a hold is pending or
  cancelled, a contract with one has it at payments for exactly its amount, on its client's wallet
  and for its id; and the hold is active, or transferred to the freelancer's wallet (only while
  the contract is completing or completed), or released (only while declining or declined).\<close>

theorem contract_money:
  assumes "\<And>u. parse (uuid_String k u) = Some u" "hire_reach k parse cpub ppub d p" "c \<in> set (contracts d)"
  shows "c_hold_id c = None \<and> c_status c \<in> {StatusPending, StatusCancelled} \<or>
    backed k parse p c ''active'' \<and> c_status c \<in> {StatusHoldPending, StatusAwaitingAccept, StatusActive,
      StatusCompleting, StatusDeclining, StatusCancelled} \<or>
    backed k parse p c ''transferred'' \<and> c_status c \<in> {StatusCompleting, StatusCompleted} \<or>
    backed k parse p c ''released'' \<and> c_status c \<in> {StatusDeclining, StatusDeclined}"
  using uuid_text.status_backed [OF uuid_textI uuid_text.hire_reach_inv [OF uuid_textI]] assms by blast

theorem contract_money_witness:
  "list_all (\<lambda>c. backed short_codec short_Parse (snd world_stuck) c ''active'' \<or>
     backed short_codec short_Parse (snd world_stuck) c ''transferred'') (contracts (fst world_stuck))"
proof -
  have "list_all (\<lambda>c. c_status c = StatusCompleting \<and> c_hold_id c = Some ''25'') (contracts (fst world_stuck))"
    by code_simp
  then show ?thesis
    using contract_money [OF short.parse_String worlds_reached(6)] by (fastforce simp: list_all_iff)
qed

text \<open>C2: A completed contract has paid its freelancer: its hold is transferred, and the log of
  payments has a credit of exactly the contract's amount on the freelancer's wallet for it.\<close>

theorem completed_paid:
  assumes "\<And>u. parse (uuid_String k u) = Some u" "hire_reach k parse cpub ppub d p" "c \<in> set (contracts d)"
    "c_status c = StatusCompleted"
  shows "\<exists>u h t. c_hold_id c = Some (uuid_String k u) \<and> sel h_id u (holds p) = Some h \<and>
    h_status h = ''transferred'' \<and> t \<in> set (transactions p) \<and> t_type t = ''transfer_credit'' \<and>
    t_hold_id t = Some u \<and> parse (c_freelancer_wallet_id c) = Some (t_wallet_id t) \<and> t_amount t = c_amount c"
proof -
  note ut = uuid_textI [OF assms(1)]
  from uuid_text.status_backed [OF ut uuid_text.hire_reach_inv [OF ut assms(2)] assms(3)]
  have "backed k parse p c ''transferred''" by (simp add: assms(4))
  then obtain u h where u: "c_hold_id c = Some (uuid_String k u)" "sel h_id u (holds p) = Some h"
    "h_status h = ''transferred''" "h_amount h = c_amount c" "recipient p u = parse (c_freelancer_wallet_id c)"
    by (auto simp: backed_def)
  moreover from sel_SomeD [OF u(2)] u(3) have "recipient p u \<noteq> None"
    using pay_reach_paid [OF hire_reach_payments [OF assms(2)]] by (auto simp: paid_ok_def list_all_iff)
  with u(5) obtain w where w: "recipient p u = Some w" "parse (c_freelancer_wallet_id c) = Some w" by auto
  moreover obtain t where "t \<in> set (transactions p)" "t_type t = ''transfer_credit''"
    "t_hold_id t = Some u" "t_wallet_id t = w" "t_amount t = h_amount h"
    using recipient_credit [OF pay_reach_credits [OF hire_reach_payments [OF assms(2)]] w(1) u(2)] by blast
  ultimately show ?thesis by auto
qed


theorem completed_paid_witness:
  "\<exists>t\<in>set (transactions (snd world_completed)). t_type t = ''transfer_credit'' \<and>
     t_wallet_id t = 17 \<and> t_amount t = 60000"
proof -
  have c: "demo_contract ''COMPLETED'' (Some ''25'') \<in> set (contracts (fst world_completed))"
    "c_status (demo_contract ''COMPLETED'' (Some ''25'')) = StatusCompleted"
    "short_Parse (c_freelancer_wallet_id (demo_contract ''COMPLETED'' (Some ''25''))) = Some 17"
    "c_amount (demo_contract ''COMPLETED'' (Some ''25'')) = 60000"
    by code_simp+
  from completed_paid [OF short.parse_String worlds_reached(5) c(1,2)] c(3,4) show ?thesis by auto
qed

text \<open>C21: The tables of the contracts service stay well formed: the ids of contracts and of events
  are unique, the amounts of contracts are positive, every event and every milestone belongs to a
  contract, and no two contracts share a hold.\<close>

theorem contracts_schema:
  assumes "\<And>u. parse (uuid_String k u) = Some u" "hire_reach k parse cpub ppub d p"
  shows "distinct (map c_id (contracts d)) \<and> distinct (map e_id (contract_events d)) \<and>
    list_all (\<lambda>c. 0 < sint (c_amount c)) (contracts d) \<and>
    list_all (\<lambda>e. e_aggregate_id e \<in> c_id ` set (contracts d)) (contract_events d) \<and>
    list_all (\<lambda>m. m_contract_id m \<in> c_id ` set (contracts d)) (milestones d) \<and> holds_apart (contracts d)"
  using uuid_text.hire_reach_inv [OF uuid_textI [OF assms(1)] assms(2)]
  by (simp add: hire_inv_def saga_inv_def list_all_iff)

theorem contracts_schema_witness:
  "distinct (map e_id (contract_events (fst world_completed))) \<and>
   list_all (\<lambda>m. m_contract_id m \<in> c_id ` set (contracts (fst world_completed))) (milestones (fst world_completed)) \<and>
   length (contract_events (fst world_completed)) = 3"
proof -
  have "length (contract_events (fst world_completed)) = 3" by code_simp
  with contracts_schema [OF short.parse_String worlds_reached(5)] show ?thesis by simp
qed

text \<open>C11: What the outbox tells of a contract, in every reachable state. A contract with a hold has
  exactly one \<open>created\<close> event, exactly one \<open>accepted\<close> event if it is active, completing or completed,
  one \<open>completed\<close>, \<open>declined\<close> or \<open>cancelled\<close> event if that is its status, and none of these otherwise. A contract without a hold has none of
  the first four and at most one \<open>cancelled\<close> event, which does not tell its status: the compensation
  of a failed creation commits the status and the event also when only one of the two was written
  (\<open>half_compensated\<close>).\<close>

theorem contracts_told:
  assumes "\<And>u. parse (uuid_String k u) = Some u" "hire_reach k parse cpub ppub d p" "c \<in> set (contracts d)"
  shows "events EventContractCreated (c_id c) (contract_events d) = of_bool (c_hold_id c \<noteq> None) \<and>
    events EventContractAccepted (c_id c) (contract_events d) =
      of_bool (c_status c \<in> {StatusActive, StatusCompleting, StatusCompleted}) \<and>
    events EventContractCompleted (c_id c) (contract_events d) = of_bool (c_status c = StatusCompleted) \<and>
    events EventContractDeclined (c_id c) (contract_events d) = of_bool (c_status c = StatusDeclined) \<and>
    (if c_hold_id c = None then events EventContractCancelled (c_id c) (contract_events d) \<le> 1
     else events EventContractCancelled (c_id c) (contract_events d) = of_bool (c_status c = StatusCancelled))"
proof -
  have "told_ok (contract_events d) c"
    using saga_invD(8) [OF uuid_text.hire_reach_inv [OF uuid_textI [OF assms(1)] assms(2), unfolded hire_inv_def]
      assms(3)] .
  then show ?thesis unfolding told_ok_def .
qed

theorem contracts_told_witness:
  "events EventContractAccepted ''114'' (contract_events (fst world_stuck)) = 1 \<and>
   events EventContractCompleted ''114'' (contract_events (fst world_stuck)) = 0"
proof -
  have c: "demo_contract ''COMPLETING'' (Some ''25'') \<in> set (contracts (fst world_stuck))"
    "c_id (demo_contract ''COMPLETING'' (Some ''25'')) = ''114''"
    "c_status (demo_contract ''COMPLETING'' (Some ''25'')) = StatusCompleting" "StatusCompleting \<noteq> StatusCompleted"
    by code_simp+
  from contracts_told [OF short.parse_String worlds_reached(6) c(1)] c(2-4) show ?thesis by simp
qed

text \<open>Both halves: a contract cancelled with no event about it at all, and one that is pending with an
  event that says it is cancelled.\<close>

lemma half_compensated:
  "reached world_silent \<and> map c_status (contracts (fst world_silent)) = [StatusCancelled] \<and>
   contract_events (fst world_silent) = []"
  "reached world_early \<and> map c_status (contracts (fst world_early)) = [StatusPending] \<and>
   map e_event_type (contract_events (fst world_early)) = [EventContractCancelled]"
  by (rule conjI, simp only: world_silent_def world_early_def serve_reached start_reached, code_simp)+

section \<open>What a request does\<close>

text \<open>C5: The saga is refined by the programs: under any faults, whatever the payments service
  answers, a request takes the contracts database and the payments service through steps of the
  saga, each with its guard (a hold is recorded only while it is active and free, a contract is
  completed only when its hold was paid out to its freelancer, declined only when it was given
  back).\<close>

theorem saga_refined:
  assumes "\<And>u. parse (uuid_String k u) = Some u" "hire_reach k parse cpub ppub (s_db s) (s_db (net_pay (s_pay s)))"
    "contracts_serve k (PaymentsClient k parse) call s = (r, s')"
  shows "(sys_step (look_payments k parse) parse)\<^sup>*\<^sup>* (s_db s, s_pay s) (s_db s', s_pay s')"
proof -
  note ut = uuid_textI [OF assms(1)]
  from uuid_text.serve_steps [OF ut assms(3) reach_saga_inv [OF ut assms(2)]] show ?thesis .
qed


theorem saga_refined_witness:
  "(sys_step (look_payments short_codec short_Parse) short_Parse)\<^sup>*\<^sup>*
     (fst world_active, demo_net 80 [] [] (snd world_active))
     (fst world_completed, s_pay (snd (demo_run (PostComplete ''114'') [] [] [] 80 world_active)))"
proof -
  let ?s = "demo_saga 80 [] (fst world_active) (demo_net 80 [] [] (snd world_active))"
  have "hire_reach short_codec short_Parse demo_pub demo_pub (s_db ?s) (s_db (net_pay (s_pay ?s)))"
    using worlds_reached(4) by (simp add: demo_saga_def demo_net_def demo_session_def)
  from saga_refined [OF short.parse_String this surjective_pairing, of "PostComplete ''114''"]
  show ?thesis
    by (simp add: world_completed_def demo_serve_def world_of_def demo_run_def demo_saga_def)
qed

lemma terminal:
  assumes "(a, b) \<in> (set edges)\<^sup>*" "a \<in> {StatusCompleted, StatusDeclined, StatusCancelled}"
  shows "b = a"
proof -
  have "list_all (\<lambda>(a, b). a \<noteq> StatusCompleted \<and> a \<noteq> StatusDeclined \<and> a \<noteq> StatusCancelled) edges" by code_simp
  with assms show ?thesis by (auto simp: list_all_iff elim: converse_rtranclE)
qed

text \<open>C8: A contract moves only along the edges of its life cycle, also when a request or a
  payment event meets faults: its parties, its amount and its id never change, a hold once recorded
  stays, no contract is lost, and one that is completed, declined or cancelled remains so.\<close>

theorem contract_lifecycle:
  assumes "\<And>u. parse (uuid_String k u) = Some u" "hire_reach k parse cpub ppub (s_db s) (s_db (net_pay (s_pay s)))"
    "contracts_serve k (PaymentsClient k parse) call s = (r, s') \<or> consume k m s = (v, s')"
    "c \<in> set (contracts (s_db s))"
  shows "\<exists>c'\<in>set (contracts (s_db s')). same_deal c c' \<and> (c_status c, c_status c') \<in> (set edges)\<^sup>* \<and>
    (c_hold_id c \<noteq> None \<longrightarrow> c_hold_id c' = c_hold_id c) \<and>
    (c_status c \<in> {StatusCompleted, StatusDeclined, StatusCancelled} \<longrightarrow> c_status c' = c_status c)"
proof -
  note ut = uuid_textI [OF assms(1)]
  note inv = reach_saga_inv [OF ut assms(2)]
  from assms(3) have "(sys_step (look_payments k parse) parse)\<^sup>*\<^sup>* (sys s) (sys s')"
  proof
    assume "contracts_serve k (PaymentsClient k parse) call s = (r, s')"
    then show ?thesis using uuid_text.serve_steps [OF ut _ inv] by blast
  next
    assume "consume k m s = (v, s')"
    from consume_step [OF this inv] show ?thesis by (elim disjE) (simp, blast)
  qed
  from sys_steps_grow [OF this inv] assms(4) obtain c' where c': "c' \<in> set (contracts (s_db s'))" "becomes c c'"
    by (auto simp: grows_def)
  with terminal [of "c_status c" "c_status c'"] show ?thesis by (auto simp: becomes_def)
qed

theorem contract_lifecycle_witness:
  "\<exists>c\<in>set (contracts (fst world_stuck)). (StatusActive, c_status c) \<in> (set edges)\<^sup>* \<and> c_hold_id c = Some ''25''"
proof -
  let ?s = "demo_saga 80 (replicate 4 Fine @ [Before]) (fst world_active) (demo_net 80 [] [] (snd world_active))"
  have reach: "hire_reach short_codec short_Parse demo_pub demo_pub (s_db ?s) (s_db (net_pay (s_pay ?s)))"
    using worlds_reached(4) by (simp add: demo_saga_def demo_net_def demo_session_def)
  have c: "demo_contract ''ACTIVE'' (Some ''25'') \<in> set (contracts (fst world_active))"
    "c_status (demo_contract ''ACTIVE'' (Some ''25'')) = StatusActive"
    "c_hold_id (demo_contract ''ACTIVE'' (Some ''25'')) = Some ''25''"
    by code_simp+
  from c(1) have "demo_contract ''ACTIVE'' (Some ''25'') \<in> set (contracts (s_db ?s))" by (simp add: demo_saga_def)
  from contract_lifecycle [OF short.parse_String reach disjI1 [OF surjective_pairing] this, of "PostComplete ''114''"]
  have "\<exists>c'\<in>set (contracts (fst world_stuck)). same_deal (demo_contract ''ACTIVE'' (Some ''25'')) c' \<and>
      (StatusActive, c_status c') \<in> (set edges)\<^sup>* \<and> c_hold_id c' = Some ''25''"
    unfolding world_stuck_def demo_serve_def world_of_def demo_run_def c(2,3) by simp
  then show ?thesis by blast
qed

text \<open>C4: What a success reply means. 201 to a creation: the contract is stored, waits for its
  hold to be announced, and the hold is active at payments for its amount. 200 to an acceptance,
  completion or cancellation: the contract has the new status and its hold is active, transferred
  to the freelancer, released.\<close>

theorem success_means:
  assumes "\<And>u. parse (uuid_String k u) = Some u" "hire_reach k parse cpub ppub (s_db s) (s_db (net_pay (s_pay s)))"
    "contracts_serve k (PaymentsClient k parse) call s = (r, s')" "code r \<in> {200, 201}"
  shows "success_state k parse call r (s_db s') (s_db (net_pay (s_pay s')))"
  by (rule uuid_text.serve_success [OF uuid_textI [OF assms(1)]
    reach_saga_inv [OF uuid_textI [OF assms(1)] assms(2)] assms(3,4)])

theorem success_means_witness:
  "success_state short_codec short_Parse (PostComplete ''114'')
     (fst (demo_run (PostComplete ''114'') [] [] [] 80 world_active)) (fst world_completed) (snd world_completed)"
proof -
  let ?s = "demo_saga 80 [] (fst world_active) (demo_net 80 [] [] (snd world_active))"
  have reach: "hire_reach short_codec short_Parse demo_pub demo_pub (s_db ?s) (s_db (net_pay (s_pay ?s)))"
    using worlds_reached(4) by (simp add: demo_saga_def demo_net_def demo_session_def)
  have "code (fst (demo_run (PostComplete ''114'') [] [] [] 80 world_active)) = 200" by code_simp
  then have "code (fst (contracts_serve short_codec (PaymentsClient short_codec short_Parse) (PostComplete ''114'') ?s)) \<in> {200, 201}"
    by (simp add: demo_run_def)
  from success_means [OF short.parse_String reach surjective_pairing this] show ?thesis
    by (simp add: world_completed_def demo_serve_def world_of_def demo_run_def)
qed


text \<open>C12: Completing goes through when the freelancer can be paid. With both databases and the wire
  healthy and new identifiers, the completion of a contract that is active, or is stuck at
  completing, with its hold active, is answered with 200 provided that the wallet id given for the
  freelancer is the id of a wallet at payments, other than the client's and not the nil UUID, whose
  balance can take the amount. The condition is needed: nothing checks that wallet when the contract
  is created (\<open>unknown_freelancer_wallet\<close>).\<close>

theorem complete_answered:
  assumes "\<And>u. parse (uuid_String k u) = Some u" "hire_reach k parse cpub ppub (s_db s) (s_db (net_pay (s_pay s)))"
    and "s_faults s = []" "net_faults (s_pay s) = []" "s_faults (net_pay (s_pay s)) = []"
    and "fresh_ids (net_pay (s_pay s))"
    and "\<forall>n\<in>{s_used s..s_used s + 8}. s_gen s n \<notin> e_id ` set (contract_events (s_db s)) \<and> fits 36 (s_gen s n)"
    and c: "c \<in> set (contracts (s_db s))" "fits 36 (c_id c)" "c_status c \<in> {StatusActive, StatusCompleting}"
      "backed k parse (s_db (net_pay (s_pay s))) c ''active''" "c_hold_id c \<noteq> Some (uuid_String k uuid_Nil)"
    and rcp: "parse (c_freelancer_wallet_id c) = Some w" "parse (c_client_wallet_id c) \<noteq> Some w" "w \<noteq> uuid_Nil"
      "sel w_id w (wallets (s_db (net_pay (s_pay s)))) = Some row" "sint (w_balance row) + sint (c_amount c) < 2 ^ 63"
  shows "code (fst (contracts_serve k (PaymentsClient k parse) (PostComplete (c_id c)) s)) = 200"
proof -
  note ut = uuid_textI [OF assms(1)]
  have "healthy s"
    using assms(3-7) saga_invD(1) [OF reach_saga_inv [OF ut assms(2)]]
      pay_reach_inv [OF hire_reach_payments [OF assms(2)]] by (simp add: healthy_def)
  from uuid_text.complete_progress [OF ut this c rcp] show ?thesis .
qed

lemma short_hex_fits: "n < 16 ^ Suc w \<Longrightarrow> length (short_hex n) \<le> Suc w"
proof (induction w arbitrary: n)
  case (Suc w)
  then have "n div 16 < 16 ^ Suc w" by (simp add: div_less_iff_less_mult)
  from Suc.IH [OF this] show ?case by (subst short_hex.simps) simp
qed (simp add: short_hex.simps)


lemma demo_field: "string_field ''contract_id'' (JObj [(''contract_id'', JStr ''114'')]) = Some ''114''"
  by code_simp

lemma demo_ids:
  assumes "list_all (\<lambda>e. e_id e \<in> {''11a'', ''13f''}) (contract_events d)"
  shows "\<forall>n\<in>{s_used (demo_saga 80 fs d p)..s_used (demo_saga 80 fs d p) + 8}.
    s_gen (demo_saga 80 fs d p) n \<notin> e_id ` set (contract_events (s_db (demo_saga 80 fs d p))) \<and>
    fits 36 (s_gen (demo_saga 80 fs d p) n)"
proof -
  have gen: "map demo_gen [80..<89] = [''150'', ''151'', ''152'', ''153'', ''154'', ''155'', ''156'', ''157'', ''158'']"
    by code_simp
  have "demo_gen n \<in> {''150'', ''151'', ''152'', ''153'', ''154'', ''155'', ''156'', ''157'', ''158''}"
    if "n \<in> {80..88}" for n
  proof -
    from that have "n \<in> set [80..<89]" by auto
    then have "demo_gen n \<in> set (map demo_gen [80..<89])" by (simp only: list.set_map image_eqI)
    then show ?thesis unfolding gen by simp
  qed
  moreover from assms have "e_id ` set (contract_events d) \<subseteq> {''11a'', ''13f''}" by (auto simp: list_all_iff)
  ultimately show ?thesis by (fastforce simp: demo_saga_def fits_def)
qed

lemma contract_money_short:
  assumes "hire_reach short_codec short_Parse cpub ppub d p" "c \<in> set (contracts d)"
    and "c_hold_id c \<noteq> None" "c_status c \<notin> {StatusCompleting, StatusCompleted, StatusDeclining, StatusDeclined}"
  shows "backed short_codec short_Parse p c ''active''"
  using short.status_backed [OF short.hire_reach_inv [OF assms(1)] assms(2)] assms(3,4) by auto

theorem complete_answered_witness:
  "code (fst (contracts_serve short_codec (PaymentsClient short_codec short_Parse) (PostComplete ''114'')
     (demo_saga 80 [] (fst world_active) (demo_net 80 [] [] (snd world_active))))) = 200"
proof -
  let ?s = "demo_saga 80 [] (fst world_active) (demo_net 80 [] [] (snd world_active))"
  let ?c = "demo_contract ''ACTIVE'' (Some ''25'')"
  have reach: "hire_reach short_codec short_Parse demo_pub demo_pub (s_db ?s) (s_db (net_pay (s_pay ?s)))"
    using worlds_reached(4) by (simp add: demo_saga_def demo_net_def demo_session_def)
  have ok: "s_faults ?s = []" "net_faults (s_pay ?s) = []" "s_faults (net_pay (s_pay ?s)) = []"
    "fresh_ids (net_pay (s_pay ?s))" by code_simp+
  have ids: "\<forall>n\<in>{s_used ?s..s_used ?s + 8}. s_gen ?s n \<notin> e_id ` set (contract_events (s_db ?s)) \<and> fits 36 (s_gen ?s n)"
    by (rule demo_ids) code_simp
  have c: "?c \<in> set (contracts (s_db ?s))" "fits 36 (c_id ?c)" "c_status ?c \<in> {StatusActive, StatusCompleting}"
    by code_simp+
  have nil: "c_hold_id ?c \<noteq> Some (uuid_String short_codec uuid_Nil)" by code_simp
  have hold: "backed short_codec short_Parse (s_db (net_pay (s_pay ?s))) ?c ''active''"
    by (rule contract_money_short [OF reach c(1)]) code_simp+
  have rcp: "short_Parse (c_freelancer_wallet_id ?c) = Some 17" "short_Parse (c_client_wallet_id ?c) \<noteq> Some 17"
    "(17 :: uuid) \<noteq> uuid_Nil" by code_simp+
  have row: "sel w_id 17 (wallets (s_db (net_pay (s_pay ?s)))) = Some (wallets ledger_held ! 1)"
    "sint (w_balance (wallets ledger_held ! 1)) + sint (c_amount ?c) < 2 ^ 63" by code_simp+
  from complete_answered [OF short.parse_String reach ok ids c hold nil rcp row]
  show ?thesis by (simp add: demo_contract_def)
qed

text \<open>A contract for a wallet that does not exist is created, held and accepted; completing it is
  answered with 502 each time, while the money stays on hold.\<close>

definition world_unpayable :: world where
  "world_unpayable = demo_serve (PostAccept ''114'') [] [] [] 60
     (demo_consume (demo_message ''payments.payment.held'' ''114'') 40
       (demo_serve (PostContract (Some (demo_request\<lparr>cr_freelancer_wallet_id := ''99''\<rparr>))) [] [] [] 20
         (empty_cdb, demo_seeded)))"

lemma unknown_freelancer_wallet:
  "reached world_unpayable \<and> map c_status (contracts (fst world_unpayable)) = [StatusActive] \<and>
   (let w = demo_serve (PostComplete ''114'') [] [] [] 80 world_unpayable in
    code (fst (demo_run (PostComplete ''114'') [] [] [] 80 world_unpayable)) = 502 \<and>
    code (fst (demo_run (PostComplete ''114'') [] [] [] 100 w)) = 502 \<and>
    map c_status (contracts (fst w)) = [StatusCompleting] \<and> map h_status (holds (snd w)) = [''active''])"
  by (rule conjI, simp only: world_unpayable_def serve_reached consume_reached start_reached, code_simp)

text \<open>C18: Cancelling goes through. Under the same conditions the cancellation of a contract that
  awaits acceptance, or is stuck at declining with its hold still active, is answered with 200.\<close>

theorem cancel_answered:
  assumes "\<And>u. parse (uuid_String k u) = Some u" "hire_reach k parse cpub ppub (s_db s) (s_db (net_pay (s_pay s)))"
    and "s_faults s = []" "net_faults (s_pay s) = []" "s_faults (net_pay (s_pay s)) = []"
    and "fresh_ids (net_pay (s_pay s))"
    and "\<forall>n\<in>{s_used s..s_used s + 8}. s_gen s n \<notin> e_id ` set (contract_events (s_db s)) \<and> fits 36 (s_gen s n)"
    and c: "c \<in> set (contracts (s_db s))" "fits 36 (c_id c)" "c_status c \<in> {StatusAwaitingAccept, StatusDeclining}"
      "backed k parse (s_db (net_pay (s_pay s))) c ''active''" "c_hold_id c \<noteq> Some (uuid_String k uuid_Nil)"
  shows "code (fst (contracts_serve k (PaymentsClient k parse) (PostCancel (c_id c)) s)) = 200"
proof -
  note ut = uuid_textI [OF assms(1)]
  have "healthy s"
    using assms(3-7) saga_invD(1) [OF reach_saga_inv [OF ut assms(2)]]
      pay_reach_inv [OF hire_reach_payments [OF assms(2)]] by (simp add: healthy_def)
  from uuid_text.cancel_progress [OF ut this c] show ?thesis .
qed

theorem cancel_answered_witness:
  "code (fst (contracts_serve short_codec (PaymentsClient short_codec short_Parse) (PostCancel ''114'')
     (demo_saga 80 [] (fst world_awaiting) (demo_net 80 [] [] (snd world_awaiting))))) = 200"
proof -
  let ?s = "demo_saga 80 [] (fst world_awaiting) (demo_net 80 [] [] (snd world_awaiting))"
  let ?c = "demo_contract ''AWAITING_ACCEPT'' (Some ''25'')"
  have reach: "hire_reach short_codec short_Parse demo_pub demo_pub (s_db ?s) (s_db (net_pay (s_pay ?s)))"
    using worlds_reached(3) by (simp add: demo_saga_def demo_net_def demo_session_def)
  have ok: "s_faults ?s = []" "net_faults (s_pay ?s) = []" "s_faults (net_pay (s_pay ?s)) = []"
    "fresh_ids (net_pay (s_pay ?s))" by code_simp+
  have ids: "\<forall>n\<in>{s_used ?s..s_used ?s + 8}. s_gen ?s n \<notin> e_id ` set (contract_events (s_db ?s)) \<and> fits 36 (s_gen ?s n)"
    by (rule demo_ids) code_simp
  have c: "?c \<in> set (contracts (s_db ?s))" "fits 36 (c_id ?c)" "c_status ?c \<in> {StatusAwaitingAccept, StatusDeclining}"
    by code_simp+
  have nil: "c_hold_id ?c \<noteq> Some (uuid_String short_codec uuid_Nil)" by code_simp
  have hold: "backed short_codec short_Parse (s_db (net_pay (s_pay ?s))) ?c ''active''"
    by (rule contract_money_short [OF reach c(1)]) code_simp+
  from cancel_answered [OF short.parse_String reach ok ids c hold nil] show ?thesis by (simp add: demo_contract_def)
qed

section \<open>Requests and events that are refused\<close>

text \<open>C14: A retry does not repair a settled contract. Once payments has transferred or released the
  hold of a contract that is still completing or declining, because the transaction that should
  have finished it failed, every further attempt to complete the one or to cancel the other is
  answered with 502 or 500 and changes nothing, with or without faults.\<close>

theorem retry_never_finishes:
  assumes "\<And>u. parse (uuid_String k u) = Some u" "hire_reach k parse cpub ppub (s_db s) (s_db (net_pay (s_pay s)))"
    and "c \<in> set (contracts (s_db s))"
    and "c_status c = StatusCompleting \<and> call = PostComplete (c_id c) \<or>
      c_status c = StatusDeclining \<and> call = PostCancel (c_id c)"
    and "\<not> backed k parse (s_db (net_pay (s_pay s))) c ''active''"
    and "contracts_serve k (PaymentsClient k parse) call s = (r, s')"
  shows "s_db s' = s_db s \<and> s_db (net_pay (s_pay s')) = s_db (net_pay (s_pay s)) \<and> code r \<in> {500, 502}"
  by (rule uuid_text.retry_refused [OF uuid_textI [OF assms(1)]
    uuid_text.hire_reach_inv [OF uuid_textI [OF assms(1)] assms(2)] assms(3-6)])

theorem retry_never_finishes_witness:
  "demo_serve (PostComplete ''114'') [] [] [] 120 world_stuck = world_stuck"
proof -
  let ?s = "demo_saga 120 [] (fst world_stuck) (demo_net 120 [] [] (snd world_stuck))"
  let ?c = "demo_contract ''COMPLETING'' (Some ''25'')"
  have reach: "hire_reach short_codec short_Parse demo_pub demo_pub (s_db ?s) (s_db (net_pay (s_pay ?s)))"
    using worlds_reached(6) by (simp add: demo_saga_def demo_net_def demo_session_def)
  have c: "?c \<in> set (contracts (s_db ?s))" "c_status ?c = StatusCompleting" "c_id ?c = ''114''" by code_simp+
  have "list_all (\<lambda>h. h_status h \<noteq> ''active'') (holds (s_db (net_pay (s_pay ?s))))" by code_simp
  then have "\<not> backed short_codec short_Parse (s_db (net_pay (s_pay ?s))) ?c ''active''"
    by (auto simp: backed_def list_all_iff dest!: sel_SomeD)
  from retry_never_finishes [OF short.parse_String reach c(1) _ this surjective_pairing, of "PostComplete ''114''"] c(2,3)
  have "s_db (snd (demo_run (PostComplete ''114'') [] [] [] 120 world_stuck)) = s_db ?s"
    "s_db (net_pay (s_pay (snd (demo_run (PostComplete ''114'') [] [] [] 120 world_stuck)))) = s_db (net_pay (s_pay ?s))"
    by (simp_all add: demo_run_def)
  then show ?thesis by (simp add: demo_serve_def world_of_def demo_saga_def demo_net_def demo_session_def)
qed

text \<open>C15: An event for a contract that is not waiting for its hold (or is unknown) changes nothing,
  whatever fails. A \<open>held\<close> or \<open>failed\<close> event is never acknowledged but given back to the broker each
  time it is delivered; duplicates of a \<open>held\<close> event and the \<open>failed\<close> event of a hold whose contract
  was already cancelled are such. An event of any other subject, released and transferred among them,
  is acknowledged.\<close>

theorem event_given_back:
  assumes "consume k (subject, Some j) (s :: (cdb, string, net) saga_sess) = (v, s')"
    and "string_field ''contract_id'' j = Some i" "i \<noteq> ''''"
    and "\<forall>c\<in>set (contracts (s_db s)). c_id c = i \<longrightarrow> c_status c \<noteq> StatusHoldPending"
  shows "v = (if subject \<in> {''payments.payment.held'', ''payments.payment.failed''} then Nak else Ack) \<and>
    s_db s' = s_db s \<and> s_pay s' = s_pay s"
  using consume_rejected [OF assms(1-3)] consume_ignored [OF assms(1-3)] assms(4)
  by (cases "subject \<in> {''payments.payment.held'', ''payments.payment.failed''}") (auto simp: in_status_def)

text \<open>A second \<open>held\<close> event, and the \<open>transferred\<close> event of a completed contract.\<close>

theorem event_given_back_witness:
  "let given = consume short_codec (demo_message ''payments.payment.held'' ''114'')
         (demo_saga 60 [] (fst world_awaiting) (demo_net 60 [] [] (snd world_awaiting)));
       taken = consume short_codec (demo_message ''payments.payment.transferred'' ''114'')
         (demo_saga 99 [] (fst world_completed) (demo_net 99 [] [] (snd world_completed)))
   in fst given = Nak \<and> world_of (snd given) = world_awaiting \<and>
     fst taken = Ack \<and> world_of (snd taken) = world_completed"
proof -
  let ?s = "demo_saga 60 [] (fst world_awaiting) (demo_net 60 [] [] (snd world_awaiting))"
  let ?t = "demo_saga 99 [] (fst world_completed) (demo_net 99 [] [] (snd world_completed))"
  note verdict = event_given_back [OF surjective_pairing demo_field]
  have s: "\<forall>c\<in>set (contracts (s_db ?s)). c_id c = ''114'' \<longrightarrow> c_status c \<noteq> StatusHoldPending" by code_simp
  have t: "\<forall>c\<in>set (contracts (s_db ?t)). c_id c = ''114'' \<longrightarrow> c_status c \<noteq> StatusHoldPending" by code_simp
  from verdict [OF _ s, of short_codec "''payments.payment.held''"]
    verdict [OF _ t, of short_codec "''payments.payment.transferred''"]
  show ?thesis
    by (simp add: demo_message_def Let_def world_of_def demo_saga_def demo_net_def demo_session_def)
qed

text \<open>The reply to a hold may get lost: the contract is cancelled without a hold while the hold stays
  active at payments. No request of the saga names it any more.\<close>

lemma lost_hold:
  "reached world_lost \<and>
   map (\<lambda>c. (c_id c, c_status c, c_hold_id c)) (contracts (fst world_lost)) = [(''114'', StatusCancelled, None)] \<and>
   map (\<lambda>h. (uuid_String short_codec (h_contract_id h), h_status h)) (holds (snd world_lost)) = [(''114'', ''active'')]"
  by (rule conjI [OF worlds_reached(2)]) code_simp

section \<open>Publishing, listing, and the wire\<close>

text \<open>The contracts service's own publisher hands over the pending events in order and marks an
  event only when the broker has stored it, whatever fails, touching nothing else.\<close>

theorem contract_events_marked_stored:
  assumes "broker_ok pub log" "distinct (map e_id (contract_events (s_db s)))"
    "marks_stored log (contract_events (s_db s)) (s_nats s)"
  shows "let s' = OutboxPublisher_Run pub ticks s in
    marks_stored log (contract_events (s_db s')) (s_nats s') \<and>
    contracts (s_db s') = contracts (s_db s) \<and> milestones (s_db s') = milestones (s_db s) \<and>
    unstamped (contract_events (s_db s')) = unstamped (contract_events (s_db s))"
proof -
  note run = contracts_outbox.Run_marks_stored [OF assms, of ticks]
  then have "(s_db (OutboxPublisher_Run pub ticks s))\<lparr>contract_events := []\<rparr> = (s_db s)\<lparr>contract_events := []\<rparr>"
    by (simp add: OutboxPublisher_is_Run)
  then have "contracts (s_db (OutboxPublisher_Run pub ticks s)) = contracts (s_db s)"
    "milestones (s_db (OutboxPublisher_Run pub ticks s)) = milestones (s_db s)"
    by (cases "s_db s"; cases "s_db (OutboxPublisher_Run pub ticks s)"; simp)+
  with run show ?thesis by (simp add: OutboxPublisher_is_Run Let_def)
qed

definition demo_cpub_session :: "nat \<Rightarrow> fault list \<Rightarrow> cdb \<Rightarrow> (cdb, string, (string \<times> json) list) pub_sess" where
  "demo_cpub_session used faults d = \<lparr>s_db = d, s_tx = d, s_faults = faults, s_now = 10, s_gen = demo_gen,
     s_used = used, s_nats = []\<rparr>"

theorem contract_events_marked_stored_witness:
  "let s' = OutboxPublisher_Run demo_pub [{}, {}] (demo_cpub_session 200 [Fine, Fine, Fine, Before] (fst world_completed))
   in marks_stored id (contract_events (s_db s')) (s_nats s') \<and> length (s_nats s') = 6 \<and>
      map unpublished (contract_events (s_db s')) = [False, False, False]"
proof -
  let ?s = "demo_cpub_session 200 [Fine, Fine, Fine, Before] (fst world_completed)"
  have "distinct (map e_id (contract_events (s_db ?s)))" "marks_stored id (contract_events (s_db ?s)) (s_nats ?s)"
    by code_simp+
  note stored = contract_events_marked_stored [OF demo_pub_ok(1) this, of "[{}, {}]"]
  moreover have "length (s_nats (OutboxPublisher_Run demo_pub [{}, {}] ?s)) = 6"
    "map unpublished (contract_events (s_db (OutboxPublisher_Run demo_pub [{}, {}] ?s))) = [False, False, False]"
    by code_simp+
  ultimately show ?thesis by (simp add: Let_def)
qed

text \<open>C28: A contract list that is answered with 200 has at most 100 contracts (20 for a limit outside
  1 to 100), newest first, all of the client and freelancer asked for, the total counts all of
  them, and nothing changes.\<close>

theorem contracts_listed:
  assumes "contracts_serve k svc (GetContracts client freelancer lp op) s = (Resp 200 b, s')"
  shows "\<exists>limit offset cs. param lp 0 = Some limit \<and> param op 0 = Some offset \<and> s_db s' = s_db s \<and>
    (let all = filter (\<lambda>c. (client = '''' \<or> c_client_id c = client) \<and> (freelancer = '''' \<or> c_freelancer_id c = freelancer))
       (contracts (s_db s));
       page = if 0 < limit \<and> limit \<le> 100 then nat limit else 20 in
     b = JObj [(''items'', JArr (map (contract_json k) cs)), (''total'', JNum (int (length all)))] \<and>
     cs = take page (drop (nat offset) (sort_key (\<lambda>c. - c_created_at c) all)) \<and>
     sorted_wrt (\<lambda>x y. c_created_at y \<le> c_created_at x) cs \<and> length cs \<le> 100)"
proof -
  let ?all = "filter (\<lambda>c. (client = '''' \<or> c_client_id c = client) \<and>
     (freelancer = '''' \<or> c_freelancer_id c = freelancer)) (contracts (s_db s))"
  let ?rows = "sort_key (\<lambda>c. - c_created_at c) ?all"
  from GetContracts_answer [OF assms] obtain limit offset cs where run: "param lp 0 = Some limit"
    "param op 0 = Some offset" "s_db s' = s_db s"
    "b = JObj [(''items'', JArr (map (contract_json k) cs)), (''total'', JNum (int (length ?all)))]"
    and cs: "cs = take (if 0 < limit \<and> limit \<le> 100 then nat limit else 20) (drop (nat offset) ?rows)"
    unfolding Let_def by blast
  have "sorted_wrt (\<lambda>x y. c_created_at y \<le> c_created_at x) ?rows"
    using sorted_sort_key [of "\<lambda>c. - c_created_at c" ?all] by (simp add: sorted_map)
  then have order: "sorted_wrt (\<lambda>x y. c_created_at y \<le> c_created_at x) cs"
    unfolding cs by (simp only: sorted_wrt_take sorted_wrt_drop)
  have "length cs \<le> 100" unfolding cs by auto
  with run cs order show ?thesis unfolding Let_def by (intro exI conjI)
qed

theorem contracts_listed_witness:
  "let s = demo_saga 200 [] (fst world_completed) (demo_net 200 [] [] (snd world_completed)) in
   \<exists>limit offset cs. param ''500'' 0 = Some limit \<and> param '''' 0 = Some offset \<and> length cs \<le> 100 \<and>
     body (fst (contracts_serve short_codec (PaymentsClient short_codec short_Parse) (GetContracts ''11'' '''' ''500'' '''') s))
       = JObj [(''items'', JArr (map (contract_json short_codec) cs)), (''total'', JNum 1)]"
proof -
  let ?s = "demo_saga 200 [] (fst world_completed) (demo_net 200 [] [] (snd world_completed))"
  let ?p = "contracts_serve short_codec (PaymentsClient short_codec short_Parse) (GetContracts ''11'' '''' ''500'' '''') ?s"
  have "code (fst ?p) = 200" by code_simp
  then have "?p = (Resp 200 (body (fst ?p)), snd ?p)"
    by (metis response.collapse surjective_pairing)
  let ?all = "filter (\<lambda>c. (''11'' = '''' \<or> c_client_id c = ''11'') \<and> ('''' = ('''' :: string) \<or> c_freelancer_id c = ''''))
     (contracts (s_db ?s))"
  from contracts_listed [OF \<open>?p = _\<close>] obtain limit offset cs where "param ''500'' 0 = Some limit" "param '''' 0 = Some offset"
    "length cs \<le> 100" "body (fst ?p) = JObj [(''items'', JArr (map (contract_json short_codec) cs)), (''total'', JNum (int (length ?all)))]"
    unfolding Let_def by blast
  moreover have "length ?all = 1" by code_simp
  ultimately show ?thesis unfolding Let_def by (intro exI [of _ limit] exI [of _ offset] exI [of _ cs]) simp
qed

text \<open>C27: What the client sends is what the handlers bind, and what they answer is what it decodes:
  with UUIDs in their canonical text, the bodies of the three calls bind to the request meant, and
  the reply to a hold decodes to that hold.\<close>

theorem payments_wire_round_trip:
  "bind_HoldRequest canonical_Parse (hold_request_json
     \<lparr>phr_wallet_id = uuid_String canonical_codec w, phr_amount = a, phr_contract_id = uuid_String canonical_codec c\<rparr>)
     = Some \<lparr>hr_wallet_id = w, hr_amount = a, hr_contract_id = c\<rparr>
   \<and> bind_ReleaseRequest canonical_Parse (release_request_json (uuid_String canonical_codec u)) = Some \<lparr>rr_hold_id = u\<rparr>
   \<and> bind_TransferRequest canonical_Parse (transfer_request_json (uuid_String canonical_codec u) (uuid_String canonical_codec w))
     = Some \<lparr>tr_hold_id = u, tr_recipient_wallet_id = w\<rparr>
   \<and> map_option (\<lambda>r. (canonical_Parse (php_id r), canonical_Parse (php_wallet_id r), php_amount r, php_status r,
         canonical_Parse (php_contract_id r))) (decode_hold (hold_json canonical_codec h))
     = Some (Some (h_id h), Some (h_wallet_id h), h_amount h, h_status h, Some (h_contract_id h))"
  by (simp add: canonical.parse_String)

end
