(* ===== verification/JobsStore.thy ===== *)
theory JobsStore
  imports Outbox Params "HOL-Library.List_Lexorder"
begin

text \<open>
  The tables of jobs-api and its two stores (job_store.go, profile_store.go over the schema of
  migrations/): one statement per definition. Go's \<open>int\<close> has 64 bits, the \<open>INT\<close> columns 32, and
  \<open>TEXT\<close> has no NUL character: values that do not fit are refused before the statement runs.
\<close>

section \<open>Rows\<close>

record Job =
  j_id :: uuid
  j_title :: string
  j_description :: string
  j_budget_min :: int64
  j_budget_max :: int64
  j_status :: string
  j_client_id :: uuid
  j_created_at :: int
  j_updated_at :: int

record CreateJobRequest =
  cj_title :: string
  cj_description :: string
  cj_budget_min :: int64
  cj_budget_max :: int64
  cj_client_id :: uuid

record UpdateJobRequest =
  uj_title :: "string option"
  uj_description :: "string option"
  uj_budget_min :: "int64 option"
  uj_budget_max :: "int64 option"
  uj_status :: "string option"

record ListJobsParams =
  lj_status :: "string option"
  lj_limit :: int
  lj_offset :: int

record Skill =
  sk_id :: uuid
  sk_name :: string
  sk_category :: string
  sk_created_at :: int

record profile_row =
  p_id :: uuid
  p_full_name :: string
  p_bio :: string
  p_hourly_rate :: int64
  p_available :: bool
  p_created_at :: int
  p_updated_at :: int

record Profile = profile_row +
  p_skills :: "Skill list"

record CreateProfileRequest =
  cp_full_name :: string
  cp_bio :: string
  cp_hourly_rate :: int64

record jdb =
  jobs :: "Job list"
  profiles :: "profile_row list"
  skills :: "Skill list"
  profile_skills :: "(uuid \<times> uuid) list"
  job_events :: "uuid entry list"

type_synonym 'a jsql = "(jdb, uuid, 'a) sql"

definition jobs_outbox :: "(jdb, uuid) store" where
  "jobs_outbox = PostgresStore job_events (\<lambda>es d. d\<lparr>job_events := es\<rparr>)"

interpretation jobs_events: outbox_store jobs_outbox job_events "\<lambda>d. d\<lparr>job_events := []\<rparr>"
  unfolding jobs_outbox_def by (rule PostgresStore_contract) simp_all

definition int4 :: "int64 \<Rightarrow> bool" where
  "int4 x \<longleftrightarrow> - (2 ^ 31) \<le> sint x \<and> sint x < 2 ^ 31"

definition text_ok :: "string \<Rightarrow> bool" where
  "text_ok v \<longleftrightarrow> CHR 0x00 \<notin> set v"

section \<open>Jobs\<close>

definition job_Create :: "CreateJobRequest \<Rightarrow> Job jsql" where
  "job_Create req now u d =
     (if \<not> text_ok (cj_title req) \<or> \<not> text_ok (cj_description req)
         \<or> \<not> int4 (cj_budget_min req) \<or> \<not> int4 (cj_budget_max req) then Inl ErrArgument
      else if u \<in> j_id ` set (jobs d) then Inl ErrConstraint
      else
        let j = \<lparr>j_id = u, j_title = cj_title req, j_description = cj_description req,
              j_budget_min = cj_budget_min req, j_budget_max = cj_budget_max req, j_status = ''draft'',
              j_client_id = cj_client_id req, j_created_at = now, j_updated_at = now\<rparr>
        in Inr (j, d\<lparr>jobs := jobs d @ [j]\<rparr>))"

definition job_GetByID :: "uuid \<Rightarrow> Job jsql" where
  "job_GetByID i now u d =
     (case sel j_id i (jobs d) of None \<Rightarrow> Inl ErrNoRows | Some j \<Rightarrow> Inr (j, d))"

text \<open>\<open>WHERE status = $1\<close>, where the parameter is given.\<close>

definition job_matches :: "ListJobsParams \<Rightarrow> Job \<Rightarrow> bool" where
  "job_matches p j \<longleftrightarrow> (case lj_status p of None \<Rightarrow> True | Some st \<Rightarrow> j_status j = st)"

definition job_List :: "ListJobsParams \<Rightarrow> Job list jsql" where
  "job_List p now u d =
     (let rows = sort_key (\<lambda>j. - j_created_at j) (filter (job_matches p) (jobs d));
          rows = (if 0 < lj_offset p then drop (nat (lj_offset p)) rows else rows);
          rows = (if 0 < lj_limit p then take (nat (lj_limit p)) rows else rows)
      in Inr (rows, d))"

definition job_Count :: "ListJobsParams \<Rightarrow> int jsql" where
  "job_Count p now u d = Inr (int (length (filter (job_matches p) (jobs d))), d)"

definition COALESCE :: "'a option \<Rightarrow> 'a \<Rightarrow> 'a" where
  "COALESCE x y = (case x of None \<Rightarrow> y | Some v \<Rightarrow> v)"

text \<open>A condition on a value that may be absent.\<close>

definition given :: "('a \<Rightarrow> bool) \<Rightarrow> 'a option \<Rightarrow> bool" where
  "given P x \<longleftrightarrow> (case x of None \<Rightarrow> True | Some v \<Rightarrow> P v)"

lemma given_simps [simp]: "given P None" "given P (Some v) = P v"
  by (simp_all add: given_def)

definition job_merge :: "UpdateJobRequest \<Rightarrow> int \<Rightarrow> Job \<Rightarrow> Job" where
  "job_merge req now j = j\<lparr>
     j_title := COALESCE (uj_title req) (j_title j),
     j_description := COALESCE (uj_description req) (j_description j),
     j_budget_min := COALESCE (uj_budget_min req) (j_budget_min j),
     j_budget_max := COALESCE (uj_budget_max req) (j_budget_max j),
     j_status := COALESCE (uj_status req) (j_status j),
     j_updated_at := now\<rparr>"

definition job_Update :: "uuid \<Rightarrow> UpdateJobRequest \<Rightarrow> Job jsql" where
  "job_Update i req now u d =
     (if \<not> given text_ok (uj_title req) \<or> \<not> given text_ok (uj_description req)
         \<or> \<not> given int4 (uj_budget_min req) \<or> \<not> given int4 (uj_budget_max req)
         \<or> \<not> given text_ok (uj_status req) then Inl ErrArgument
      else case sel j_id i (jobs d) of
        None \<Rightarrow> Inl ErrNoRows
      | Some j \<Rightarrow> Inr (job_merge req now j, d\<lparr>jobs := upd j_id i (job_merge req now) (jobs d)\<rparr>))"

section \<open>Profiles\<close>

definition profile_insert :: "CreateProfileRequest \<Rightarrow> profile_row jsql" where
  "profile_insert req now u d =
     (if \<not> text_ok (cp_full_name req) \<or> \<not> text_ok (cp_bio req) \<or> \<not> int4 (cp_hourly_rate req)
      then Inl ErrArgument
      else if u \<in> p_id ` set (profiles d) then Inl ErrConstraint
      else
        let p = \<lparr>p_id = u, p_full_name = cp_full_name req, p_bio = cp_bio req,
              p_hourly_rate = cp_hourly_rate req, p_available = True, p_created_at = now, p_updated_at = now\<rparr>
        in Inr (p, d\<lparr>profiles := profiles d @ [p]\<rparr>))"

definition with_skills :: "profile_row \<Rightarrow> Skill list \<Rightarrow> Profile" where
  "with_skills p ss = profile_row.extend p \<lparr>p_skills = ss\<rparr>"

definition profile_Create ::
  "(profile_row jsql \<Rightarrow> ('s, db_err, profile_row) prog) \<Rightarrow> CreateProfileRequest \<Rightarrow> ('s, db_err, Profile) prog" where
  "profile_Create exec req = bnd (exec (profile_insert req)) (\<lambda>p. ret (with_skills p []))"

definition profile_select :: "uuid \<Rightarrow> profile_row jsql" where
  "profile_select i now u d =
     (case sel p_id i (profiles d) of None \<Rightarrow> Inl ErrNoRows | Some p \<Rightarrow> Inr (p, d))"

text \<open>
  The join, \<open>ORDER BY s.name\<close>. The order of names is the database's collation, given by the sort
  keys it compares.
\<close>

definition skills_of :: "(string \<Rightarrow> nat list) \<Rightarrow> uuid \<Rightarrow> jdb \<Rightarrow> Skill list" where
  "skills_of collation i d =
     sort_key (\<lambda>s. collation (sk_name s)) (filter (\<lambda>s. (i, sk_id s) \<in> set (profile_skills d)) (skills d))"

definition skills_select :: "(string \<Rightarrow> nat list) \<Rightarrow> uuid \<Rightarrow> Skill list jsql" where
  "skills_select collation i now u d = Inr (skills_of collation i d, d)"

text \<open>On the pool the two reads are two transactions, inside a transaction they are one.\<close>

definition profile_GetByID ::
  "(string \<Rightarrow> nat list) \<Rightarrow> (profile_row jsql \<Rightarrow> ('s, db_err, profile_row) prog)
   \<Rightarrow> (Skill list jsql \<Rightarrow> ('s, db_err, Skill list) prog) \<Rightarrow> uuid \<Rightarrow> ('s, db_err, Profile) prog" where
  "profile_GetByID collation exec exec_rows i =
     bnd (exec (profile_select i)) (\<lambda>p.
     bnd (exec_rows (skills_select collation i)) (\<lambda>ss.
     ret (with_skills p ss)))"

definition skills_delete :: "uuid \<Rightarrow> unit jsql" where
  "skills_delete i now u d = Inr ((), d\<lparr>profile_skills := filter (\<lambda>(p, k). p \<noteq> i) (profile_skills d)\<rparr>)"

definition skills_insert :: "uuid \<Rightarrow> uuid \<Rightarrow> unit jsql" where
  "skills_insert i sk now u d =
     (if (i, sk) \<in> set (profile_skills d) \<or> sel p_id i (profiles d) = None \<or> sel sk_id sk (skills d) = None
      then Inl ErrConstraint
      else Inr ((), d\<lparr>profile_skills := profile_skills d @ [(i, sk)]\<rparr>))"

definition profile_touch :: "uuid \<Rightarrow> unit jsql" where
  "profile_touch i now u d = Inr ((), d\<lparr>profiles := upd p_id i (\<lambda>p. p\<lparr>p_updated_at := now\<rparr>) (profiles d)\<rparr>)"

fun skills_insert_each ::
  "(unit jsql \<Rightarrow> ('s, db_err, unit) prog) \<Rightarrow> uuid \<Rightarrow> uuid list \<Rightarrow> ('s, db_err, unit) prog" where
  "skills_insert_each exec i [] = ret ()"
| "skills_insert_each exec i (sk # sks) =
     bnd (exec (skills_insert i sk)) (\<lambda>_. skills_insert_each exec i sks)"

definition profile_UpdateSkills ::
  "(unit jsql \<Rightarrow> ('s, db_err, unit) prog) \<Rightarrow> uuid \<Rightarrow> uuid list \<Rightarrow> ('s, db_err, unit) prog" where
  "profile_UpdateSkills exec i sks =
     bnd (exec (skills_delete i)) (\<lambda>_.
     bnd (skills_insert_each exec i sks) (\<lambda>_.
     exec (profile_touch i)))"

end
