(* ===== verification/JobsHandler.thy ===== *)
theory JobsHandler
  imports JobsStore
begin

text \<open>
  The HTTP handlers of jobs-api (job_handler.go, profile_handler.go) and what turns their errors
  into replies (middleware.go). Echo's \<open>Bind\<close> is outside the repository: a handler gets the
  request it bound, or the \<open>*echo.HTTPError\<close> it reported. \<open>parse\<close> is \<open>uuid.Parse\<close>.
\<close>

section \<open>Errors and their replies\<close>

text \<open>\<open>AppError\<close>; an \<open>*echo.HTTPError\<close>, whose message may not be a string; an error of a store.\<close>

datatype jobs_err = AppError nat string | HTTPError nat "string option" | StoreError db_err

type_synonym 'a jobs_prog = "((jdb, uuid) sess, jobs_err, 'a) prog"

definition customErrorHandler :: "bool \<Rightarrow> jobs_err \<Rightarrow> response option" where
  "customErrorHandler committed err =
     (if committed then None
      else Some (case err of
          AppError n msg \<Rightarrow> error_resp n msg
        | StoreError e \<Rightarrow> if e = ErrNoRows then error_resp 404 ''not found'' else internal_error
        | HTTPError n msg \<Rightarrow>
            error_resp n (case msg of None \<Rightarrow> ''internal server error'' | Some m \<Rightarrow> m)))"

text \<open>
  \<open>requestLogger\<close> hands the error of a handler to the error handler; a handler that failed has not
  written a response before.
\<close>

definition requestLogger :: "response jobs_prog \<Rightarrow> (jdb, uuid) sess \<Rightarrow> response \<times> (jdb, uuid) sess" where
  "requestLogger next s =
     (case next s of
        (Inl err, s') \<Rightarrow> (case customErrorHandler False err of None \<Rightarrow> internal_error | Some r \<Rightarrow> r, s')
      | (Inr r, s') \<Rightarrow> (r, s'))"

abbreviation store_err :: "((jdb, uuid) sess, db_err, 'a) prog \<Rightarrow> 'a jobs_prog" where
  "store_err \<equiv> map_err StoreError"

section \<open>Bodies and events\<close>

definition EventJobCreated :: string where "EventJobCreated = ''jobs.job.created''"
definition EventJobUpdated :: string where "EventJobUpdated = ''jobs.job.updated''"
definition EventProfileCreated :: string where "EventProfileCreated = ''jobs.profile.created''"
definition EventProfileUpdated :: string where "EventProfileUpdated = ''jobs.profile.updated''"

definition job_json :: "codec \<Rightarrow> Job \<Rightarrow> json" where
  "job_json c j = JObj
     [(''id'', json_uuid c (j_id j)), (''title'', JStr (j_title j)), (''description'', JStr (j_description j)),
      (''budget_min'', json_int64 (j_budget_min j)), (''budget_max'', json_int64 (j_budget_max j)),
      (''status'', JStr (j_status j)), (''client_id'', json_uuid c (j_client_id j)),
      (''created_at'', json_time c (j_created_at j)), (''updated_at'', json_time c (j_updated_at j))]"

definition skill_json :: "codec \<Rightarrow> Skill \<Rightarrow> json" where
  "skill_json c s = JObj
     [(''id'', json_uuid c (sk_id s)), (''name'', JStr (sk_name s)), (''category'', JStr (sk_category s)),
      (''created_at'', json_time c (sk_created_at s))]"

definition profile_json :: "codec \<Rightarrow> Profile \<Rightarrow> json" where
  "profile_json c p = JObj
     [(''id'', json_uuid c (p_id p)), (''full_name'', JStr (p_full_name p)), (''bio'', JStr (p_bio p)),
      (''hourly_rate'', json_int64 (p_hourly_rate p)), (''available'', JBool (p_available p)),
      (''skills'', JArr (map (skill_json c) (p_skills p))),
      (''created_at'', json_time c (p_created_at p)), (''updated_at'', json_time c (p_updated_at p))]"

definition job_entry :: "string \<Rightarrow> uuid \<Rightarrow> string \<Rightarrow> json \<Rightarrow> uuid entry" where
  "job_entry aggregate_type aggregate event payload =
     \<lparr>e_id = uuid_Nil, e_aggregate_type = aggregate_type, e_aggregate_id = aggregate,
      e_event_type = event, e_payload = payload, e_created_at = 0, e_published_at = None\<rparr>"

section \<open>Jobs\<close>

definition validJobStatuses :: "string list" where
  "validJobStatuses = [''draft'', ''open'', ''in_progress'', ''closed'']"

definition require :: "bool \<Rightarrow> jobs_err \<Rightarrow> unit jobs_prog" where
  "require ok err = (if ok then ret () else raise err)"

definition bind_body :: "jobs_err + 'a \<Rightarrow> 'a jobs_prog" where
  "bind_body bound = (case bound of Inl err \<Rightarrow> raise err | Inr req \<Rightarrow> ret req)"

definition path_id :: "(string \<Rightarrow> uuid option) \<Rightarrow> string \<Rightarrow> string \<Rightarrow> uuid jobs_prog" where
  "path_id parse what i = (case parse i of None \<Rightarrow> raise (AppError 400 what) | Some u \<Rightarrow> ret u)"

definition job_handle_Create :: "codec \<Rightarrow> jobs_err + CreateJobRequest \<Rightarrow> response jobs_prog" where
  "job_handle_Create c bound =
     bnd (bind_body bound) (\<lambda>req.
     bnd (require (cj_title req \<noteq> '''') (AppError 400 ''title is required'')) (\<lambda>_.
     bnd (require (cj_client_id req \<noteq> uuid_Nil) (AppError 400 ''client_id is required'')) (\<lambda>_.
     bnd (store_err begin_tx) (\<lambda>_. defer_rollback (
     bnd (store_err (stmt (job_Create req))) (\<lambda>job.
     bnd (store_err (stmt (Insert jobs_outbox (job_entry ''job'' (j_id job) EventJobCreated (job_json c job))))) (\<lambda>_.
     bnd (store_err commit_tx) (\<lambda>_.
     ret (Resp 201 (job_json c job))))))))))"

definition job_handle_GetByID ::
  "codec \<Rightarrow> (string \<Rightarrow> uuid option) \<Rightarrow> string \<Rightarrow> response jobs_prog" where
  "job_handle_GetByID c parse i =
     bnd (path_id parse ''invalid job id'' i) (\<lambda>u.
     bnd (store_err (auto_stmt (job_GetByID u))) (\<lambda>job.
     ret (Resp 200 (job_json c job))))"

text \<open>The parameters of a list: the error of \<open>Atoi\<close> is dropped, its value is not.\<close>

definition list_limit :: "string \<Rightarrow> int" where
  "list_limit v = (let limit = snd (Atoi v); limit = (if limit \<le> 0 then 20 else limit)
     in if 100 < limit then 100 else limit)"

definition list_offset :: "string \<Rightarrow> int" where
  "list_offset v = (let offset = snd (Atoi v) in if offset < 0 then 0 else offset)"

definition job_handle_List :: "codec \<Rightarrow> string \<Rightarrow> string \<Rightarrow> string \<Rightarrow> response jobs_prog" where
  "job_handle_List c limit offset status =
     (let params = \<lparr>lj_status = (if status \<noteq> '''' then Some status else None),
            lj_limit = list_limit limit, lj_offset = list_offset offset\<rparr> in
      bnd (require (status = '''' \<or> status \<in> set validJobStatuses) (AppError 400 ''invalid status filter'')) (\<lambda>_.
      bnd (store_err (auto_stmt (job_List params))) (\<lambda>js.
      bnd (store_err (auto_stmt (job_Count params))) (\<lambda>total.
      ret (Resp 200 (JObj [(''items'', JArr (map (job_json c) js)), (''total'', JNum total)]))))))"

definition job_handle_Update ::
  "codec \<Rightarrow> (string \<Rightarrow> uuid option) \<Rightarrow> string \<Rightarrow> jobs_err + UpdateJobRequest \<Rightarrow> response jobs_prog" where
  "job_handle_Update c parse i bound =
     bnd (path_id parse ''invalid job id'' i) (\<lambda>u.
     bnd (bind_body bound) (\<lambda>req.
     bnd (require (case uj_status req of None \<Rightarrow> True | Some st \<Rightarrow> st \<in> set validJobStatuses)
       (AppError 400 ''invalid status'')) (\<lambda>_.
     bnd (store_err begin_tx) (\<lambda>_. defer_rollback (
     bnd (store_err (stmt (job_Update u req))) (\<lambda>job.
     bnd (store_err (stmt (Insert jobs_outbox (job_entry ''job'' (j_id job) EventJobUpdated (job_json c job))))) (\<lambda>_.
     bnd (store_err commit_tx) (\<lambda>_.
     ret (Resp 200 (job_json c job))))))))))"

section \<open>Profiles\<close>

definition profile_handle_Create :: "codec \<Rightarrow> jobs_err + CreateProfileRequest \<Rightarrow> response jobs_prog" where
  "profile_handle_Create c bound =
     bnd (bind_body bound) (\<lambda>req.
     bnd (require (cp_full_name req \<noteq> '''') (AppError 400 ''full_name is required'')) (\<lambda>_.
     bnd (store_err begin_tx) (\<lambda>_. defer_rollback (
     bnd (store_err (profile_Create stmt req)) (\<lambda>p.
     bnd (store_err (stmt (Insert jobs_outbox
       (job_entry ''profile'' (p_id p) EventProfileCreated (profile_json c p))))) (\<lambda>_.
     bnd (store_err commit_tx) (\<lambda>_.
     ret (Resp 201 (profile_json c p)))))))))"

definition profile_handle_GetByID ::
  "codec \<Rightarrow> (string \<Rightarrow> uuid option) \<Rightarrow> (string \<Rightarrow> nat list) \<Rightarrow> string \<Rightarrow> response jobs_prog" where
  "profile_handle_GetByID c parse collation i =
     bnd (path_id parse ''invalid profile id'' i) (\<lambda>u.
     bnd (store_err (profile_GetByID collation auto_stmt auto_stmt u)) (\<lambda>p.
     ret (Resp 200 (profile_json c p))))"

definition profile_handle_UpdateSkills ::
  "codec \<Rightarrow> (string \<Rightarrow> uuid option) \<Rightarrow> (string \<Rightarrow> nat list) \<Rightarrow> string \<Rightarrow> jobs_err + uuid list \<Rightarrow> response jobs_prog" where
  "profile_handle_UpdateSkills c parse collation i bound =
     bnd (path_id parse ''invalid profile id'' i) (\<lambda>u.
     bnd (bind_body bound) (\<lambda>sks.
     bnd (store_err begin_tx) (\<lambda>_. defer_rollback (
     bnd (store_err (profile_GetByID collation stmt stmt u)) (\<lambda>_.
     bnd (store_err (profile_UpdateSkills stmt u sks)) (\<lambda>_.
     bnd (store_err (profile_GetByID collation stmt stmt u)) (\<lambda>p.
     bnd (store_err (stmt (Insert jobs_outbox
       (job_entry ''profile'' (p_id p) EventProfileUpdated (profile_json c p))))) (\<lambda>_.
     bnd (store_err commit_tx) (\<lambda>_.
     ret (Resp 200 (profile_json c p)))))))))))"

section \<open>Routes\<close>

datatype jobs_call =
    PostJob "jobs_err + CreateJobRequest"
  | GetJobs string string string
  | GetJob string
  | PutJob string "jobs_err + UpdateJobRequest"
  | PostProfile "jobs_err + CreateProfileRequest"
  | GetProfile string
  | PutSkills string "jobs_err + uuid list"

definition jobs_serve ::
  "codec \<Rightarrow> (string \<Rightarrow> uuid option) \<Rightarrow> (string \<Rightarrow> nat list) \<Rightarrow> jobs_call \<Rightarrow> (jdb, uuid) sess
   \<Rightarrow> response \<times> (jdb, uuid) sess" where
  "jobs_serve c parse collation call = requestLogger (case call of
       PostJob bound \<Rightarrow> job_handle_Create c bound
     | GetJobs limit offset status \<Rightarrow> job_handle_List c limit offset status
     | GetJob i \<Rightarrow> job_handle_GetByID c parse i
     | PutJob i bound \<Rightarrow> job_handle_Update c parse i bound
     | PostProfile bound \<Rightarrow> profile_handle_Create c bound
     | GetProfile i \<Rightarrow> profile_handle_GetByID c parse collation i
     | PutSkills i bound \<Rightarrow> profile_handle_UpdateSkills c parse collation i bound)"

end
