(* ===== verification/JobsSpec.thy ===== *)
theory JobsSpec
  imports JobsHandler
begin

text \<open>
  What jobs-api does to its database, as steps: each change of a job or a profile comes with the
  one outbox entry that carries the new state. The handlers make these steps and no others, and
  the invariant says that the outbox can rebuild the tables: the last event about a row shows it.
\<close>

section \<open>Steps\<close>

datatype jobs_event =
    JobCreated Job
  | JobUpdated UpdateJobRequest Job
  | ProfileCreated Profile
  | SkillsSet "uuid list" Profile

definition emitted :: "jdb \<Rightarrow> string \<Rightarrow> uuid \<Rightarrow> string \<Rightarrow> json \<Rightarrow> uuid entry \<Rightarrow> bool" where
  "emitted d ty i event payload e \<longleftrightarrow> e_id e \<notin> e_id ` set (job_events d) \<and> e_aggregate_type e = ty \<and>
     e_aggregate_id e = i \<and> e_event_type e = event \<and> e_payload e = payload \<and> e_published_at e = None"

inductive jobs_step ::
  "codec \<Rightarrow> (string \<Rightarrow> nat list) \<Rightarrow> jdb \<Rightarrow> jobs_event \<Rightarrow> jdb \<Rightarrow> bool" for c collation d where
  job_created:
    "\<lbrakk>j_id j \<notin> j_id ` set (jobs d); j_title j \<noteq> ''''; j_client_id j \<noteq> uuid_Nil; j_status j = ''draft'';
      int4 (j_budget_min j); int4 (j_budget_max j);
      emitted d ''job'' (j_id j) EventJobCreated (job_json c j) e\<rbrakk>
     \<Longrightarrow> jobs_step c collation d (JobCreated j)
       (d\<lparr>jobs := jobs d @ [j], job_events := job_events d @ [e]\<rparr>)"
| job_updated:
    "\<lbrakk>sel j_id (j_id j) (jobs d) = Some j; given (\<lambda>st. st \<in> set validJobStatuses) (uj_status req);
      given int4 (uj_budget_min req); given int4 (uj_budget_max req);
      emitted d ''job'' (j_id j) EventJobUpdated (job_json c (job_merge req now j)) e\<rbrakk>
     \<Longrightarrow> jobs_step c collation d (JobUpdated req (job_merge req now j))
       (d\<lparr>jobs := upd j_id (j_id j) (job_merge req now) (jobs d), job_events := job_events d @ [e]\<rparr>)"
| profile_created:
    "\<lbrakk>p_id p \<notin> p_id ` set (profiles d); p_full_name p \<noteq> ''''; int4 (p_hourly_rate p);
      emitted d ''profile'' (p_id p) EventProfileCreated (profile_json c (with_skills p [])) e\<rbrakk>
     \<Longrightarrow> jobs_step c collation d (ProfileCreated (with_skills p []))
       (d\<lparr>profiles := profiles d @ [p], job_events := job_events d @ [e]\<rparr>)"
| skills_set:
    "\<lbrakk>sel p_id (p_id p) (profiles d) = Some p; distinct sks; set sks \<subseteq> sk_id ` set (skills d);
      d1 = d\<lparr>profile_skills := filter (\<lambda>(q, k). q \<noteq> p_id p) (profile_skills d) @ map (Pair (p_id p)) sks,
        profiles := upd p_id (p_id p) (\<lambda>p. p\<lparr>p_updated_at := now\<rparr>) (profiles d)\<rparr>;
      q = with_skills (p\<lparr>p_updated_at := now\<rparr>) (skills_of collation (p_id p) d1);
      emitted d ''profile'' (p_id p) EventProfileUpdated (profile_json c q) e\<rbrakk>
     \<Longrightarrow> jobs_step c collation d (SkillsSet sks q) (d1\<lparr>job_events := job_events d @ [e]\<rparr>)"

section \<open>What the statements do\<close>

lemma with_skills_simps [simp]:
  "p_id (with_skills p ss) = p_id p" "p_skills (with_skills p ss) = ss"
  by (simp_all add: with_skills_def profile_row.defs)

lemma job_Insert_InrE:
  assumes "Insert jobs_outbox (job_entry ty i ev payload) now u d = Inr (x, d')"
  obtains e where "emitted d ty i ev payload e" "d' = d\<lparr>job_events := job_events d @ [e]\<rparr>"
  using assms
  by (intro that [of "(job_entry ty i ev payload)\<lparr>e_id := u, e_created_at := now, e_published_at := None\<rparr>"])
    (auto simp: jobs_outbox_def PostgresStore_def pg_Insert_def job_entry_def emitted_def split: if_splits)

lemma job_Create_InrE:
  assumes "job_Create req now u d = Inr (j, d')"
  obtains "d' = d\<lparr>jobs := jobs d @ [j]\<rparr>" "j_id j \<notin> j_id ` set (jobs d)" "j_title j = cj_title req"
    "j_client_id j = cj_client_id req" "j_status j = ''draft''" "j_description j = cj_description req"
    "int4 (j_budget_min j)" "int4 (j_budget_max j)" "j_budget_min j = cj_budget_min req"
    "j_budget_max j = cj_budget_max req"
  using assms by (auto simp: job_Create_def Let_def split: if_splits)

lemma job_Update_InrE:
  assumes "job_Update i req now u d = Inr (j', d')"
  obtains j where "sel j_id (j_id j) (jobs d) = Some j" "j_id j = i" "j' = job_merge req now j"
    "d' = d\<lparr>jobs := upd j_id i (job_merge req now) (jobs d)\<rparr>"
    "given int4 (uj_budget_min req)" "given int4 (uj_budget_max req)"
  using assms by (auto simp: job_Update_def split: if_splits option.splits dest: sel_SomeD)

lemma profile_insert_InrE:
  assumes "profile_insert req now u d = Inr (p, d')"
  obtains "d' = d\<lparr>profiles := profiles d @ [p]\<rparr>" "p_id p \<notin> p_id ` set (profiles d)"
    "p_full_name p = cp_full_name req" "p_bio p = cp_bio req" "int4 (p_hourly_rate p)"
    "p_hourly_rate p = cp_hourly_rate req"
  using assms by (auto simp: profile_insert_def Let_def split: if_splits)

lemma profile_select_InrE:
  assumes "profile_select i now u d = Inr (p, d')"
  obtains "d' = d" "sel p_id (p_id p) (profiles d) = Some p" "p_id p = i"
  using assms by (auto simp: profile_select_def split: option.splits dest: sel_SomeD)

lemma skills_select_InrE:
  assumes "skills_select collation i now u d = Inr (ss, d')"
  obtains "d' = d" "ss = skills_of collation i d"
  using assms by (auto simp: skills_select_def)

section \<open>Programs inside a transaction\<close>

text \<open>A program that touches the transaction's view only.\<close>

definition in_tx :: "((jdb, uuid) sess, db_err, 'a) prog \<Rightarrow> (jdb \<Rightarrow> 'a \<Rightarrow> jdb \<Rightarrow> bool) \<Rightarrow> bool" where
  "in_tx m eff \<longleftrightarrow> (\<forall>s q s'. m s = (q, s') \<longrightarrow>
     s_db s' = s_db s \<and> (\<forall>x. q = Inr x \<longrightarrow> eff (s_tx s) x (s_tx s')))"

lemma in_txD:
  assumes "in_tx m eff" "m s = (q, s')"
  shows "s_db s' = s_db s" "q = Inr x \<Longrightarrow> eff (s_tx s) x (s_tx s')"
  using assms by (auto simp: in_tx_def)

lemma in_tx_stmt: "(\<And>now u d x d'. f now u d = Inr (x, d') \<Longrightarrow> eff d x d') \<Longrightarrow> in_tx (stmt f) eff"
  by (auto simp: in_tx_def elim!: stmt_eqE)

lemma in_tx_ret: "(\<And>d. eff d x d) \<Longrightarrow> in_tx (ret x) eff"
  by (auto simp: in_tx_def ret_def)

lemma in_tx_bnd:
  assumes "in_tx m effa" "\<And>x. in_tx (f x) (effb x)"
    and "\<And>d x d1 y d2. effa d x d1 \<Longrightarrow> effb x d1 y d2 \<Longrightarrow> eff d y d2"
  shows "in_tx (bnd m f) eff"
  unfolding in_tx_def
proof (intro allI impI)
  fix s q s' assume "bnd m f s = (q, s')"
  then show "s_db s' = s_db s \<and> (\<forall>x. q = Inr x \<longrightarrow> eff (s_tx s) x (s_tx s'))"
  proof (cases rule: bnd_eqE)
    case (stop e)
    with in_txD(1) [OF assms(1) stop(1)] show ?thesis by simp
  next
    case (go x s1)
    with in_txD [OF assms(1) go(1)] in_txD [OF assms(2) go(2)] assms(3) show ?thesis by auto
  qed
qed

lemma map_err_bnd:
  "bnd (map_err h m) (\<lambda>x. bnd (map_err h (f x)) g) = bnd (map_err h (bnd m f)) g"
  by (auto simp: fun_eq_iff bnd_def map_err_def split: prod.splits sum.splits)

lemma map_err_ret: "map_err h (ret x) = ret x"
  by (simp add: fun_eq_iff map_err_def ret_def)

text \<open>The bracket of the handlers that write: a change, its event, the commit.\<close>

lemma write_bracket:
  assumes "bnd (store_err begin_tx) (\<lambda>_. defer_rollback (
      bnd (store_err m) (\<lambda>x.
      bnd (store_err (stmt (Insert jobs_outbox (job_entry ty (i x) ev (payload x))))) (\<lambda>_.
      bnd (store_err commit_tx) (\<lambda>_. ret (reply x)))))) s = (q, s')"
    and "in_tx m eff"
  obtains (refused) e where "s_db s' = s_db s" "q = Inl (StoreError e)"
  | (made) x d e where "eff (s_db s) x d" "emitted d ty (i x) ev (payload x) e"
      "s_db s' = d\<lparr>job_events := job_events d @ [e]\<rparr>" "q \<in> {Inr (reply x), Inl (StoreError ErrConn)}"
  using assms(1)
proof (cases rule: bnd_eqE)
  case (stop e)
  then show thesis by (intro refused) (auto elim!: map_err_InlE begin_tx_InlE)
next
  case (go y s1)
  from go(1) have s1: "s_db s1 = s_db s" "s_tx s1 = s_db s" by (auto elim!: map_err_InrE begin_tx_InrE)
  obtain s2 where run: "bnd (store_err m) (\<lambda>x.
      bnd (store_err (stmt (Insert jobs_outbox (job_entry ty (i x) ev (payload x))))) (\<lambda>_.
      bnd (store_err commit_tx) (\<lambda>_. ret (reply x)))) s1 = (q, s2)" "s_db s' = s_db s2"
    using go(2) by (auto elim: defer_rollback_pairE)
  from run(1) show thesis
  proof (cases rule: bnd_eqE)
    case (stop e)
    then obtain e' where "m s1 = (Inl e', s2)" "q = Inl (StoreError e')" by (auto elim: map_err_InlE)
    with in_txD(1) [OF assms(2)] s1 run(2) show thesis by (intro refused) auto
  next
    case (go x s3)
    from go(1) have "m s1 = (Inr x, s3)" by (auto elim: map_err_InrE)
    from in_txD [OF assms(2) this] s1 have s3: "s_db s3 = s_db s" "eff (s_db s) x (s_tx s3)" by auto
    from go(2) show thesis
    proof (cases rule: bnd_eqE)
      case (stop e)
      then obtain e' where "q = Inl (StoreError e')" "s_db s2 = s_db s3"
        by (auto elim!: map_err_InlE stmt_InlE)
      with s3 run(2) show thesis by (intro refused) auto
    next
      case (go z s4)
      from go(1) obtain e where e: "emitted (s_tx s3) ty (i x) ev (payload x) e"
        "s_tx s4 = (s_tx s3)\<lparr>job_events := job_events (s_tx s3) @ [e]\<rparr>" "s_db s4 = s_db s3"
        by (auto elim!: map_err_InrE stmt_InrE job_Insert_InrE)
      from go(2) obtain q1 s5 where c: "commit_tx s4 = (q1, s5)" "s_db s2 = s_db s5"
        "q = (case q1 of Inl err \<Rightarrow> Inl (StoreError err) | Inr _ \<Rightarrow> Inr (reply x))"
        by (auto simp: bnd_def map_err_def ret_def split: prod.splits sum.splits)
      from c(1) show thesis
      proof (cases rule: commit_tx_eqE)
        case failed
        with c e(3) s3(1) run(2) show thesis by (intro refused) auto
      qed (use c e s3(2) run(2) in \<open>auto intro!: made\<close>)
    qed
  qed
qed

section \<open>The handlers make these steps\<close>

definition is_jobs_read :: "jobs_call \<Rightarrow> bool" where
  "is_jobs_read call \<longleftrightarrow> (case call of GetJobs _ _ _ \<Rightarrow> True | GetJob _ \<Rightarrow> True | GetProfile _ \<Rightarrow> True | _ \<Rightarrow> False)"

text \<open>The reply to a body that did not bind.\<close>

definition unbound :: "jobs_call \<Rightarrow> response \<Rightarrow> bool" where
  "unbound call r \<longleftrightarrow>
     (\<exists>err. (call = PostJob (Inl err) \<or> (\<exists>i. call = PutJob i (Inl err)) \<or> call = PostProfile (Inl err) \<or>
         (\<exists>i. call = PutSkills i (Inl err))) \<and> customErrorHandler False err = Some r)"

fun asks :: "(string \<Rightarrow> uuid option) \<Rightarrow> jobs_call \<Rightarrow> jobs_event \<Rightarrow> bool" where
  "asks parse (PostJob bound) (JobCreated j) \<longleftrightarrow> (\<exists>req. bound = Inr req \<and> j_title j = cj_title req \<and>
     j_description j = cj_description req \<and> j_budget_min j = cj_budget_min req \<and>
     j_budget_max j = cj_budget_max req \<and> j_client_id j = cj_client_id req)"
| "asks parse (PutJob i bound) (JobUpdated req j) \<longleftrightarrow> bound = Inr req \<and> parse i = Some (j_id j)"
| "asks parse (PostProfile bound) (ProfileCreated p) \<longleftrightarrow> (\<exists>req. bound = Inr req \<and>
     p_full_name p = cp_full_name req \<and> p_bio p = cp_bio req \<and> p_hourly_rate p = cp_hourly_rate req)"
| "asks parse (PutSkills i bound) (SkillsSet sks q) \<longleftrightarrow> bound = Inr sks \<and> parse i = Some (p_id q)"
| "asks parse _ _ \<longleftrightarrow> False"

fun jobs_answer :: "codec \<Rightarrow> jobs_event \<Rightarrow> response" where
  "jobs_answer c (JobCreated j) = Resp 201 (job_json c j)"
| "jobs_answer c (JobUpdated req j) = Resp 200 (job_json c j)"
| "jobs_answer c (ProfileCreated p) = Resp 201 (profile_json c p)"
| "jobs_answer c (SkillsSet sks p) = Resp 200 (profile_json c p)"

lemma with_skills_fields [simp]:
  "p_full_name (with_skills p ss) = p_full_name p" "p_bio (with_skills p ss) = p_bio p"
  "p_hourly_rate (with_skills p ss) = p_hourly_rate p"
  by (simp_all add: with_skills_def profile_row.defs)

lemma job_merge_id [simp]: "j_id (job_merge req now j) = j_id j"
  by (simp add: job_merge_def)

lemma in_tx_profile_Create:
  "in_tx (profile_Create stmt req) (\<lambda>d q d'. \<exists>p. q = with_skills p [] \<and> d' = d\<lparr>profiles := profiles d @ [p]\<rparr> \<and>
     p_id p \<notin> p_id ` set (profiles d) \<and> p_full_name p = cp_full_name req \<and> p_bio p = cp_bio req \<and>
     p_hourly_rate p = cp_hourly_rate req \<and> int4 (p_hourly_rate p))"
  unfolding profile_Create_def
  by (rule in_tx_bnd [OF in_tx_stmt in_tx_ret [where eff = "\<lambda>d q d'. d' = d \<and> q = with_skills x []" for x],
      where effa = "\<lambda>d p d'. d' = d\<lparr>profiles := profiles d @ [p]\<rparr> \<and>
     p_id p \<notin> p_id ` set (profiles d) \<and> p_full_name p = cp_full_name req \<and> p_bio p = cp_bio req \<and>
     p_hourly_rate p = cp_hourly_rate req \<and> int4 (p_hourly_rate p)"])
    (auto elim: profile_insert_InrE)

lemma in_tx_profile_GetByID:
  "in_tx (profile_GetByID collation stmt stmt u) (\<lambda>d q d'. d' = d \<and>
     (\<exists>p. sel p_id u (profiles d) = Some p \<and> p_id p = u \<and> q = with_skills p (skills_of collation u d)))"
  unfolding profile_GetByID_def
proof (rule in_tx_bnd [where effa = "\<lambda>d p d'. d' = d \<and> sel p_id u (profiles d) = Some p \<and> p_id p = u"
    and effb = "\<lambda>p d q d'. d' = d \<and> q = with_skills p (skills_of collation u d)"])
  show "in_tx (stmt (profile_select u)) (\<lambda>d p d'. d' = d \<and> sel p_id u (profiles d) = Some p \<and> p_id p = u)"
    by (rule in_tx_stmt) (auto elim: profile_select_InrE)
  show "in_tx (bnd (stmt (skills_select collation u)) (\<lambda>ss. ret (with_skills p ss)))
      (\<lambda>d q d'. d' = d \<and> q = with_skills p (skills_of collation u d))" for p
    by (rule in_tx_bnd [where effa = "\<lambda>d ss d'. d' = d \<and> ss = skills_of collation u d"
        and effb = "\<lambda>ss d q d'. d' = d \<and> q = with_skills p ss"])
      (auto intro!: in_tx_stmt in_tx_ret elim: skills_select_InrE)
qed auto

lemma in_tx_insert_each:
  "in_tx (skills_insert_each stmt i sks) (\<lambda>d _ d'. distinct sks \<and> set sks \<subseteq> sk_id ` set (skills d) \<and>
     (\<forall>sk\<in>set sks. (i, sk) \<notin> set (profile_skills d)) \<and>
     d' = d\<lparr>profile_skills := profile_skills d @ map (Pair i) sks\<rparr>)"
proof (induction sks)
  case Nil
  show ?case by (auto simp: in_tx_def)
next
  case (Cons sk sks)
  show ?case unfolding skills_insert_each.simps
    by (rule in_tx_bnd [where effa = "\<lambda>d _ d'. sk \<in> sk_id ` set (skills d) \<and> (i, sk) \<notin> set (profile_skills d) \<and>
          d' = d\<lparr>profile_skills := profile_skills d @ [(i, sk)]\<rparr>", OF in_tx_stmt Cons])
      (auto simp: skills_insert_def sel_None_iff image_iff split: if_splits dest: sel_SomeD)
qed

lemma in_tx_UpdateSkills:
  "in_tx (profile_UpdateSkills stmt i sks) (\<lambda>d _ d'. \<exists>now. distinct sks \<and> set sks \<subseteq> sk_id ` set (skills d) \<and>
     d' = d\<lparr>profile_skills := filter (\<lambda>(q, k). q \<noteq> i) (profile_skills d) @ map (Pair i) sks,
       profiles := upd p_id i (\<lambda>p. p\<lparr>p_updated_at := now\<rparr>) (profiles d)\<rparr>)"
  unfolding profile_UpdateSkills_def
proof (rule in_tx_bnd [where effa = "\<lambda>d _ d'. d' = d\<lparr>profile_skills := filter (\<lambda>(q, k). q \<noteq> i) (profile_skills d)\<rparr>"
    and effb = "\<lambda>_ d _ d'. \<exists>now. distinct sks \<and> set sks \<subseteq> sk_id ` set (skills d) \<and>
     d' = d\<lparr>profile_skills := profile_skills d @ map (Pair i) sks,
       profiles := upd p_id i (\<lambda>p. p\<lparr>p_updated_at := now\<rparr>) (profiles d)\<rparr>"])
  show "in_tx (stmt (skills_delete i)) (\<lambda>d _ d'. d' = d\<lparr>profile_skills := filter (\<lambda>(q, k). q \<noteq> i) (profile_skills d)\<rparr>)"
    by (rule in_tx_stmt) (simp add: skills_delete_def)
  show "in_tx (bnd (skills_insert_each stmt i sks) (\<lambda>_. stmt (profile_touch i)))
     (\<lambda>d _ d'. \<exists>now. distinct sks \<and> set sks \<subseteq> sk_id ` set (skills d) \<and>
       d' = d\<lparr>profile_skills := profile_skills d @ map (Pair i) sks,
         profiles := upd p_id i (\<lambda>p. p\<lparr>p_updated_at := now\<rparr>) (profiles d)\<rparr>)"
    by (rule in_tx_bnd [where effb = "\<lambda>_ d _ d'. \<exists>now. d' = d\<lparr>profiles := upd p_id i (\<lambda>p. p\<lparr>p_updated_at := now\<rparr>) (profiles d)\<rparr>",
        OF in_tx_insert_each in_tx_stmt]) (auto simp: profile_touch_def)
qed auto

text \<open>How a run of a handler ends: refused before or without a change, or one step.\<close>

definition ends :: "codec \<Rightarrow> (string \<Rightarrow> uuid option) \<Rightarrow> (string \<Rightarrow> nat list) \<Rightarrow> jobs_call \<Rightarrow> jdb \<Rightarrow>
    jobs_err + response \<Rightarrow> jdb \<Rightarrow> bool" where
  "ends c parse collation call d q d' \<longleftrightarrow>
     d' = d \<and> (\<exists>err. q = Inl err \<and> (\<forall>r. customErrorHandler False err = Some r \<longrightarrow>
       code r \<in> {400, 404, 500} \<or> unbound call r)) \<or>
     (\<exists>ev. jobs_step c collation d ev d' \<and> asks parse call ev \<and>
       q \<in> {Inr (jobs_answer c ev), Inl (StoreError ErrConn)})"

lemma ends_refused:
  "d' = d \<Longrightarrow> (\<exists>e. q = Inl (StoreError e)) \<or> (\<exists>msg. q = Inl (AppError 400 msg)) \<Longrightarrow>
   ends c parse collation call d q d'"
  by (auto simp: ends_def customErrorHandler_def split: if_splits)

lemma require_run [simp]: "require ok err s = (if ok then Inr () else Inl err, s)"
  by (simp add: require_def ret_def raise_def)

lemma bind_body_run [simp]: "bind_body bound s = (bound, s)"
  by (cases bound) (simp_all add: bind_body_def ret_def raise_def)

lemma path_id_run [simp]:
  "path_id parse msg i s = (case parse i of None \<Rightarrow> Inl (AppError 400 msg) | Some u \<Rightarrow> Inr u, s)"
  by (simp add: path_id_def ret_def raise_def split: option.splits)

lemma bnd_run: "m s = (q, s) \<Longrightarrow> bnd m f s = (case q of Inl e \<Rightarrow> (Inl e, s) | Inr x \<Rightarrow> f x s)"
  by (simp add: bnd_def split: sum.splits)

lemma job_handle_Create_ends:
  assumes "job_handle_Create c bound s = (q, s')"
  shows "ends c parse collation (PostJob bound) (s_db s) q (s_db s')"
proof (cases bound)
  case (Inl err)
  with assms have "q = Inl err" "s' = s" by (simp_all add: job_handle_Create_def bnd_run)
  with Inl show ?thesis by (auto simp: ends_def unbound_def)
next
  case (Inr req)
  show ?thesis
  proof (cases "cj_title req \<noteq> '''' \<and> cj_client_id req \<noteq> uuid_Nil")
    case False
    with assms Inr show ?thesis
      by (intro ends_refused) (auto simp: job_handle_Create_def bnd_run split: if_splits)
  next
    case True
    have eff: "in_tx (stmt (job_Create req)) (\<lambda>d j d'. d' = d\<lparr>jobs := jobs d @ [j]\<rparr> \<and> j_id j \<notin> j_id ` set (jobs d) \<and>
        j_title j = cj_title req \<and> j_client_id j = cj_client_id req \<and> j_status j = ''draft'' \<and>
        j_description j = cj_description req \<and> int4 (j_budget_min j) \<and> int4 (j_budget_max j) \<and>
        j_budget_min j = cj_budget_min req \<and> j_budget_max j = cj_budget_max req)"
      by (rule in_tx_stmt) (auto elim: job_Create_InrE)
    from assms True Inr have run: "bnd (store_err begin_tx) (\<lambda>_. defer_rollback (
        bnd (store_err (stmt (job_Create req))) (\<lambda>job.
        bnd (store_err (stmt (Insert jobs_outbox (job_entry ''job'' (j_id job) EventJobCreated (job_json c job))))) (\<lambda>_.
        bnd (store_err commit_tx) (\<lambda>_. ret (Resp 201 (job_json c job))))))) s = (q, s')"
      by (simp add: job_handle_Create_def bnd_run)
    show ?thesis
    proof (cases rule: write_bracket [OF run eff])
      case 1
      then show ?thesis by (intro ends_refused) auto
    next
      case (2 j d e)
      have "jobs_step c collation (s_db s) (JobCreated j)
          ((s_db s)\<lparr>jobs := jobs (s_db s) @ [j], job_events := job_events (s_db s) @ [e]\<rparr>)"
        using 2(1,2) True by (intro jobs_step.job_created) (auto simp: emitted_def)
      with 2(1,3) have "jobs_step c collation (s_db s) (JobCreated j) (s_db s')" by simp
      moreover have "asks parse (PostJob bound) (JobCreated j)" using 2(1) Inr by simp
      moreover have "q \<in> {Inr (jobs_answer c (JobCreated j)), Inl (StoreError ErrConn)}" using 2(4) by simp
      ultimately show ?thesis unfolding ends_def by blast
    qed
  qed
qed

lemma job_handle_Update_ends:
  assumes "job_handle_Update c parse i bound s = (q, s')"
  shows "ends c parse collation (PutJob i bound) (s_db s) q (s_db s')"
proof (cases "parse i")
  case None
  with assms show ?thesis by (intro ends_refused) (auto simp: job_handle_Update_def bnd_run)
next
  case u: (Some u)
  show ?thesis
  proof (cases bound)
    case (Inl err)
    with assms u have "q = Inl err" "s' = s" by (simp_all add: job_handle_Update_def bnd_run)
    with Inl show ?thesis by (auto simp: ends_def unbound_def)
  next
    case (Inr req)
    show ?thesis
    proof (cases "given (\<lambda>st. st \<in> set validJobStatuses) (uj_status req)")
      case False
      with assms u Inr show ?thesis
        by (intro ends_refused) (auto simp: job_handle_Update_def bnd_run split: if_splits option.splits)
    next
      case True
      have eff: "in_tx (stmt (job_Update u req)) (\<lambda>d j' d'. \<exists>j now. sel j_id (j_id j) (jobs d) = Some j \<and>
          j_id j = u \<and> j' = job_merge req now j \<and> d' = d\<lparr>jobs := upd j_id u (job_merge req now) (jobs d)\<rparr> \<and>
          given int4 (uj_budget_min req) \<and> given int4 (uj_budget_max req))"
        by (rule in_tx_stmt) (erule job_Update_InrE, blast)
      from True have "(case uj_status req of None \<Rightarrow> True | Some st \<Rightarrow> st \<in> set validJobStatuses)"
        by (cases "uj_status req") auto
      with assms u Inr have run: "bnd (store_err begin_tx) (\<lambda>_. defer_rollback (
          bnd (store_err (stmt (job_Update u req))) (\<lambda>job.
          bnd (store_err (stmt (Insert jobs_outbox (job_entry ''job'' (j_id job) EventJobUpdated (job_json c job))))) (\<lambda>_.
          bnd (store_err commit_tx) (\<lambda>_. ret (Resp 200 (job_json c job))))))) s = (q, s')"
        by (simp add: job_handle_Update_def bnd_run)
      show ?thesis
      proof (cases rule: write_bracket [OF run eff])
        case 1
        then show ?thesis by (intro ends_refused) auto
      next
        case (2 j' d e)
        from 2(1) obtain j now where j: "sel j_id (j_id j) (jobs (s_db s)) = Some j" "j_id j = u"
          "j' = job_merge req now j" "d = (s_db s)\<lparr>jobs := upd j_id u (job_merge req now) (jobs (s_db s))\<rparr>"
          "given int4 (uj_budget_min req)" "given int4 (uj_budget_max req)" by auto
        have "jobs_step c collation (s_db s) (JobUpdated req (job_merge req now j))
            ((s_db s)\<lparr>jobs := upd j_id (j_id j) (job_merge req now) (jobs (s_db s)),
              job_events := job_events (s_db s) @ [e]\<rparr>)"
          using j 2(2) True by (intro jobs_step.job_updated) (auto simp: emitted_def)
        with 2(3) j have "jobs_step c collation (s_db s) (JobUpdated req j') (s_db s')" by simp
        moreover have "asks parse (PutJob i bound) (JobUpdated req j')" using j Inr u by simp
        moreover have "q \<in> {Inr (jobs_answer c (JobUpdated req j')), Inl (StoreError ErrConn)}" using 2(4) by simp
        ultimately show ?thesis unfolding ends_def by blast
      qed
    qed
  qed
qed

lemma profile_handle_Create_ends:
  assumes "profile_handle_Create c bound s = (q, s')"
  shows "ends c parse collation (PostProfile bound) (s_db s) q (s_db s')"
proof (cases bound)
  case (Inl err)
  with assms have "q = Inl err" "s' = s" by (simp_all add: profile_handle_Create_def bnd_run)
  with Inl show ?thesis by (auto simp: ends_def unbound_def)
next
  case (Inr req)
  show ?thesis
  proof (cases "cp_full_name req = ''''")
    case True
    with assms Inr show ?thesis
      by (intro ends_refused) (auto simp: profile_handle_Create_def bnd_run)
  next
    case False
    with assms Inr have run: "bnd (store_err begin_tx) (\<lambda>_. defer_rollback (
        bnd (store_err (profile_Create stmt req)) (\<lambda>p.
        bnd (store_err (stmt (Insert jobs_outbox (job_entry ''profile'' (p_id p) EventProfileCreated (profile_json c p))))) (\<lambda>_.
        bnd (store_err commit_tx) (\<lambda>_. ret (Resp 201 (profile_json c p))))))) s = (q, s')"
      by (simp add: profile_handle_Create_def bnd_run)
    show ?thesis
    proof (cases rule: write_bracket [OF run in_tx_profile_Create])
      case 1
      then show ?thesis by (intro ends_refused) auto
    next
      case (2 q' d e)
      then obtain p where p: "q' = with_skills p []" "d = (s_db s)\<lparr>profiles := profiles (s_db s) @ [p]\<rparr>"
        "p_id p \<notin> p_id ` set (profiles (s_db s))" "p_full_name p = cp_full_name req" "p_bio p = cp_bio req"
        "p_hourly_rate p = cp_hourly_rate req" "int4 (p_hourly_rate p)" by auto
      have "jobs_step c collation (s_db s) (ProfileCreated (with_skills p []))
          ((s_db s)\<lparr>profiles := profiles (s_db s) @ [p], job_events := job_events (s_db s) @ [e]\<rparr>)"
        using p 2(2) False by (intro jobs_step.profile_created) (auto simp: emitted_def)
      with 2(3) p have "jobs_step c collation (s_db s) (ProfileCreated q') (s_db s')" by simp
      moreover have "asks parse (PostProfile bound) (ProfileCreated q')" using p Inr by simp
      moreover have "q \<in> {Inr (jobs_answer c (ProfileCreated q')), Inl (StoreError ErrConn)}" using 2(4) by simp
      ultimately show ?thesis unfolding ends_def by blast
    qed
  qed
qed

lemma profile_handle_UpdateSkills_ends:
  assumes "profile_handle_UpdateSkills c parse collation i bound s = (q, s')"
  shows "ends c parse collation (PutSkills i bound) (s_db s) q (s_db s')"
proof (cases "parse i")
  case None
  with assms show ?thesis by (intro ends_refused) (auto simp: profile_handle_UpdateSkills_def bnd_run)
next
  case u: (Some u)
  show ?thesis
  proof (cases bound)
    case (Inl err)
    with assms u have "q = Inl err" "s' = s" by (simp_all add: profile_handle_UpdateSkills_def bnd_run)
    with Inl show ?thesis by (auto simp: ends_def unbound_def)
  next
    case (Inr sks)
    let ?m = "bnd (profile_GetByID collation stmt stmt u) (\<lambda>_. bnd (profile_UpdateSkills stmt u sks)
      (\<lambda>_. profile_GetByID collation stmt stmt u))"
    let ?set = "\<lambda>d now. d\<lparr>profile_skills := filter (\<lambda>(q, k). q \<noteq> u) (profile_skills d) @ map (Pair u) sks,
       profiles := upd p_id u (\<lambda>p. p\<lparr>p_updated_at := now\<rparr>) (profiles d)\<rparr>"
    let ?found = "\<lambda>d q. \<exists>p. sel p_id u (profiles d) = Some p \<and> p_id p = u \<and> q = with_skills p (skills_of collation u d)"
    have eff: "in_tx ?m (\<lambda>d q d'. ?found d' q \<and> (\<exists>p. sel p_id u (profiles d) = Some p) \<and>
        (\<exists>now. distinct sks \<and> set sks \<subseteq> sk_id ` set (skills d) \<and> d' = ?set d now))"
    proof (rule in_tx_bnd [OF in_tx_profile_GetByID])
      show "in_tx (bnd (profile_UpdateSkills stmt u sks) (\<lambda>_. profile_GetByID collation stmt stmt u))
          (\<lambda>d q d'. ?found d' q \<and> (\<exists>now. distinct sks \<and> set sks \<subseteq> sk_id ` set (skills d) \<and> d' = ?set d now))"
        by (rule in_tx_bnd [OF in_tx_UpdateSkills in_tx_profile_GetByID]) blast
    qed blast
    from assms u Inr have run: "bnd (store_err begin_tx) (\<lambda>_. defer_rollback (
        bnd (store_err ?m) (\<lambda>p.
        bnd (store_err (stmt (Insert jobs_outbox (job_entry ''profile'' (p_id p) EventProfileUpdated (profile_json c p))))) (\<lambda>_.
        bnd (store_err commit_tx) (\<lambda>_. ret (Resp 200 (profile_json c p))))))) s = (q, s')"
      by (simp add: profile_handle_UpdateSkills_def bnd_run map_err_bnd [symmetric])
    show ?thesis
    proof (cases rule: write_bracket [OF run eff])
      case 1
      then show ?thesis by (intro ends_refused) auto
    next
      case (2 q' d e)
      from 2(1) obtain p p' now where p: "sel p_id u (profiles (s_db s)) = Some p" "distinct sks"
        "set sks \<subseteq> sk_id ` set (skills (s_db s))" "d = ?set (s_db s) now"
        "sel p_id u (profiles d) = Some p'" "p_id p' = u" "q' = with_skills p' (skills_of collation u d)"
        by blast
      have pu: "p_id p = u" using sel_SomeD [OF p(1)] by simp
      have "p' = p\<lparr>p_updated_at := now\<rparr>"
        using p(1,4,5,6) by (simp add: sel_upd)
      with p pu have q': "q' = with_skills (p\<lparr>p_updated_at := now\<rparr>) (skills_of collation (p_id p) d)" by simp
      have "jobs_step c collation (s_db s) (SkillsSet sks q') (d\<lparr>job_events := job_events (s_db s) @ [e]\<rparr>)"
        using p(1-4) pu 2(2) q' by (intro jobs_step.skills_set [where now = now and p = p]) (auto simp: emitted_def)
      with 2(3) p(4) have "jobs_step c collation (s_db s) (SkillsSet sks q') (s_db s')" by simp
      moreover have "asks parse (PutSkills i bound) (SkillsSet sks q')" using p(6,7) Inr u by simp
      moreover have "q \<in> {Inr (jobs_answer c (SkillsSet sks q')), Inl (StoreError ErrConn)}" using 2(4) by simp
      ultimately show ?thesis unfolding ends_def by blast
    qed
  qed
qed

text \<open>The reads change nothing.\<close>

lemma auto_read:
  assumes "\<And>now u d x d'. f now u d = Inr (x, d') \<Longrightarrow> d' = d" "auto_stmt f s = (q, s')"
  shows "s_db s' = s_db s"
  using assms(2) by (cases rule: auto_stmt_eqE) (auto dest: assms(1))

lemma job_reads:
  "job_handle_GetByID c parse i s = (q, s') \<Longrightarrow> s_db s' = s_db s"
  "job_handle_List c l off st s = (q, s') \<Longrightarrow> s_db s' = s_db s"
  "profile_handle_GetByID c parse collation i s = (q, s') \<Longrightarrow> s_db s' = s_db s"
proof -
  have read: "(\<And>now u d x d'. f now u d = Inr (x, d') \<Longrightarrow> d' = d) \<Longrightarrow> store_err (auto_stmt f) s = (q, s') \<Longrightarrow>
      s_db s' = s_db s" for f :: "'a jsql" and s q s'
    using auto_read [of f s _ s'] by (cases q) (auto elim!: map_err_InlE map_err_InrE)
  show "s_db s' = s_db s" if "job_handle_GetByID c parse i s = (q, s')"
    using that by (auto simp: job_handle_GetByID_def bnd_run job_GetByID_def split: option.splits
        elim!: bnd_eqE dest!: read [rotated])
  show "s_db s' = s_db s" if "job_handle_List c l off st s = (q, s')"
    using that by (auto simp: job_handle_List_def bnd_run job_List_def job_Count_def Let_def split: if_splits
        elim!: bnd_eqE dest!: read [rotated])
  show "s_db s' = s_db s" if "profile_handle_GetByID c parse collation i s = (q, s')"
    using that by (auto simp: profile_handle_GetByID_def profile_GetByID_def bnd_run map_err_bnd [symmetric]
        profile_select_def skills_select_def map_err_ret split: option.splits elim!: bnd_eqE dest!: read [rotated])
qed

end
