(* ===== verification/JobsService.thy ===== *)
theory JobsService
  imports JobsSpec
begin

text \<open>
  jobs-api as a whole: what a request ends in, the states requests and the publisher can lead to,
  and the invariant they keep, in which the outbox can rebuild the tables.
\<close>

section \<open>A request\<close>

lemma requestLogger_eqE:
  assumes "requestLogger m s = (r, s')"
  obtains (failed) err where "m s = (Inl err, s')" "customErrorHandler False err = Some r"
  | (fine) "m s = (Inr r, s')"
  using assms by (cases "m s") (auto simp: requestLogger_def customErrorHandler_def split: sum.splits)

theorem jobs_serve_cases:
  assumes "jobs_serve c parse collation call s = (r, s')"
  obtains (unchanged) "s_db s' = s_db s" "is_jobs_read call \<or> code r \<in> {400, 404, 500} \<or> unbound call r"
  | (step) ev where "jobs_step c collation (s_db s) ev (s_db s')" "asks parse call ev"
      "r \<in> {jobs_answer c ev, internal_error}"
proof -
  have thesis if ends: "ends c parse collation call (s_db s) q (s_db s')"
    and q: "q = Inr r \<or> (\<exists>err. q = Inl err \<and> customErrorHandler False err = Some r)" for q
    using ends q unfolding ends_def
    by (elim disjE exE conjE) (auto simp: customErrorHandler_def intro: unchanged step)
  note done_ends = this
  have read: thesis if "is_jobs_read call" "s_db s' = s_db s" using that by (intro unchanged) auto
  show thesis
  proof (cases call)
    case (PostJob bound)
    with assms obtain q where "job_handle_Create c bound s = (q, s')"
      "q = Inr r \<or> (\<exists>err. q = Inl err \<and> customErrorHandler False err = Some r)"
      by (auto simp: jobs_serve_def elim: requestLogger_eqE)
    with job_handle_Create_ends [of c bound s q s' parse collation] PostJob show thesis by (intro done_ends) auto
  next
    case (PutJob i bound)
    with assms obtain q where "job_handle_Update c parse i bound s = (q, s')"
      "q = Inr r \<or> (\<exists>err. q = Inl err \<and> customErrorHandler False err = Some r)"
      by (auto simp: jobs_serve_def elim: requestLogger_eqE)
    with job_handle_Update_ends [of c parse i bound s q s' collation] PutJob show thesis by (intro done_ends) auto
  next
    case (PostProfile bound)
    with assms obtain q where "profile_handle_Create c bound s = (q, s')"
      "q = Inr r \<or> (\<exists>err. q = Inl err \<and> customErrorHandler False err = Some r)"
      by (auto simp: jobs_serve_def elim: requestLogger_eqE)
    with profile_handle_Create_ends [of c bound s q s' parse collation] PostProfile show thesis by (intro done_ends) auto
  next
    case (PutSkills i bound)
    with assms obtain q where "profile_handle_UpdateSkills c parse collation i bound s = (q, s')"
      "q = Inr r \<or> (\<exists>err. q = Inl err \<and> customErrorHandler False err = Some r)"
      by (auto simp: jobs_serve_def elim: requestLogger_eqE)
    with profile_handle_UpdateSkills_ends [of c parse collation i bound s q s'] PutSkills show thesis
      by (intro done_ends) auto
  qed (use assms in \<open>auto intro!: read simp: jobs_serve_def is_jobs_read_def elim!: requestLogger_eqE dest: job_reads\<close>)
qed

section \<open>The invariant\<close>

text \<open>The last entry about an aggregate.\<close>

definition latest :: "string \<Rightarrow> uuid \<Rightarrow> uuid entry list \<Rightarrow> json option" where
  "latest ty i es = map_option e_payload (find (\<lambda>e. e_aggregate_type e = ty \<and> e_aggregate_id e = i) (rev es))"

lemma latest_snoc [simp]:
  "latest ty i (es @ [e]) =
    (if e_aggregate_type e = ty \<and> e_aggregate_id e = i then Some (e_payload e) else latest ty i es)"
  by (simp add: latest_def)

lemma find_map: "find P (map f xs) = map_option f (find (P \<circ> f) xs)"
  by (induction xs) auto

lemma latest_unstamped: "latest ty i (unstamped es) = latest ty i es"
  by (simp add: latest_def unstamped_def rev_map find_map o_def option.map_comp)

definition jobs_keys :: "jdb \<Rightarrow> bool" where
  "jobs_keys d \<longleftrightarrow> distinct (map j_id (jobs d)) \<and> distinct (map p_id (profiles d)) \<and>
     distinct (map sk_id (skills d)) \<and> distinct (map e_id (job_events d)) \<and> distinct (profile_skills d) \<and>
     list_all (\<lambda>(i, k). i \<in> p_id ` set (profiles d) \<and> k \<in> sk_id ` set (skills d)) (profile_skills d)"

definition jobs_rows :: "jdb \<Rightarrow> bool" where
  "jobs_rows d \<longleftrightarrow> list_all (\<lambda>j. j_status j \<in> set validJobStatuses \<and> j_client_id j \<noteq> uuid_Nil \<and>
       int4 (j_budget_min j) \<and> int4 (j_budget_max j)) (jobs d) \<and>
     list_all (\<lambda>p. p_full_name p \<noteq> '''' \<and> int4 (p_hourly_rate p)) (profiles d)"

text \<open>Where the entries come from: one creation per row, and the last one shows it.\<close>

definition entry_ok :: "jdb \<Rightarrow> uuid entry \<Rightarrow> bool" where
  "entry_ok d e \<longleftrightarrow>
     e_aggregate_type e = ''job'' \<and> e_event_type e \<in> {EventJobCreated, EventJobUpdated} \<and>
       e_aggregate_id e \<in> j_id ` set (jobs d) \<or>
     e_aggregate_type e = ''profile'' \<and> e_event_type e \<in> {EventProfileCreated, EventProfileUpdated} \<and>
       e_aggregate_id e \<in> p_id ` set (profiles d)"

definition job_told :: "codec \<Rightarrow> uuid entry list \<Rightarrow> Job \<Rightarrow> bool" where
  "job_told c es j \<longleftrightarrow> latest ''job'' (j_id j) es = Some (job_json c j) \<and> events EventJobCreated (j_id j) es = 1"

definition profile_told :: "codec \<Rightarrow> (string \<Rightarrow> nat list) \<Rightarrow> jdb \<Rightarrow> profile_row \<Rightarrow> bool" where
  "profile_told c collation d p \<longleftrightarrow>
     latest ''profile'' (p_id p) (job_events d) =
       Some (profile_json c (with_skills p (skills_of collation (p_id p) d))) \<and>
     events EventProfileCreated (p_id p) (job_events d) = 1"

definition jobs_inv :: "codec \<Rightarrow> (string \<Rightarrow> nat list) \<Rightarrow> jdb \<Rightarrow> bool" where
  "jobs_inv c collation d \<longleftrightarrow> jobs_keys d \<and> jobs_rows d \<and> list_all (entry_ok d) (job_events d) \<and>
     list_all (job_told c (job_events d)) (jobs d) \<and> list_all (profile_told c collation d) (profiles d)"

lemma job_event_names:
  "EventJobCreated \<noteq> EventJobUpdated" "EventJobCreated \<noteq> EventProfileCreated" "EventJobCreated \<noteq> EventProfileUpdated"
  "EventProfileCreated \<noteq> EventJobUpdated" "EventProfileCreated \<noteq> EventProfileUpdated"
  by (simp_all add: EventJobCreated_def EventJobUpdated_def EventProfileCreated_def EventProfileUpdated_def)

lemmas job_names = job_event_names job_event_names [symmetric]

lemma jobs_step_keys:
  assumes "jobs_step c collation d ev d'" "jobs_keys d"
  shows "jobs_keys d'"
  using assms(1)
proof cases
  case (job_created j e)
  with assms(2) show ?thesis by (auto simp: jobs_keys_def emitted_def)
next
  case (job_updated j req now e)
  with assms(2) show ?thesis by (auto simp: jobs_keys_def emitted_def map_upd)
next
  case (profile_created p e)
  with assms(2) show ?thesis by (auto simp: jobs_keys_def emitted_def list_all_iff)
next
  case (skills_set p sks d1 now q e)
  have ids: "map p_id (upd p_id i (\<lambda>p. p\<lparr>p_updated_at := now\<rparr>) ps) = map p_id ps" for i ps
    by (rule map_upd) simp
  then have set_ids: "p_id ` set (upd p_id i (\<lambda>p. p\<lparr>p_updated_at := now\<rparr>) ps) = p_id ` set ps" for i ps
    by (metis list.set_map)
  have "p_id p \<in> p_id ` set (profiles d)" using sel_SomeD [OF skills_set(3)] by blast
  with skills_set assms(2) show ?thesis
    by (auto simp: jobs_keys_def emitted_def ids set_ids list_all_iff distinct_map inj_on_def)
qed

lemma jobs_step_rows:
  assumes "jobs_step c collation d ev d'" "jobs_rows d"
  shows "jobs_rows d'"
  using assms(1)
proof cases
  case (job_created j e)
  with assms(2) show ?thesis by (auto simp: jobs_rows_def validJobStatuses_def)
next
  case (job_updated j req now e)
  with assms(2) show ?thesis
    by (auto simp: jobs_rows_def list_all_iff set_upd job_merge_def COALESCE_def split: option.splits)
next
  case (profile_created p e)
  with assms(2) show ?thesis by (auto simp: jobs_rows_def)
next
  case (skills_set p sks d1 now q e)
  with assms(2) show ?thesis by (auto simp: jobs_rows_def list_all_iff set_upd)
qed

lemma entry_ok_mono:
  "entry_ok d e \<Longrightarrow> j_id ` set (jobs d) \<subseteq> j_id ` set (jobs d') \<Longrightarrow> p_id ` set (profiles d) \<subseteq> p_id ` set (profiles d') \<Longrightarrow>
   entry_ok d' e"
  by (auto simp: entry_ok_def)

lemma upd_ids:
  "j_id ` set (upd j_id i (job_merge req now) js) = j_id ` set js"
  "p_id ` set (upd p_id i (\<lambda>p. p\<lparr>p_updated_at := now\<rparr>) ps) = p_id ` set ps"
  by (metis (no_types, lifting) job_merge_id list.set_map map_upd,
      metis (no_types, lifting) list.set_map map_upd profile_row.select_convs(1) profile_row.surjective profile_row.update_convs(7))

lemma jobs_step_entries:
  assumes "jobs_step c collation d ev d'" "list_all (entry_ok d) (job_events d)"
  shows "list_all (entry_ok d') (job_events d')"
  using assms(1)
proof cases
  case (job_created j e)
  with assms(2) show ?thesis
    by (auto simp: list_all_iff emitted_def entry_ok_def intro: entry_ok_mono)
next
  case (job_updated j req now e)
  have "j_id j \<in> j_id ` set (jobs d)" using sel_SomeD [OF job_updated(3)] by blast
  with job_updated assms(2) show ?thesis
    by (auto simp: list_all_iff emitted_def entry_ok_def upd_ids)
next
  case (profile_created p e)
  with assms(2) show ?thesis
    by (auto simp: list_all_iff emitted_def entry_ok_def)
next
  case (skills_set p sks d1 now q e)
  have "p_id p \<in> p_id ` set (profiles d)" using sel_SomeD [OF skills_set(3)] by blast
  with skills_set assms(2) show ?thesis
    by (auto simp: list_all_iff emitted_def entry_ok_def upd_ids)
qed

text \<open>An entry about something else changes nothing that is told.\<close>

lemma job_told_other:
  assumes "e_aggregate_type e \<noteq> ''job'' \<or> e_aggregate_id e \<noteq> j_id j"
    and "e_event_type e = EventJobCreated \<longrightarrow> e_aggregate_id e \<noteq> j_id j"
  shows "job_told c (es @ [e]) j = job_told c es j"
  using assms by (auto simp: job_told_def)

lemma no_creation:
  assumes "list_all (entry_ok d) es"
  shows "i \<notin> j_id ` set (jobs d) \<Longrightarrow> events EventJobCreated i es = 0"
    and "i \<notin> p_id ` set (profiles d) \<Longrightarrow> events EventProfileCreated i es = 0"
  using assms by (auto simp: events_def filter_empty_conv list_all_iff entry_ok_def job_names)

lemma rows_upd:
  "list_all P (upd key i f xs) = list_all (\<lambda>x. P (if key x = i then f x else x)) xs"
  by (simp only: upd_def list.pred_map o_def)

lemma jobs_step_job_told:
  assumes "jobs_step c collation d ev d'" "jobs_keys d" "list_all (entry_ok d) (job_events d)"
    and told: "list_all (job_told c (job_events d)) (jobs d)"
  shows "list_all (job_told c (job_events d')) (jobs d')"
  using assms(1)
proof cases
  case (job_created j e)
  have new: "job_told c (job_events d @ [e]) j"
    using job_created no_creation(1) [OF assms(3)] by (simp add: job_told_def emitted_def)
  have "job_told c (job_events d @ [e]) x" if "x \<in> set (jobs d)" for x
  proof -
    from job_created(3) that have "j_id x \<noteq> j_id j" by (metis image_eqI)
    with job_created told that show ?thesis by (subst job_told_other) (auto simp: emitted_def list_all_iff)
  qed
  with new job_created show ?thesis by (simp add: list_all_iff)
next
  case (job_updated j req now e)
  have j: "j \<in> set (jobs d)" using sel_SomeD [OF job_updated(3)] by blast
  have same: "x = j" if "x \<in> set (jobs d)" "j_id x = j_id j" for x
    using that j assms(2) by (metis jobs_keys_def distinct_map inj_onD)
  have "job_told c (job_events d @ [e]) (if j_id x = j_id j then job_merge req now x else x)"
    if x: "x \<in> set (jobs d)" for x
  proof (cases "j_id x = j_id j")
    case True
    with same x have "x = j" by blast
    with job_updated told j show ?thesis
      by (auto simp: job_told_def emitted_def list_all_iff job_names)
  next
    case False
    with job_updated told x show ?thesis by (simp add: job_told_other emitted_def list_all_iff)
  qed
  then have "list_all (\<lambda>x. job_told c (job_events d @ [e]) (if j_id x = j_id j then job_merge req now x else x)) (jobs d)"
    unfolding list_all_iff by blast
  with job_updated(2) show ?thesis by (simp add: rows_upd)
next
  case (profile_created p e)
  with told show ?thesis by (auto simp: list_all_iff job_told_other emitted_def job_names)
next
  case (skills_set p sks d1 now q e)
  with told show ?thesis by (auto simp: list_all_iff job_told_other emitted_def job_names)
qed

lemma skills_of_other:
  "i \<noteq> j \<Longrightarrow> skills_of collation j (d\<lparr>profile_skills := filter (\<lambda>(q, k). q \<noteq> i) (profile_skills d) @ map (Pair i) sks\<rparr>) =
     skills_of collation j d"
  by (auto simp: skills_of_def intro!: arg_cong [where f = "sort_key _"] filter_cong)

lemma skills_of_fields [simp]:
  "skills_of collation i (d\<lparr>job_events := es\<rparr>) = skills_of collation i d"
  "skills_of collation i (d\<lparr>jobs := js\<rparr>) = skills_of collation i d"
  "skills_of collation i (d\<lparr>profiles := ps\<rparr>) = skills_of collation i d"
  by (simp_all add: skills_of_def)

lemma jobs_step_profile_told:
  assumes "jobs_step c collation d ev d'" "jobs_keys d" "list_all (entry_ok d) (job_events d)"
    and told: "list_all (profile_told c collation d) (profiles d)"
  shows "list_all (profile_told c collation d') (profiles d')"
  using assms(1)
proof cases
  case (job_created j e)
  with told show ?thesis by (auto simp: list_all_iff profile_told_def emitted_def job_names)
next
  case (job_updated j req now e)
  with told show ?thesis by (auto simp: list_all_iff profile_told_def emitted_def job_names)
next
  case (profile_created p e)
  have "filter (\<lambda>s. (p_id p, sk_id s) \<in> set (profile_skills d)) (skills d) = []"
    using profile_created(3) assms(2) by (auto simp: filter_empty_conv jobs_keys_def list_all_iff)
  then have "skills_of collation (p_id p) d = []" by (simp add: skills_of_def)
  then have new: "profile_told c collation d' p"
    using profile_created no_creation(2) [OF assms(3)] by (simp add: profile_told_def emitted_def)
  have "profile_told c collation d' x" if "x \<in> set (profiles d)" for x
  proof -
    from profile_created(3) that have "p_id x \<noteq> p_id p" by (metis image_eqI)
    with profile_created told that show ?thesis by (auto simp: emitted_def list_all_iff profile_told_def)
  qed
  with new profile_created show ?thesis by (simp add: list_all_iff)
next
  case (skills_set p sks d1 now q e)
  have p: "p \<in> set (profiles d)" using sel_SomeD [OF skills_set(3)] by blast
  have same: "x = p" if "x \<in> set (profiles d)" "p_id x = p_id p" for x
    using that p assms(2) by (metis jobs_keys_def distinct_map inj_onD)
  have "profile_told c collation d' (if p_id x = p_id p then x\<lparr>p_updated_at := now\<rparr> else x)"
    if x: "x \<in> set (profiles d)" for x
  proof (cases "p_id x = p_id p")
    case True
    with same x have "x = p" by blast
    with skills_set told p show ?thesis
      by (auto simp: profile_told_def emitted_def list_all_iff job_names)
  next
    case False
    with skills_set told x show ?thesis
      by (simp add: profile_told_def emitted_def list_all_iff skills_of_other)
  qed
  then have "list_all (\<lambda>x. profile_told c collation d' (if p_id x = p_id p then x\<lparr>p_updated_at := now\<rparr> else x)) (profiles d)"
    unfolding list_all_iff by blast
  with skills_set(2,6) show ?thesis by (simp add: rows_upd)
qed

lemma jobs_step_inv:
  assumes "jobs_step c collation d ev d'" "jobs_inv c collation d"
  shows "jobs_inv c collation d'"
  using jobs_step_keys [OF assms(1)] jobs_step_rows [OF assms(1)] jobs_step_entries [OF assms(1)]
    jobs_step_job_told [OF assms(1)] jobs_step_profile_told [OF assms(1)] assms(2)
  by (simp add: jobs_inv_def)

section \<open>The states jobs-api reaches\<close>

text \<open>The skills are written by nobody here; whatever they are to begin with, their ids differ.\<close>

definition empty_jdb :: "Skill list \<Rightarrow> jdb" where
  "empty_jdb ss = \<lparr>jobs = [], profiles = [], skills = ss, profile_skills = [], job_events = []\<rparr>"

inductive jobs_reach ::
  "codec \<Rightarrow> (string \<Rightarrow> uuid option) \<Rightarrow> (string \<Rightarrow> nat list) \<Rightarrow> 'n publish \<Rightarrow> jdb \<Rightarrow> bool"
  for c parse collation pub where
  jobs_begun: "distinct (map sk_id ss) \<Longrightarrow> jobs_reach c parse collation pub (empty_jdb ss)"
| jobs_served:
    "\<lbrakk>jobs_reach c parse collation pub (s_db s); jobs_serve c parse collation call s = (r, s')\<rbrakk>
     \<Longrightarrow> jobs_reach c parse collation pub (s_db s')"
| jobs_published:
    "\<lbrakk>jobs_reach c parse collation pub (s_db s); PublishBatch jobs_outbox pub batch_size locked s = (q, s')\<rbrakk>
     \<Longrightarrow> jobs_reach c parse collation pub (s_db s')"

lemma jobs_inv_published:
  assumes "jobs_inv c collation d" "d'\<lparr>job_events := []\<rparr> = d\<lparr>job_events := []\<rparr>"
    and same: "unstamped (job_events d') = unstamped (job_events d)"
  shows "jobs_inv c collation d'"
proof -
  have rows: "jobs d' = jobs d" "profiles d' = profiles d" "skills d' = skills d" "profile_skills d' = profile_skills d"
    using assms(2) by (cases d; cases d'; simp)+
  have ids: "map e_id (job_events d') = map e_id (job_events d)"
    using same by (metis map_unstamped)
  have ev: "events t i (job_events d') = events t i (job_events d)"
    "latest ty i (job_events d') = latest ty i (job_events d)" for t ty i
    using same by (metis events_unstamped, metis latest_unstamped)
  have ok: "list_all (entry_ok d) (unstamped es) = list_all (entry_ok d) es" for es
    by (simp add: unstamped_def list_all_iff entry_ok_def)
  then have "list_all (entry_ok d) (job_events d') = list_all (entry_ok d) (job_events d)"
    using same by metis
  moreover have "entry_ok d' = entry_ok d" "job_told c (job_events d') = job_told c (job_events d)"
    by (simp_all add: fun_eq_iff entry_ok_def job_told_def rows ev)
  moreover have "profile_told c collation d' = profile_told c collation d"
    by (simp add: fun_eq_iff profile_told_def skills_of_def rows ev)
  ultimately show ?thesis
    using assms(1) by (simp add: jobs_inv_def jobs_keys_def jobs_rows_def rows ids)
qed

lemma jobs_reach_inv: "jobs_reach c parse collation pub d \<Longrightarrow> jobs_inv c collation d"
proof (induction rule: jobs_reach.induct)
  case (jobs_begun ss)
  then show ?case by (simp add: jobs_inv_def empty_jdb_def jobs_keys_def jobs_rows_def)
next
  case (jobs_served s call r s')
  from jobs_served(2) show ?case
    by (cases rule: jobs_serve_cases) (use jobs_served(3) in \<open>auto intro: jobs_step_inv\<close>)
next
  case (jobs_published s locked q s')
  from jobs_events.PublishBatch_rest [OF jobs_published(2)] jobs_published(3) show ?case
    by (auto simp: batch_size_def intro: jobs_inv_published)
qed

end
