(* ===== verification/JobsProps.thy ===== *)
theory JobsProps
  imports JobsService
begin

text \<open>The properties of jobs-api, each with a concrete run that its hypotheses fit.\<close>

section \<open>Data for the concrete runs\<close>

definition hire_codec :: codec where
  "hire_codec = \<lparr>uuid_String = (\<lambda>u. ''u''), time_String = (\<lambda>t. ''t'')\<rparr>"

definition one_id :: "string \<Rightarrow> uuid option" where
  "one_id v = (if v = ''10'' then Some 16 else if v = ''13'' then Some 19 else None)"

definition plain :: "string \<Rightarrow> nat list" where
  "plain = map (\<lambda>ch. of_char ch)"

definition log_pub :: "(string \<times> json) list publish" where
  "log_pub subject data n = (Inr (), n @ [(subject, data)])"

definition counting :: "nat \<Rightarrow> uuid" where
  "counting n = word_of_int (int n + 16)"

definition jobs_session :: "nat \<Rightarrow> fault list \<Rightarrow> jdb \<Rightarrow> (jdb, uuid) sess" where
  "jobs_session used faults d = \<lparr>s_db = d, s_tx = d, s_faults = faults, s_now = 7 + int used, s_gen = counting, s_used = used\<rparr>"

definition jobs_run :: "jobs_call \<Rightarrow> fault list \<Rightarrow> nat \<Rightarrow> jdb \<Rightarrow> response \<times> (jdb, uuid) sess" where
  "jobs_run call faults used d = jobs_serve hire_codec one_id plain call (jobs_session used faults d)"

definition two_skills :: "Skill list" where
  "two_skills = [\<lparr>sk_id = 1, sk_name = ''sql'', sk_category = '''', sk_created_at = 0\<rparr>,
     \<lparr>sk_id = 2, sk_name = ''go'', sk_category = '''', sk_created_at = 0\<rparr>]"

definition new_job :: CreateJobRequest where
  "new_job = \<lparr>cj_title = ''api'', cj_description = ''x'', cj_budget_min = 10, cj_budget_max = 20, cj_client_id = 5\<rparr>"

definition open_it :: UpdateJobRequest where
  "open_it = \<lparr>uj_title = None, uj_description = None, uj_budget_min = None, uj_budget_max = Some 30,
     uj_status = Some ''open''\<rparr>"

definition new_profile :: CreateProfileRequest where
  "new_profile = \<lparr>cp_full_name = ''Bob'', cp_bio = '''', cp_hourly_rate = 50\<rparr>"

text \<open>A job (id 16), a profile (id 19), the job opened, the profile's skills set.\<close>

definition jobs_one :: jdb where
  "jobs_one = s_db (snd (jobs_run (PostJob (Inr new_job)) [] 0 (empty_jdb two_skills)))"

definition jobs_two :: jdb where
  "jobs_two = s_db (snd (jobs_run (PostProfile (Inr new_profile)) [] 3 jobs_one))"

definition jobs_three :: jdb where
  "jobs_three = s_db (snd (jobs_run (PutJob ''10'' (Inr open_it)) [] 10 jobs_two))"

definition jobs_four :: jdb where
  "jobs_four = s_db (snd (jobs_run (PutSkills ''13'' (Inr [1, 2])) [] 20 jobs_three))"

text \<open>These databases, evaluated.\<close>

definition job_row :: "int64 \<Rightarrow> string \<Rightarrow> int \<Rightarrow> Job" where
  "job_row budget st now = \<lparr>j_id = 16, j_title = ''api'', j_description = ''x'', j_budget_min = 10,
     j_budget_max = budget, j_status = st, j_client_id = 5, j_created_at = 7, j_updated_at = now\<rparr>"

definition bob :: "int \<Rightarrow> profile_row" where
  "bob now = \<lparr>p_id = 19, p_full_name = ''Bob'', p_bio = '''', p_hourly_rate = 50, p_available = True,
     p_created_at = 10, p_updated_at = now\<rparr>"

definition told_entry :: "uuid \<Rightarrow> string \<Rightarrow> uuid \<Rightarrow> string \<Rightarrow> json \<Rightarrow> int \<Rightarrow> uuid entry" where
  "told_entry i ty agg event payload now = \<lparr>e_id = i, e_aggregate_type = ty, e_aggregate_id = agg,
     e_event_type = event, e_payload = payload, e_created_at = now, e_published_at = None\<rparr>"

lemma jobs_one_code [code]:
  "jobs_one = \<lparr>jobs = [job_row 20 ''draft'' 7], profiles = [], skills = two_skills, profile_skills = [],
     job_events = [told_entry 17 ''job'' 16 EventJobCreated (job_json hire_codec (job_row 20 ''draft'' 7)) 7]\<rparr>"
  by code_simp

lemma jobs_two_code [code]:
  "jobs_two = \<lparr>jobs = [job_row 20 ''draft'' 7], profiles = [bob 10], skills = two_skills, profile_skills = [],
     job_events = [told_entry 17 ''job'' 16 EventJobCreated (job_json hire_codec (job_row 20 ''draft'' 7)) 7,
       told_entry 20 ''profile'' 19 EventProfileCreated (profile_json hire_codec (with_skills (bob 10) [])) 10]\<rparr>"
  by code_simp

lemma jobs_three_code [code]:
  "jobs_three = \<lparr>jobs = [job_row 30 ''open'' 17], profiles = [bob 10], skills = two_skills, profile_skills = [],
     job_events = [told_entry 17 ''job'' 16 EventJobCreated (job_json hire_codec (job_row 20 ''draft'' 7)) 7,
       told_entry 20 ''profile'' 19 EventProfileCreated (profile_json hire_codec (with_skills (bob 10) [])) 10,
       told_entry 27 ''job'' 16 EventJobUpdated (job_json hire_codec (job_row 30 ''open'' 17)) 17]\<rparr>"
  by code_simp

lemma jobs_four_code [code]:
  "jobs_four = \<lparr>jobs = [job_row 30 ''open'' 17], profiles = [bob 27], skills = two_skills,
     profile_skills = [(19, 1), (19, 2)],
     job_events = [told_entry 17 ''job'' 16 EventJobCreated (job_json hire_codec (job_row 20 ''draft'' 7)) 7,
       told_entry 20 ''profile'' 19 EventProfileCreated (profile_json hire_codec (with_skills (bob 10) [])) 10,
       told_entry 27 ''job'' 16 EventJobUpdated (job_json hire_codec (job_row 30 ''open'' 17)) 17,
       told_entry 44 ''profile'' 19 EventProfileUpdated
         (profile_json hire_codec (with_skills (bob 27) (rev two_skills))) 27]\<rparr>"
  by code_simp

lemma jobs_reached:
  "jobs_reach hire_codec one_id plain log_pub jobs_three" "jobs_reach hire_codec one_id plain log_pub jobs_four"
proof -
  have served: "jobs_reach hire_codec one_id plain log_pub d \<Longrightarrow>
      jobs_reach hire_codec one_id plain log_pub (s_db (snd (jobs_run call faults used d)))" for d call faults used
    using jobs_reach.jobs_served [OF _ surjective_pairing, where s = "jobs_session used faults d"]
    by (simp add: jobs_run_def jobs_session_def)
  have "distinct (map sk_id two_skills)" by code_simp
  from served [OF served [OF served [OF jobs_reach.jobs_begun [OF this]]]]
  show three: "jobs_reach hire_codec one_id plain log_pub jobs_three"
    by (simp only: jobs_three_def jobs_two_def jobs_one_def)
  from served [OF three] show "jobs_reach hire_codec one_id plain log_pub jobs_four"
    by (simp only: jobs_four_def)
qed

section \<open>The properties\<close>

text \<open>C30: Every change of jobs-api is told, whatever calls to the database fail: a request leaves the
  database as it was and says so (a read, or a reply 400, 404, 500, or that of a body that did not
  bind), or it makes one step, the change of the row together with exactly one outbox entry with
  the new state, and answers with that state, or with 500 when the reply to the commit was lost.\<close>

theorem jobs_refine:
  assumes "jobs_serve c parse collation call s = (r, s')"
  shows "s_db s' = s_db s \<and> (is_jobs_read call \<or> code r \<in> {400, 404, 500} \<or> unbound call r) \<or>
    (\<exists>ev. jobs_step c collation (s_db s) ev (s_db s') \<and> asks parse call ev \<and>
       r \<in> {jobs_answer c ev, internal_error})"
  using assms by (cases rule: jobs_serve_cases) blast+

theorem jobs_refine_witness:
  "\<exists>ev. jobs_step hire_codec plain jobs_two ev jobs_three"
proof -
  let ?p = "jobs_run (PutJob ''10'' (Inr open_it)) [] 10 jobs_two"
  have "code (fst ?p) = 200" by code_simp
  moreover have "jobs_serve hire_codec one_id plain (PutJob ''10'' (Inr open_it)) (jobs_session 10 [] jobs_two) = (fst ?p, snd ?p)"
    by (simp add: jobs_run_def)
  note jobs_refine [OF this]
  ultimately show ?thesis
    by (auto simp: jobs_three_def is_jobs_read_def unbound_def jobs_session_def)
qed

text \<open>C29: The outbox of jobs-api carries the tables: in every reachable database the last entry about
  a job or a profile shows its current row (a profile with its current skills), and each of them
  was announced as created exactly once. Whoever applies the events in order ends with the tables.\<close>

theorem jobs_told:
  assumes "jobs_reach c parse collation pub d"
  shows "list_all (\<lambda>j. latest ''job'' (j_id j) (job_events d) = Some (job_json c j) \<and>
      events EventJobCreated (j_id j) (job_events d) = 1) (jobs d) \<and>
    list_all (\<lambda>p. latest ''profile'' (p_id p) (job_events d) =
        Some (profile_json c (with_skills p (skills_of collation (p_id p) d))) \<and>
      events EventProfileCreated (p_id p) (job_events d) = 1) (profiles d)"
  using jobs_reach_inv [OF assms] unfolding jobs_inv_def job_told_def [abs_def] profile_told_def [abs_def] by simp

theorem jobs_told_witness:
  "latest ''profile'' 19 (job_events jobs_four) = Some (profile_json hire_codec (with_skills (bob 27) (skills_of plain 19 jobs_four)))
   \<and> map sk_name (skills_of plain 19 jobs_four) = [''go'', ''sql'']"
proof -
  have "profiles jobs_four = [bob 27]" "p_id (bob 27) = 19" "map sk_name (skills_of plain 19 jobs_four) = [''go'', ''sql'']"
    by code_simp+
  with jobs_told [OF jobs_reached(2)] show ?thesis by simp
qed

text \<open>C31: An update of a job with a healthy database merges: fields the body leaves out keep their
  value, the others get theirs. It is refused with 400 for an unknown status, with 500 for a value
  its column cannot hold, and with 404 for an unknown job, and then changes nothing.\<close>

theorem job_put_answered:
  assumes "s_faults s = []" "parse i = Some u" "s_gen s (Suc (s_used s)) \<notin> e_id ` set (job_events (s_db s))"
    and "jobs_serve c parse collation (PutJob i (Inr req)) s = (r, s')"
  shows "r = (if \<not> given (\<lambda>st. st \<in> set validJobStatuses) (uj_status req) then error_resp 400 ''invalid status''
      else if \<not> (given text_ok (uj_title req) \<and> given text_ok (uj_description req) \<and>
        given int4 (uj_budget_min req) \<and> given int4 (uj_budget_max req)) then internal_error
      else case sel j_id u (jobs (s_db s)) of None \<Rightarrow> error_resp 404 ''not found''
        | Some j \<Rightarrow> Resp 200 (job_json c (job_merge req (s_now s) j))) \<and>
    jobs (s_db s') = (if code r = 200 then upd j_id u (job_merge req (s_now s)) (jobs (s_db s)) else jobs (s_db s))"
proof -
  have valid: "given (\<lambda>st. st \<in> set validJobStatuses) x \<Longrightarrow> given text_ok x" for x
    by (cases x) (auto simp: validJobStatuses_def text_ok_def)
  have req: "(case uj_status req of None \<Rightarrow> True | Some st \<Rightarrow> st \<in> set validJobStatuses)
      \<longleftrightarrow> given (\<lambda>st. st \<in> set validJobStatuses) (uj_status req)"
    by (simp add: given_def)
  let ?ok = "given text_ok (uj_title req) \<and> given text_ok (uj_description req) \<and>
    given int4 (uj_budget_min req) \<and> given int4 (uj_budget_max req)"
  have upd: "job_Update u req (s_now s) (next_id s) (s_db s) = (if \<not> ?ok then Inl ErrArgument
      else case sel j_id u (jobs (s_db s)) of None \<Rightarrow> Inl ErrNoRows
        | Some j \<Rightarrow> Inr (job_merge req (s_now s) j, (s_db s)\<lparr>jobs := upd j_id u (job_merge req (s_now s)) (jobs (s_db s))\<rparr>))"
    if "given (\<lambda>st. st \<in> set validJobStatuses) (uj_status req)"
    using valid [OF that] by (simp add: job_Update_def)
  consider "\<not> given (\<lambda>st. st \<in> set validJobStatuses) (uj_status req)"
    | "given (\<lambda>st. st \<in> set validJobStatuses) (uj_status req)" "\<not> ?ok"
    | "given (\<lambda>st. st \<in> set validJobStatuses) (uj_status req)" "?ok" "sel j_id u (jobs (s_db s)) = None"
    | j where "given (\<lambda>st. st \<in> set validJobStatuses) (uj_status req)" "?ok" "sel j_id u (jobs (s_db s)) = Some j"
    by (cases "sel j_id u (jobs (s_db s))") blast+
  then show ?thesis
  proof cases
    case 1
    with assms(2,4) show ?thesis
      by (auto simp: jobs_serve_def requestLogger_def job_handle_Update_def bnd_run req customErrorHandler_def)
  next
    case 2
    with assms(1,2,4) upd [OF 2(1)] show ?thesis
      by (auto simp: jobs_serve_def requestLogger_def job_handle_Update_def bnd_run req customErrorHandler_def
          fine_runs bnd_def map_err_def)
  next
    case 3
    with assms(1,2,4) upd [OF 3(1)] show ?thesis
      by (auto simp: jobs_serve_def requestLogger_def job_handle_Update_def bnd_run req customErrorHandler_def
          fine_runs bnd_def map_err_def)
  next
    case (4 j)
    with assms(1-4) upd [OF 4(1)] show ?thesis
      by (auto simp: jobs_serve_def requestLogger_def job_handle_Update_def bnd_run req
          fine_runs bnd_def map_err_def jobs_outbox_def PostgresStore_def pg_Insert_def ret_def)
  qed
qed

theorem job_put_answered_witness:
  "fst (jobs_run (PutJob ''10'' (Inr open_it)) [] 10 jobs_two) = Resp 200 (job_json hire_codec (job_row 30 ''open'' 17))"
proof -
  let ?s = "jobs_session 10 [] jobs_two"
  have s: "s_faults ?s = []" "one_id ''10'' = Some 16" "s_gen ?s (Suc (s_used ?s)) \<notin> e_id ` set (job_events (s_db ?s))"
    by code_simp+
  have "given (\<lambda>st. st \<in> set validJobStatuses) (uj_status open_it)"
    "given text_ok (uj_title open_it)" "given text_ok (uj_description open_it)"
    "given int4 (uj_budget_min open_it)" "given int4 (uj_budget_max open_it)"
    "sel j_id 16 (jobs (s_db ?s)) = Some (job_row 20 ''draft'' 7)"
    "job_merge open_it (s_now ?s) (job_row 20 ''draft'' 7) = job_row 30 ''open'' 17"
    by code_simp+
  with job_put_answered [of ?s one_id "''10''" 16 hire_codec plain open_it, OF s surjective_pairing] show ?thesis
    by (simp add: jobs_run_def)
qed

text \<open>C32: A 200 to a change of skills means that the profile now has exactly the skills of the body,
  that all of them exist and none is named twice, and that no other profile's skills changed. A body
  with an unknown skill or one named twice changes nothing, as does every reply but 200 and the
  500 of a lost commit.\<close>

theorem skills_replaced:
  assumes "jobs_serve c parse collation (PutSkills i (Inr sks)) s = (r, s')"
  shows "(code r = 200 \<longrightarrow> (\<exists>u p. parse i = Some u \<and> p \<in> set (profiles (s_db s')) \<and> p_id p = u \<and>
      r = Resp 200 (profile_json c (with_skills p (skills_of collation u (s_db s')))) \<and>
      distinct sks \<and> sk_id ` set (skills_of collation u (s_db s')) = set sks \<and>
      (\<forall>v. v \<noteq> u \<longrightarrow> skills_of collation v (s_db s') = skills_of collation v (s_db s)))) \<and>
    (code r \<notin> {200, 500} \<or> \<not> (distinct sks \<and> set sks \<subseteq> sk_id ` set (skills (s_db s))) \<longrightarrow>
      s_db s' = s_db s \<and> code r \<noteq> 200)"
  using assms
proof (cases rule: jobs_serve_cases)
  case unchanged
  from unchanged(2) have "code r \<noteq> 200" by (auto simp: is_jobs_read_def unbound_def)
  with unchanged show ?thesis by simp
next
  case (step ev)
  from step(2) obtain q where ev: "ev = SkillsSet sks q" "parse i = Some (p_id q)" by (cases ev) auto
  from step(1) [unfolded ev(1)] have known: "distinct sks" "set sks \<subseteq> sk_id ` set (skills (s_db s))"
    by (auto elim: jobs_step.cases)
  have r: "code r \<in> {200, 500}" using step(3) ev by auto
  have "\<exists>u p. parse i = Some u \<and> p \<in> set (profiles (s_db s')) \<and> p_id p = u \<and>
      r = Resp 200 (profile_json c (with_skills p (skills_of collation u (s_db s')))) \<and>
      distinct sks \<and> sk_id ` set (skills_of collation u (s_db s')) = set sks \<and>
      (\<forall>v. v \<noteq> u \<longrightarrow> skills_of collation v (s_db s') = skills_of collation v (s_db s))" if ok: "code r = 200"
    using step(1) [unfolded ev(1)]
  proof cases
    case (skills_set p d1 now e)
    let ?p = "p\<lparr>p_updated_at := now\<rparr>"
    have p: "p \<in> set (profiles (s_db s))" using sel_SomeD [OF skills_set(2)] by blast
    then have "?p \<in> set (profiles (s_db s'))" using skills_set(1,5) by (force simp: set_upd)
    moreover have same: "skills_of collation v (s_db s') = skills_of collation v d1" for v using skills_set(1) by simp
    moreover have "r = Resp 200 (profile_json c (with_skills ?p (skills_of collation (p_id p) (s_db s'))))"
      using step(3) ok ev(1) skills_set(6) same by auto
    moreover have "sk_id ` set (skills_of collation (p_id p) (s_db s')) = set sks"
      unfolding same using skills_set(4,5) by (auto simp: skills_of_def)
    moreover have "skills_of collation v (s_db s') = skills_of collation v (s_db s)" if "v \<noteq> p_id p" for v
      unfolding same using skills_set(5) that by (simp add: skills_of_other)
    moreover have "parse i = Some (p_id p)" using ev(2) skills_set(6) by simp
    ultimately show ?thesis using skills_set(3) by (intro exI [of _ "p_id p"] exI [of _ ?p]) simp
  qed
  with r known show ?thesis by blast
qed

theorem skills_replaced_witness:
  "sk_id ` set (skills_of plain 19 jobs_four) = {1, 2} \<and>
   s_db (snd (jobs_run (PutSkills ''13'' (Inr [1, 7])) [] 20 jobs_three)) = jobs_three"
proof
  let ?call = "PutSkills ''13'' (Inr [1, 2])" and ?bad = "PutSkills ''13'' (Inr [1, 7])"
  let ?s = "jobs_session 20 [] jobs_three"
  have "code (fst (jobs_run ?call [] 20 jobs_three)) = 200" "one_id ''13'' = Some 19" by code_simp+
  then show "sk_id ` set (skills_of plain 19 jobs_four) = {1, 2}"
    using skills_replaced [of hire_codec one_id plain "''13''" "[1, 2]" ?s, OF surjective_pairing]
    by (auto simp: jobs_four_def jobs_run_def)
  have "\<not> list_all (\<lambda>k. k \<in> set (map sk_id (skills (s_db ?s)))) [1, 7]" by code_simp
  then have "\<not> set [1, 7] \<subseteq> sk_id ` set (skills (s_db ?s))" by (auto simp: list_all_iff)
  then show "s_db (snd (jobs_run ?bad [] 20 jobs_three)) = jobs_three"
    using skills_replaced [of hire_codec one_id plain "''13''" "[1, 7]" ?s, OF surjective_pairing]
    by (auto simp: jobs_run_def jobs_session_def)
qed

text \<open>Two reads in turn, each of a value of the rows: an error of the connection, or both values.\<close>

lemma pure_read:
  assumes "store_err (auto_stmt f) s = (q, s')" "\<And>now u d. f now u d = Inr (F d, d)"
  shows "s_db s' = s_db s \<and> q \<in> {Inl (StoreError ErrConn), Inr (F (s_db s))}"
proof -
  obtain q1 where q1: "auto_stmt f s = (q1, s')" "q = (case q1 of Inl e \<Rightarrow> Inl (StoreError e) | Inr x \<Rightarrow> Inr x)"
    using assms(1) by (auto simp: map_err_def split: prod.splits sum.splits)
  from q1(1) show ?thesis by (cases rule: auto_stmt_eqE) (auto simp: assms(2) q1(2))
qed

lemma two_reads:
  assumes "bnd (store_err (auto_stmt f)) (\<lambda>x. bnd (store_err (auto_stmt g)) (\<lambda>y. ret (reply x y))) s = (q, s')"
    and f: "\<And>now u d. f now u d = Inr (F d, d)" and g: "\<And>now u d. g now u d = Inr (G d, d)"
  shows "s_db s' = s_db s \<and> q \<in> {Inl (StoreError ErrConn), Inr (reply (F (s_db s)) (G (s_db s)))}"
proof (cases rule: bnd_eqE [OF assms(1)])
  case (1 e)
  with pure_read [OF 1(1) f] show ?thesis by simp
next
  case (2 x s1)
  from pure_read [OF 2(1) f] have x: "s_db s1 = s_db s" "x = F (s_db s)" by simp_all
  show ?thesis
  proof (cases rule: bnd_eqE [OF 2(2)])
    case (1 e)
    with pure_read [OF 1(1) g] x show ?thesis by simp
  next
    case (2 y s2)
    with pure_read [OF 2(1) g] x show ?thesis by simp
  qed
qed

text \<open>C33: A job list that is answered with 200 is the page of the newest jobs with the status asked
  for that its parameters select; a page has at most 100 jobs whatever the parameters say (a limit
  that is no number or not positive counts as 20, a number too large for \<open>int\<close> as the largest,
  a negative offset as 0), and the total counts all of them. Only an unknown status is refused.\<close>

theorem jobs_listed:
  assumes "jobs_serve c parse collation (GetJobs lp op st) s = (r, s')"
  shows "s_db s' = s_db s \<and> 1 \<le> list_limit lp \<and> list_limit lp \<le> 100 \<and> 0 \<le> list_offset op \<and>
    (code r = 400 \<longleftrightarrow> st \<notin> set ('''' # validJobStatuses)) \<and>
    (code r = 200 \<longrightarrow> (let all = filter (\<lambda>j. st = '''' \<or> j_status j = st) (jobs (s_db s)) in
       r = Resp 200 (JObj
         [(''items'', JArr (map (job_json c) (take (nat (list_limit lp)) (drop (nat (list_offset op))
             (sort_key (\<lambda>j. - j_created_at j) all))))),
          (''total'', JNum (int (length all)))])))"
proof -
  let ?p = "\<lparr>lj_status = (if st \<noteq> '''' then Some st else None), lj_limit = list_limit lp, lj_offset = list_offset op\<rparr>"
  let ?all = "filter (\<lambda>j. st = '''' \<or> j_status j = st) (jobs (s_db s))"
  have lim: "1 \<le> list_limit lp" "list_limit lp \<le> 100" "0 \<le> list_offset op"
    by (simp_all add: list_limit_def list_offset_def Let_def)
  have match: "job_matches ?p = (\<lambda>j. st = '''' \<or> j_status j = st)"
    by (auto simp: job_matches_def fun_eq_iff)
  have sel: "job_List ?p now u d = Inr (take (nat (list_limit lp)) (drop (nat (list_offset op))
      (sort_key (\<lambda>j. - j_created_at j) (filter (\<lambda>j. st = '''' \<or> j_status j = st) (jobs d)))), d)"
    "job_Count ?p now u d = Inr (int (length (filter (\<lambda>j. st = '''' \<or> j_status j = st) (jobs d))), d)" for now u d
    using lim unfolding job_List_def job_Count_def match Let_def by simp_all
  obtain q where run: "job_handle_List c lp op st s = (q, s')"
    and q: "q = Inr r \<or> (\<exists>err. q = Inl err \<and> customErrorHandler False err = Some r)"
    using assms by (auto simp: jobs_serve_def elim: requestLogger_eqE)
  show ?thesis
  proof (cases rule: bnd_eqE [OF run [unfolded job_handle_List_def Let_def]])
    case (1 e)
    with q lim show ?thesis by (auto simp: customErrorHandler_def split: if_splits)
  next
    case (2 x s1)
    from 2(1) have known: "st \<in> set ('''' # validJobStatuses)" "s1 = s" by (auto split: if_splits)
    from two_reads [OF 2(2) sel] q lim known show ?thesis by (auto simp: Let_def customErrorHandler_def)
  qed
qed

theorem jobs_listed_witness:
  "code (fst (jobs_run (GetJobs ''99999999999999999999'' ''-3'' ''open'') [] 30 jobs_four)) = 200 \<and>
   list_limit ''99999999999999999999'' = 100 \<and> list_offset ''-3'' = 0 \<and>
   s_db (snd (jobs_run (GetJobs ''99999999999999999999'' ''-3'' ''open'') [] 30 jobs_four)) = jobs_four"
proof -
  have "code (fst (jobs_run (GetJobs ''99999999999999999999'' ''-3'' ''open'') [] 30 jobs_four)) = 200"
    "list_limit ''99999999999999999999'' = 100" "list_offset ''-3'' = 0" by code_simp+
  with jobs_listed [OF surjective_pairing, of hire_codec one_id plain "''99999999999999999999''" "''-3''" "''open''" "jobs_session 30 [] jobs_four"]
  show ?thesis by (simp add: jobs_run_def jobs_session_def)
qed

end
