(* ===== verification/Url.thy ===== *)
theory Url
  imports Prelude
begin

text \<open>
  The parts of Go's \<open>net/url\<close> the BFF services use: escaping of path segments and query
  components, and how a server reads the target it is asked for back. Strings are byte strings.
\<close>

section \<open>Escaping\<close>

definition byte_of :: "char \<Rightarrow> nat" where
  "byte_of ch = of_char ch"

definition alphanumeric :: "char \<Rightarrow> bool" where
  "alphanumeric ch \<longleftrightarrow> (let n = byte_of ch in 48 \<le> n \<and> n \<le> 57 \<or> 65 \<le> n \<and> n \<le> 90 \<or> 97 \<le> n \<and> n \<le> 122)"

definition unreserved :: "char \<Rightarrow> bool" where
  "unreserved ch \<longleftrightarrow> alphanumeric ch \<or> ch \<in> set ''-_.~''"

text \<open>What \<open>shouldEscape\<close> leaves alone in a path segment.\<close>

definition segment_char :: "char \<Rightarrow> bool" where
  "segment_char ch \<longleftrightarrow> unreserved ch \<or> ch \<in> set ''$&+:=@''"

definition upperhex :: string where
  "upperhex = ''0123456789ABCDEF''"

definition upper_hex :: "nat \<Rightarrow> char" where
  "upper_hex n = upperhex ! n"

definition hex_val :: "char \<Rightarrow> nat option" where
  "hex_val ch = (let n = byte_of ch in
     if 48 \<le> n \<and> n \<le> 57 then Some (n - 48)
     else if 65 \<le> n \<and> n \<le> 70 then Some (n - 55)
     else if 97 \<le> n \<and> n \<le> 102 then Some (n - 87) else None)"

definition percent :: "char \<Rightarrow> string" where
  "percent ch = [CHR ''%'', upper_hex (byte_of ch div 16), upper_hex (byte_of ch mod 16)]"

definition escape :: "(char \<Rightarrow> bool) \<Rightarrow> bool \<Rightarrow> string \<Rightarrow> string" where
  "escape keep qry s = concat (map (\<lambda>ch.
     if keep ch then [ch] else if qry \<and> ch = CHR '' '' then ''+'' else percent ch) s)"

definition PathEscape :: "string \<Rightarrow> string" where
  "PathEscape = escape segment_char False"

definition QueryEscape :: "string \<Rightarrow> string" where
  "QueryEscape = escape unreserved True"

fun unescape :: "bool \<Rightarrow> string \<Rightarrow> string option" where
  "unescape qry [] = Some []"
| "unescape qry (ch # cs) =
     (if ch = CHR ''%'' then
        (case cs of
           x # y # rest \<Rightarrow>
             (case (hex_val x, hex_val y) of
                (Some a, Some b) \<Rightarrow> map_option (Cons (char_of (16 * a + b))) (unescape qry rest)
              | _ \<Rightarrow> None)
         | _ \<Rightarrow> None)
      else map_option (Cons (if qry \<and> ch = CHR ''+'' then CHR '' '' else ch)) (unescape qry cs))"

section \<open>Cutting\<close>

text \<open>\<open>strings.Cut\<close> at one byte: before it, and after it (empty when there is none).\<close>

definition cut :: "char \<Rightarrow> string \<Rightarrow> string \<times> string" where
  "cut c s = (takeWhile (\<lambda>x. x \<noteq> c) s, drop 1 (dropWhile (\<lambda>x. x \<noteq> c) s))"

fun split_at :: "char \<Rightarrow> string \<Rightarrow> string list" where
  "split_at c [] = [[]]"
| "split_at c (x # xs) =
     (if x = c then [] # split_at c xs
      else (case split_at c xs of [] \<Rightarrow> [[x]] | w # ws \<Rightarrow> (x # w) # ws))"

section \<open>Targets and queries\<close>

text \<open>
  The target \<open>http.NewRequest\<close> is given, as the server then sees it: the fragment stays with
  the client, the rest is the escaped path and the raw query. \<open>url.Parse\<close> refuses control
  characters and bad escapes in the path and the fragment.
\<close>

definition target_path :: "string \<Rightarrow> string" where
  "target_path t = fst (cut (CHR ''?'') (fst (cut (CHR ''#'') t)))"

definition target_query :: "string \<Rightarrow> string" where
  "target_query t = snd (cut (CHR ''?'') (fst (cut (CHR ''#'') t)))"

definition url_ok :: "string \<Rightarrow> bool" where
  "url_ok t \<longleftrightarrow> list_all (\<lambda>ch. 32 \<le> byte_of ch \<and> byte_of ch \<noteq> 127) t \<and>
     unescape False (target_path t) \<noteq> None \<and> unescape False (snd (cut (CHR ''#'') t)) \<noteq> None"

text \<open>\<open>(*URL).Query().Get\<close>: the first value of a name, \<open>''\<close> when there is none.\<close>

definition query_pair :: "string \<Rightarrow> (string \<times> string) list" where
  "query_pair seg =
     (if CHR '';'' \<in> set seg \<or> seg = [] then []
      else case (unescape True (fst (cut (CHR ''='') seg)), unescape True (snd (cut (CHR ''='') seg))) of
        (Some n, Some v) \<Rightarrow> [(n, v)] | _ \<Rightarrow> [])"

definition query_pairs :: "string \<Rightarrow> (string \<times> string) list" where
  "query_pairs raw = concat (map query_pair (split_at (CHR ''&'') raw))"

definition query_get :: "string \<Rightarrow> string \<Rightarrow> string" where
  "query_get raw name = (case map_of (query_pairs raw) name of None \<Rightarrow> '''' | Some v \<Rightarrow> v)"

text \<open>The decoded segments of an escaped path.\<close>

definition path_segments :: "string \<Rightarrow> string option list" where
  "path_segments p = map (unescape False) (split_at (CHR ''/'') p)"

section \<open>Round trips\<close>

lemma byte_of_less [simp]: "byte_of ch < 256"
  unfolding byte_of_def using of_char_mod_256 [of ch, where 'a = nat] by (metis mod_less_divisor zero_less_numeral)

lemma hex_val_upper: "n < 16 \<Longrightarrow> hex_val (upper_hex n) = Some n"
proof -
  have "\<forall>n\<in>{0..<16}. hex_val (upper_hex n) = Some n" by code_simp
  then show "n < 16 \<Longrightarrow> hex_val (upper_hex n) = Some n" by simp
qed

lemma unescape_percent:
  "unescape qry (percent ch @ s) = map_option (Cons ch) (unescape qry s)"
proof -
  have "byte_of ch div 16 < 16" using byte_of_less [of ch] by linarith
  moreover have "16 * (byte_of ch div 16) + byte_of ch mod 16 = byte_of ch" by simp
  moreover have "char_of (byte_of ch) = ch" by (simp add: byte_of_def)
  ultimately show ?thesis by (simp add: percent_def hex_val_upper)
qed

lemma escape_Nil [simp]: "escape keep qry [] = []"
  and escape_Cons: "escape keep qry (ch # s) =
    (if keep ch then [ch] else if qry \<and> ch = CHR '' '' then ''+'' else percent ch) @ escape keep qry s"
  by (simp_all add: escape_def)

lemma unescape_escape:
  assumes "\<not> keep (CHR ''%'')" "qry \<Longrightarrow> \<not> keep (CHR ''+'')"
  shows "unescape qry (escape keep qry s) = Some s"
proof (induction s)
  case (Cons ch s)
  with assms show ?case
    by (auto simp: escape_Cons unescape_percent)
qed simp

lemma upper_hex_in: "n < 16 \<Longrightarrow> upper_hex n \<in> set upperhex"
  unfolding upper_hex_def by (rule nth_mem) (simp add: upperhex_def)

lemma percent_set: "set (percent ch) \<subseteq> insert (CHR ''%'') (set upperhex)"
proof -
  have "byte_of ch div 16 < 16" using byte_of_less [of ch] by linarith
  then show ?thesis by (auto simp: percent_def intro: upper_hex_in)
qed

lemma escape_set: "set (escape keep qry s) \<subseteq> Collect keep \<union> {CHR ''%'', CHR ''+''} \<union> set upperhex"
proof (induction s)
  case (Cons ch s)
  with percent_set [of ch] show ?case by (auto simp: escape_Cons split: if_splits)
qed simp

lemma unescape_QueryEscape [simp]: "unescape True (QueryEscape s) = Some s"
  unfolding QueryEscape_def by (rule unescape_escape) code_simp+

lemma unescape_PathEscape [simp]: "unescape False (PathEscape s) = Some s"
  unfolding PathEscape_def by (rule unescape_escape) code_simp+

text \<open>What never appears in an escaped segment or component.\<close>

definition visible :: "string \<Rightarrow> char \<Rightarrow> bool" where
  "visible except ch \<longleftrightarrow> ch \<notin> set except \<and> 32 \<le> byte_of ch \<and> byte_of ch < 127"

definition printable :: "char \<Rightarrow> bool" where
  "printable ch \<longleftrightarrow> 32 \<le> byte_of ch \<and> byte_of ch < 127"

lemma alphanumeric_printable: "alphanumeric ch \<Longrightarrow> printable ch"
  by (auto simp: alphanumeric_def printable_def Let_def)

lemma visibleI:
  assumes "list_all (\<lambda>x. \<not> P x) except" "P ch" "printable ch" shows "visible except ch"
  using assms by (auto simp: visible_def printable_def list_all_iff)

lemma unreserved_printable: "unreserved ch \<Longrightarrow> printable ch"
proof -
  have "list_all printable ''-_.~''" by code_simp
  then show "unreserved ch \<Longrightarrow> printable ch"
    unfolding unreserved_def list_all_iff using alphanumeric_printable by blast
qed

lemma segment_char_printable: "segment_char ch \<Longrightarrow> printable ch"
proof -
  have "list_all printable ''$&+:=@''" by code_simp
  then show "segment_char ch \<Longrightarrow> printable ch"
    unfolding segment_char_def list_all_iff using unreserved_printable by blast
qed

lemma upperhex_printable: "ch \<in> {CHR ''%'', CHR ''+''} \<union> set upperhex \<Longrightarrow> printable ch"
proof -
  have "list_all printable (CHR ''%'' # CHR ''+'' # upperhex)" by code_simp
  then show "ch \<in> {CHR ''%'', CHR ''+''} \<union> set upperhex \<Longrightarrow> printable ch"
    unfolding list_all_iff list.set by blast
qed

lemma PathEscape_visible: "ch \<in> set (PathEscape s) \<Longrightarrow> visible ''/?#'' ch"
proof (rule visibleI [where P = "\<lambda>ch. segment_char ch \<or> ch \<in> set (CHR ''%'' # CHR ''+'' # upperhex)"])
  show "list_all (\<lambda>x. \<not> (segment_char x \<or> x \<in> set (CHR ''%'' # CHR ''+'' # upperhex))) ''/?#''" by code_simp
  assume "ch \<in> set (PathEscape s)"
  then have ch: "ch \<in> Collect segment_char \<union> ({CHR ''%'', CHR ''+''} \<union> set upperhex)"
    unfolding PathEscape_def using escape_set by blast
  then show "segment_char ch \<or> ch \<in> set (CHR ''%'' # CHR ''+'' # upperhex)" unfolding list.set by blast
  from ch show "printable ch" using segment_char_printable upperhex_printable by blast
qed

lemma QueryEscape_visible: "ch \<in> set (QueryEscape s) \<Longrightarrow> visible ''/?#&;='' ch"
proof (rule visibleI [where P = "\<lambda>ch. unreserved ch \<or> ch \<in> set (CHR ''%'' # CHR ''+'' # upperhex)"])
  show "list_all (\<lambda>x. \<not> (unreserved x \<or> x \<in> set (CHR ''%'' # CHR ''+'' # upperhex))) ''/?#&;=''" by code_simp
  assume "ch \<in> set (QueryEscape s)"
  then have ch: "ch \<in> Collect unreserved \<union> ({CHR ''%'', CHR ''+''} \<union> set upperhex)"
    unfolding QueryEscape_def using escape_set by blast
  then show "unreserved ch \<or> ch \<in> set (CHR ''%'' # CHR ''+'' # upperhex)" unfolding list.set by blast
  from ch show "printable ch" using unreserved_printable upperhex_printable by blast
qed

lemma PathEscape_free: "set (PathEscape s) \<inter> set ''/?#'' = {}"
  and QueryEscape_free: "set (QueryEscape s) \<inter> set ''/?#&;='' = {}"
  using PathEscape_visible QueryEscape_visible unfolding visible_def by blast+

section \<open>Reading a target back\<close>

lemma cut_absent: "c \<notin> set s \<Longrightarrow> cut c s = (s, [])"
  by (induction s) (auto simp: cut_def)

lemma cut_at: "c \<notin> set s \<Longrightarrow> cut c (s @ c # t) = (s, t)"
proof -
  assume "c \<notin> set s"
  then have "\<forall>x\<in>set s. x \<noteq> c" by auto
  then show ?thesis by (simp add: cut_def takeWhile_append2 dropWhile_append2)
qed

lemma split_at_absent: "c \<notin> set s \<Longrightarrow> split_at c s = [s]"
  by (induction c s rule: split_at.induct) auto

lemma split_at_at: "c \<notin> set s \<Longrightarrow> split_at c (s @ c # t) = s # split_at c t"
  by (induction s) auto

lemma target_plain:
  assumes "CHR ''?'' \<notin> set p" "CHR ''#'' \<notin> set p"
  shows "target_path p = p" "target_query p = []" "snd (cut (CHR ''#'') p) = []"
  using assms by (simp_all add: target_path_def target_query_def cut_absent)

lemma target_queried:
  assumes "CHR ''?'' \<notin> set p" "CHR ''#'' \<notin> set p" "CHR ''#'' \<notin> set q"
  shows "target_path (p @ CHR ''?'' # q) = p" "target_query (p @ CHR ''?'' # q) = q"
    "snd (cut (CHR ''#'') (p @ CHR ''?'' # q)) = []"
  using assms by (simp_all add: target_path_def target_query_def cut_absent cut_at)

lemma query_get_escaped:
  assumes "n \<noteq> []" "set n \<inter> set ''&;=%+'' = {}"
  shows "query_get (n @ CHR ''='' # QueryEscape v) n = v"
proof -
  have free: "CHR ''&'' \<notin> set (QueryEscape v)" "CHR '';'' \<notin> set (QueryEscape v)"
    using QueryEscape_free [of v] by auto
  have "unescape True s = Some s" if "set s \<inter> set ''&;=%+'' = {}" for s
    using that by (induction s) auto
  with assms have n: "unescape True n = Some n" by blast
  have "split_at (CHR ''&'') (n @ CHR ''='' # QueryEscape v) = [n @ CHR ''='' # QueryEscape v]"
    by (rule split_at_absent) (use assms free in auto)
  moreover have "cut (CHR ''='') (n @ CHR ''='' # QueryEscape v) = (n, QueryEscape v)"
    by (rule cut_at) (use assms in auto)
  moreover have "CHR '';'' \<notin> set (n @ CHR ''='' # QueryEscape v)" using assms free by auto
  ultimately show ?thesis
    using n by (simp add: query_get_def query_pairs_def query_pair_def)
qed

lemma unescape_append:
  "unescape qry a = Some x \<Longrightarrow> unescape qry (a @ b) = map_option (append x) (unescape qry b)"
proof (induction qry a arbitrary: x rule: unescape.induct)
  case (1 qry)
  then show ?case by (cases "unescape qry b") simp_all
next
  case (2 qry ch cs)
  show ?case
  proof (cases "ch = CHR ''%''")
    case True
    with "2.prems" obtain u v rest where cs: "cs = u # v # rest"
      by (cases cs rule: remdups_adj.cases) simp_all
    with True "2.prems" obtain m n y where hex: "hex_val u = Some m" "hex_val v = Some n"
      and y: "unescape qry rest = Some y" "x = char_of (16 * m + n) # y"
      by (auto split: option.splits)
    from "2.IH"(1) [OF True cs refl refl hex y(1)] show ?thesis
      using True by (cases "unescape qry b") (simp_all add: cs hex y)
  next
    case False
    with "2.prems" obtain y where y: "unescape qry cs = Some y"
      "x = (if qry \<and> ch = CHR ''+'' then CHR '' '' else ch) # y" by auto
    from "2.IH"(2) [OF False y(1)] show ?thesis
      using False by (cases "unescape qry b") (simp_all add: y)
  qed
qed

lemma path_segments_cut:
  "CHR ''/'' \<notin> set s \<Longrightarrow> path_segments (s @ CHR ''/'' # t) = unescape False s # path_segments t"
  by (simp add: path_segments_def split_at_at)

lemma path_segments_last: "CHR ''/'' \<notin> set s \<Longrightarrow> path_segments s = [unescape False s]"
  by (simp add: path_segments_def split_at_absent)

end
