(* ===== verification/BffHttp.thy ===== *)
theory BffHttp
  imports Url Json
begin

text \<open>
  What the three BFF services share below their handlers: requests, replies and the context of a
  request (pkg/bff/http.go, context.go), the state a BFF keeps and the calls it makes, and how
  \<open>net/http\<close>'s \<open>ServeMux\<close> picks a handler.
\<close>

section \<open>Requests and replies\<close>

text \<open>A body: a JSON document (what follows it is not read), or bytes that are not one.\<close>

datatype payload = Json json | Bytes string

record cookie =
  ck_Name :: string
  ck_Value :: string
  ck_Path :: string
  ck_HttpOnly :: bool
  ck_Secure :: bool
  ck_SameSite :: string
  ck_MaxAge :: int

record request =
  q_method :: string
  q_path :: "string list"
  q_RawQuery :: string
  q_cookies :: "(string \<times> string) list"
  q_body :: payload

record reply =
  r_status :: nat
  r_content_type :: string
  r_cookies :: "cookie list"
  r_body :: payload

text \<open>
  \<open>q_path\<close> holds the decoded segments of the cleaned path, a trailing slash as a segment \<open>/\<close>.
  \<open>(*Request).Cookie\<close> returns the first cookie of a name.
\<close>

definition Cookie :: "string \<Rightarrow> request \<Rightarrow> string option" where
  "Cookie name q = map_of (q_cookies q) name"

definition WriteJSON :: "nat \<Rightarrow> json \<Rightarrow> reply" where
  "WriteJSON status v =
     \<lparr>r_status = status, r_content_type = ''application/json'', r_cookies = [], r_body = Json v\<rparr>"

definition WriteError :: "nat \<Rightarrow> string \<Rightarrow> reply" where
  "WriteError status msg = WriteJSON status (JObj [(''error'', JStr msg)])"

lemma written [simp]:
  "r_status (WriteJSON n v) = n" "r_cookies (WriteJSON n v) = []" "r_body (WriteJSON n v) = Json v"
  "r_status (WriteError n msg) = n" "r_cookies (WriteError n msg) = []"
  "r_body (WriteError n msg) = Json (JObj [(''error'', JStr msg)])"
  by (simp_all add: WriteJSON_def WriteError_def)

section \<open>The context of a request\<close>

type_synonym ctx = "(string \<times> string) list"

definition CtxKeyUserID :: string where "CtxKeyUserID = ''user_id''"
definition CtxKeyRole :: string where "CtxKeyRole = ''role''"

definition WithValue :: "ctx \<Rightarrow> string \<Rightarrow> string \<Rightarrow> ctx" where
  "WithValue ctx key v = (key, v) # ctx"

definition WithUserID :: "ctx \<Rightarrow> string \<Rightarrow> ctx" where
  "WithUserID ctx userID = WithValue ctx CtxKeyUserID userID"

definition UserIDFrom :: "ctx \<Rightarrow> string" where
  "UserIDFrom ctx = (case map_of ctx CtxKeyUserID of None \<Rightarrow> '''' | Some s \<Rightarrow> s)"

definition RoleFrom :: "ctx \<Rightarrow> string" where
  "RoleFrom ctx = (case map_of ctx CtxKeyRole of None \<Rightarrow> '''' | Some s \<Rightarrow> s)"

lemma context_values [simp]:
  "UserIDFrom (WithValue (WithValue ctx CtxKeyUserID u) CtxKeyRole r) = u"
  "RoleFrom (WithValue (WithValue ctx CtxKeyUserID u) CtxKeyRole r) = r"
  by (simp_all add: UserIDFrom_def RoleFrom_def WithValue_def CtxKeyUserID_def CtxKeyRole_def)

section \<open>The state of a BFF, and what it depends on\<close>

text \<open>
  A request to an upstream service. \<open>o_url\<close> is the service's base URL and the target
  \<open>o_target\<close>; headers the code sets are \<open>o_headers\<close>; \<open>o_body\<close> is absent where the code
  passes \<open>nil\<close>.
\<close>

record out_req =
  o_base :: string
  o_method :: string
  o_target :: string
  o_headers :: "(string \<times> string) list"
  o_body :: "payload option"

text \<open>
  A BFF's state: the clock, the rate limiters by user, the upstream services (the \<open>world\<close>), and,
  for the statements below only, the requests it has sent there. \<open>b_log\<close> is what the request
  logger has written.
\<close>

record ('l, 'w) bff =
  b_now :: int
  b_limiters :: "(string \<times> 'l) list"
  b_world :: 'w
  b_sent :: "out_req list"
  b_log :: "(string \<times> string list \<times> nat) list"

type_synonym ('l, 'w, 'a) bff_prog = "(('l, 'w) bff, reply, 'a) prog"

text \<open>
  What is not part of the repository: an HTTP exchange with the upstream services (\<open>None\<close> when it
  fails), and the rate limiter of \<open>golang.org/x/time/rate\<close>: its constructor for a rate per
  second and a burst, and \<open>Allow\<close> at a time.
\<close>

type_synonym 'w transport = "'w \<Rightarrow> out_req \<Rightarrow> (nat \<times> string \<times> payload) option \<times> 'w"

record 'l limiter_lib =
  NewLimiter :: "int \<Rightarrow> int \<Rightarrow> 'l"
  Allow :: "int \<Rightarrow> 'l \<Rightarrow> bool \<times> 'l"

text \<open>A handler's reply, written early or at its end.\<close>

definition answer :: "('s, 'r, 'r) prog \<Rightarrow> 's \<Rightarrow> 'r \<times> 's" where
  "answer m s = (case m s of (Inl r, s') \<Rightarrow> (r, s') | (Inr r, s') \<Rightarrow> (r, s'))"

lemma answer_simps [simp]:
  "answer (ret r) s = (r, s)" "answer (raise r) s = (r, s)"
  by (simp_all add: answer_def ret_def raise_def)

lemma answer_if [simp]: "answer (if b then m else m') s = (if b then answer m s else answer m' s)"
  by simp

section \<open>ServeMux\<close>

text \<open>
  A pattern is a method and segments, literal or \<open>{name}\<close>. A wildcard takes any segment but a
  trailing slash. A \<open>GET\<close> pattern also serves \<open>HEAD\<close>. No two patterns of one mux overlap here, so
  the first match is the match.
\<close>

datatype segment = Lit string | Wild string

type_synonym path_values = "(string \<times> string) list"

fun match_path :: "segment list \<Rightarrow> string list \<Rightarrow> path_values option" where
  "match_path [] [] = Some []"
| "match_path (Lit l # ps) (s # ss) = (if s = l then match_path ps ss else None)"
| "match_path (Wild n # ps) (s # ss) =
     (if s = '''' \<or> s = ''/'' then None else map_option (Cons (n, s)) (match_path ps ss))"
| "match_path _ _ = None"

lemma match_Nil: "match_path [] p = Some vs \<longleftrightarrow> p = [] \<and> vs = []"
  and match_Lit: "match_path (Lit l # ps) p = Some vs \<longleftrightarrow> (\<exists>ss. p = l # ss \<and> match_path ps ss = Some vs)"
  by (cases p; auto split: if_splits)+

definition PathValue :: "path_values \<Rightarrow> string \<Rightarrow> string" where
  "PathValue vs name = (case map_of vs name of None \<Rightarrow> '''' | Some v \<Rightarrow> v)"

definition method_matches :: "string \<Rightarrow> string \<Rightarrow> bool" where
  "method_matches m m' \<longleftrightarrow> m' = m \<or> m = ''GET'' \<and> m' = ''HEAD''"

definition not_found :: reply where
  "not_found = \<lparr>r_status = 404, r_content_type = ''text/plain; charset=utf-8'', r_cookies = [],
     r_body = Bytes (''404 page not found'' @ [CHR 0x0A])\<rparr>"

definition method_not_allowed :: reply where
  "method_not_allowed = \<lparr>r_status = 405, r_content_type = ''text/plain; charset=utf-8'', r_cookies = [],
     r_body = Bytes (''Method Not Allowed'' @ [CHR 0x0A])\<rparr>"

type_synonym 'h routes = "(string \<times> segment list \<times> (path_values \<Rightarrow> 'h)) list"

fun find_route :: "'h routes \<Rightarrow> string \<Rightarrow> string list \<Rightarrow> 'h option" where
  "find_route [] m p = None"
| "find_route ((m', pat, h) # rs) m p =
     (case match_path pat p of
        Some vs \<Rightarrow> if method_matches m' m then Some (h vs) else find_route rs m p
      | None \<Rightarrow> find_route rs m p)"

definition serve_mux :: "(('s, reply, reply) prog) routes \<Rightarrow> request \<Rightarrow> ('s, reply, reply) prog" where
  "serve_mux rs q =
     (case find_route rs (q_method q) (q_path q) of
        Some h \<Rightarrow> h
      | None \<Rightarrow>
          if list_ex (\<lambda>(_, pat, _). match_path pat (q_path q) \<noteq> None) rs
          then ret method_not_allowed else ret not_found)"

end
