(* ===== verification/BffClient.thy ===== *)
theory BffClient
  imports BffHttp
begin

text \<open>
  The client of the upstream services (pkg/bff/client.go) and the middleware every request passes
  (pkg/bff/middleware.go, \<open>RequireRole\<close> of context.go).
\<close>

section \<open>ServiceClient\<close>

record ServiceClient =
  BaseURL :: string
  Name :: string

datatype do_err =
    CreateRequest
  | Request
  | APIError nat payload string
  | Unmarshal

definition new_request ::
  "ServiceClient \<Rightarrow> ctx \<Rightarrow> string \<Rightarrow> string \<Rightarrow> payload option \<Rightarrow> out_req option" where
  "new_request c ctx meth path content =
     (if url_ok path then
        Some \<lparr>o_base = BaseURL c, o_method = meth, o_target = path,
          o_headers = (if content = None then [] else [(''Content-Type'', ''application/json'')])
            @ (if UserIDFrom ctx = '''' then [] else [(''X-User-ID'', UserIDFrom ctx)]),
          o_body = content\<rparr>
      else None)"

definition http_Do :: "'w transport \<Rightarrow> out_req \<Rightarrow> (('l, 'w) bff, unit, nat \<times> string \<times> payload) prog" where
  "http_Do http req s =
     (case http (b_world s) req of
        (resp, w) \<Rightarrow>
          let s' = s\<lparr>b_world := w, b_sent := b_sent s @ [req]\<rparr> in
          case resp of None \<Rightarrow> (Inl (), s') | Some r \<Rightarrow> (Inr r, s'))"

text \<open>
  \<open>Do\<close>: the content is a JSON value or absent (marshalling one cannot fail), \<open>decode\<close> is the
  decoding into \<open>dest\<close>.
\<close>

definition client_Do ::
  "'w transport \<Rightarrow> ServiceClient \<Rightarrow> ctx \<Rightarrow> string \<Rightarrow> string \<Rightarrow> json option \<Rightarrow> (payload \<Rightarrow> 'a option)
   \<Rightarrow> (('l, 'w) bff, do_err, 'a) prog" where
  "client_Do http c ctx meth path content decode =
     (case new_request c ctx meth path (map_option Json content) of
        None \<Rightarrow> raise CreateRequest
      | Some req \<Rightarrow>
          bnd (map_err (\<lambda>_. Request) (http_Do http req)) (\<lambda>(status, ctype, resp).
          if status < 200 \<or> 300 \<le> status then raise (APIError status resp (Name c))
          else case decode resp of None \<Rightarrow> raise Unmarshal | Some x \<Rightarrow> ret x))"

definition unavailable :: "ServiceClient \<Rightarrow> reply" where
  "unavailable c = WriteError 502 (Name c @ '': service unavailable'')"

definition client_Forward ::
  "'w transport \<Rightarrow> ServiceClient \<Rightarrow> ctx \<Rightarrow> string \<Rightarrow> string \<Rightarrow> payload option \<Rightarrow> ('l, 'w, reply) bff_prog" where
  "client_Forward http c ctx meth path content =
     (case new_request c ctx meth path content of
        None \<Rightarrow> raise (unavailable c)
      | Some req \<Rightarrow>
          bnd (map_err (\<lambda>_. unavailable c) (http_Do http req)) (\<lambda>(status, ctype, resp).
          ret \<lparr>r_status = status, r_content_type = ctype, r_cookies = [], r_body = resp\<rparr>))"

section \<open>Middleware\<close>

type_synonym ('l, 'w) handler = "ctx \<Rightarrow> request \<Rightarrow> ('l, 'w, reply) bff_prog"

definition RequireRole :: "string \<Rightarrow> ('l, 'w) handler \<Rightarrow> ('l, 'w) handler" where
  "RequireRole role next ctx q =
     (if RoleFrom ctx \<noteq> role then raise (WriteError 403 (''forbidden: requires '' @ role @ '' role''))
      else next ctx q)"

record RateLimiter =
  rl_rate :: int
  rl_burst :: int

text \<open>\<open>getLimiter\<close> is called with the limiter's mutex held, so it is one step.\<close>

definition getLimiter :: "'l limiter_lib \<Rightarrow> RateLimiter \<Rightarrow> string \<Rightarrow> (('l, 'w) bff, 'e, 'l) prog" where
  "getLimiter lib rl userID s =
     (case map_of (b_limiters s) userID of
        Some l \<Rightarrow> (Inr l, s)
      | None \<Rightarrow>
          let l = NewLimiter lib (rl_rate rl) (rl_burst rl) in
          (Inr l, s\<lparr>b_limiters := (userID, l) # b_limiters s\<rparr>))"

text \<open>\<open>Allow\<close> changes the limiter the map points to.\<close>

definition limiter_Allow :: "'l limiter_lib \<Rightarrow> string \<Rightarrow> 'l \<Rightarrow> (('l, 'w) bff, 'e, bool) prog" where
  "limiter_Allow lib userID l s =
     (case Allow lib (b_now s) l of
        (ok, l') \<Rightarrow> (Inr ok, s\<lparr>b_limiters := (userID, l') # b_limiters s\<rparr>))"

definition RateLimiter_Middleware ::
  "'l limiter_lib \<Rightarrow> RateLimiter \<Rightarrow> ('l, 'w) handler \<Rightarrow> ('l, 'w) handler" where
  "RateLimiter_Middleware lib rl next ctx q =
     (let userID = UserIDFrom ctx in
      if userID = '''' then next ctx q
      else
        bnd (getLimiter lib rl userID) (\<lambda>l.
        bnd (limiter_Allow lib userID l) (\<lambda>ok.
        if \<not> ok then raise (WriteError 429 ''rate limit exceeded'') else next ctx q)))"

text \<open>
  \<open>RequestLogger\<close> hands the request on through a \<open>statusWriter\<close>, which records the status the
  handler writes.
\<close>

definition RequestLogger :: "('l, 'w) handler \<Rightarrow> ctx \<Rightarrow> request \<Rightarrow> ('l, 'w) bff \<Rightarrow> reply \<times> ('l, 'w) bff" where
  "RequestLogger next ctx q s =
     (case answer (next ctx q) s of
        (r, s') \<Rightarrow> (r, s'\<lparr>b_log := b_log s' @ [(q_method q, q_path q, r_status r)]\<rparr>))"

end
