(* ===== verification/BffAuth.thy ===== *)
theory BffAuth
  imports BffClient
begin

text \<open>
  Log-in, refresh and the check of access tokens (pkg/bff/auth.go). The JWT library is outside
  the repository and is a parameter.
\<close>

section \<open>The JWT library\<close>

text \<open>
  \<open>SignedString\<close> is \<open>NewWithClaims(SigningMethodHS256, claims).SignedString(secret)\<close>.
  \<open>Parse\<close> gets the time, the token and the key function, and yields \<open>Valid\<close> and the claims, or
  \<open>None\<close> for an error.
\<close>

datatype signing_method = HMAC string | OtherMethod string

type_synonym claims = "(string \<times> json) list"

datatype token_claims = MapClaims claims | OtherClaims

record jwt_lib =
  SignedString :: "string \<Rightarrow> claims \<Rightarrow> string option"
  Parse :: "int \<Rightarrow> string \<Rightarrow> (signing_method \<Rightarrow> string option) \<Rightarrow> (bool \<times> token_claims) option"

text \<open>A claim asserted to be a string: \<open>''\<close> when it is absent or something else.\<close>

definition claim_string :: "claims \<Rightarrow> string \<Rightarrow> string" where
  "claim_string cs name = (case map_of cs name of Some (JStr s) \<Rightarrow> s | _ \<Rightarrow> '''')"

section \<open>Configuration and users\<close>

text \<open>Durations are nanoseconds.\<close>

record AuthConfig =
  Secret :: string
  AccessTokenTTL :: int
  RefreshTokenTTL :: int
  CookieSecure :: bool

record test_user =
  tu_Password :: string
  tu_UserID :: string
  tu_Role :: string

definition TestUsers :: "(string \<times> test_user) list" where
  "TestUsers =
    [(''client@example.com'', \<lparr>tu_Password = ''password'',
        tu_UserID = ''11111111-1111-1111-1111-111111111111'', tu_Role = ''client''\<rparr>),
     (''client2@example.com'', \<lparr>tu_Password = ''password'',
        tu_UserID = ''22222222-2222-2222-2222-222222222222'', tu_Role = ''client''\<rparr>),
     (''freelancer@example.com'', \<lparr>tu_Password = ''password'',
        tu_UserID = ''33333333-3333-3333-3333-333333333333'', tu_Role = ''freelancer''\<rparr>),
     (''admin@example.com'', \<lparr>tu_Password = ''password'',
        tu_UserID = ''44444444-4444-4444-4444-444444444444'', tu_Role = ''admin''\<rparr>)]"

section \<open>Checking a token\<close>

text \<open>The key function: only an HMAC method gets the secret.\<close>

definition hmac_key :: "AuthConfig \<Rightarrow> signing_method \<Rightarrow> string option" where
  "hmac_key a m = (case m of HMAC _ \<Rightarrow> Some (Secret a) | OtherMethod _ \<Rightarrow> None)"

text \<open>
  The steps the middleware and the refresh handler share: parse, look at the claims' kind, at
  \<open>type\<close>, and at \<open>sub\<close> and \<open>role\<close>; they differ in the type they want and one message.
\<close>

definition check_token ::
  "jwt_lib \<Rightarrow> AuthConfig \<Rightarrow> string \<Rightarrow> string \<Rightarrow> string \<Rightarrow> ('l, 'w, string \<times> string) bff_prog" where
  "check_token J a wanted invalid tok s =
     (case Parse J (b_now s) tok (hmac_key a) of
        None \<Rightarrow> raise (WriteError 401 invalid) s
      | Some (valid, cs) \<Rightarrow>
          if \<not> valid then raise (WriteError 401 invalid) s
          else case cs of
            OtherClaims \<Rightarrow> raise (WriteError 401 ''invalid claims'') s
          | MapClaims claims \<Rightarrow>
              if claim_string claims ''type'' \<noteq> wanted then raise (WriteError 401 ''invalid token type'') s
              else let sub = claim_string claims ''sub''; role = claim_string claims ''role'' in
                if sub = '''' \<or> role = '''' then raise (WriteError 401 ''missing required claims'') s
                else ret (sub, role) s)"

definition JWTMiddleware :: "jwt_lib \<Rightarrow> AuthConfig \<Rightarrow> ('l, 'w) handler \<Rightarrow> ('l, 'w) handler" where
  "JWTMiddleware J a next ctx q =
     (case Cookie ''access_token'' q of
        None \<Rightarrow> raise (WriteError 401 ''missing access token'')
      | Some tok \<Rightarrow>
          bnd (check_token J a ''access'' ''invalid token'' tok) (\<lambda>(sub, role).
          next (WithValue (WithValue ctx CtxKeyUserID sub) CtxKeyRole role) q))"

section \<open>Issuing tokens\<close>

definition unix_time :: "int \<Rightarrow> int" where
  "unix_time t = t div 1000000000"

definition token_claims :: "string \<Rightarrow> string \<Rightarrow> int \<Rightarrow> int \<Rightarrow> string \<Rightarrow> claims" where
  "token_claims userID role now ttl type =
     [(''sub'', JStr userID), (''role'', JStr role), (''exp'', JNum (unix_time (now + ttl))),
      (''iat'', JNum (unix_time now)), (''type'', JStr type)]"

definition GenerateTokens ::
  "jwt_lib \<Rightarrow> AuthConfig \<Rightarrow> string \<Rightarrow> string \<Rightarrow> (('l, 'w) bff, string, string \<times> string) prog" where
  "GenerateTokens J a userID role s =
     (let now = b_now s in
      case SignedString J (Secret a) (token_claims userID role now (AccessTokenTTL a) ''access'') of
        None \<Rightarrow> raise ''sign access token'' s
      | Some accessToken \<Rightarrow>
          (case SignedString J (Secret a) (token_claims userID role now (RefreshTokenTTL a) ''refresh'') of
             None \<Rightarrow> raise ''sign refresh token'' s
           | Some refreshToken \<Rightarrow> ret (accessToken, refreshToken) s))"

definition token_cookie :: "AuthConfig \<Rightarrow> string \<Rightarrow> string \<Rightarrow> int \<Rightarrow> cookie" where
  "token_cookie a name v ttl =
     \<lparr>ck_Name = name, ck_Value = v, ck_Path = ''/'', ck_HttpOnly = True, ck_Secure = CookieSecure a,
      ck_SameSite = (if \<not> CookieSecure a then ''Lax'' else ''Strict''),
      ck_MaxAge = ttl div 1000000000\<rparr>"

definition setTokenCookies :: "AuthConfig \<Rightarrow> string \<Rightarrow> string \<Rightarrow> reply \<Rightarrow> reply" where
  "setTokenCookies a accessToken refreshToken r =
     r\<lparr>r_cookies := r_cookies r @
        [token_cookie a ''access_token'' accessToken (AccessTokenTTL a),
         token_cookie a ''refresh_token'' refreshToken (RefreshTokenTTL a)]\<rparr>"

definition user_json :: "string \<Rightarrow> string \<Rightarrow> json" where
  "user_json userID role = JObj [(''role'', JStr role), (''user_id'', JStr userID)]"

definition open_session ::
  "jwt_lib \<Rightarrow> AuthConfig \<Rightarrow> string \<Rightarrow> string \<Rightarrow> ('l, 'w, reply) bff_prog" where
  "open_session J a userID role =
     bnd (map_err (\<lambda>_. WriteError 500 ''failed to generate tokens'') (GenerateTokens J a userID role))
       (\<lambda>(accessToken, refreshToken).
     ret (setTokenCookies a accessToken refreshToken (WriteJSON 200 (user_json userID role))))"

section \<open>The handlers\<close>

text \<open>Decoding the log-in body into its two string fields.\<close>

definition decode_login :: "payload \<Rightarrow> (string \<times> string) option" where
  "decode_login content =
     (case content of
        Bytes _ \<Rightarrow> None
      | Json j \<Rightarrow>
          (case (string_field ''email'' j, string_field ''password'' j) of
             (Some e, Some p) \<Rightarrow> Some (e, p) | _ \<Rightarrow> None))"

definition Login :: "jwt_lib \<Rightarrow> AuthConfig \<Rightarrow> request \<Rightarrow> ('l, 'w, reply) bff_prog" where
  "Login J a q =
     (case decode_login (q_body q) of
        None \<Rightarrow> raise (WriteError 400 ''invalid request body'')
      | Some (email, password) \<Rightarrow>
          if email = '''' \<or> password = '''' then raise (WriteError 400 ''email and password are required'')
          else case map_of TestUsers email of
            None \<Rightarrow> raise (WriteError 401 ''invalid credentials'')
          | Some user \<Rightarrow>
              if tu_Password user \<noteq> password then raise (WriteError 401 ''invalid credentials'')
              else open_session J a (tu_UserID user) (tu_Role user))"

definition Refresh :: "jwt_lib \<Rightarrow> AuthConfig \<Rightarrow> request \<Rightarrow> ('l, 'w, reply) bff_prog" where
  "Refresh J a q =
     (case Cookie ''refresh_token'' q of
        None \<Rightarrow> raise (WriteError 401 ''missing refresh token'')
      | Some tok \<Rightarrow>
          bnd (check_token J a ''refresh'' ''invalid refresh token'' tok) (\<lambda>(sub, role).
          open_session J a sub role))"

definition auth_routes :: "jwt_lib \<Rightarrow> AuthConfig \<Rightarrow> request \<Rightarrow> (('l, 'w, reply) bff_prog) routes" where
  "auth_routes J a q =
     [(''POST'', [Lit ''auth'', Lit ''login''], \<lambda>_. Login J a q),
      (''POST'', [Lit ''auth'', Lit ''refresh''], \<lambda>_. Refresh J a q)]"

end
