(* ===== verification/BffClientService.thy ===== *)
theory BffClientService
  imports BffAuth
begin

text \<open>
  The BFF of clients (services/bff/client): its handlers, its configuration and its handler chain;
  and what the three BFF services' \<open>main\<close>s have in common.
\<close>

section \<open>Configuration\<close>

text \<open>
  \<open>cmp.Or(os.Getenv(name), deflt)\<close>; an unset variable is empty. Each service reads its port, the
  secret, and the addresses it needs of those in \<open>bff_env_from\<close>.
\<close>

definition env_or :: "(string \<Rightarrow> string) \<Rightarrow> string \<Rightarrow> string \<Rightarrow> string" where
  "env_or getenv name deflt = (if getenv name = '''' then deflt else getenv name)"

definition listen_addr :: "(string \<Rightarrow> string) \<Rightarrow> string \<Rightarrow> string" where
  "listen_addr getenv deflt =
     (let port = env_or getenv ''PORT'' deflt in if port ! 0 \<noteq> CHR '':'' then CHR '':'' # port else port)"

record bff_env =
  ev_addr :: string
  ev_jwtSecret :: string
  ev_jobsURL :: string
  ev_matchingURL :: string
  ev_contractsURL :: string
  ev_paymentsURL :: string
  ev_otelEndpoint :: string
  ev_cookieSecure :: bool

definition bff_env_from :: "(string \<Rightarrow> string) \<Rightarrow> string \<Rightarrow> bff_env" where
  "bff_env_from getenv port =
     \<lparr>ev_addr = listen_addr getenv port,
      ev_jwtSecret = env_or getenv ''JWT_SECRET'' ''dev-secret-change-in-production'',
      ev_jobsURL = env_or getenv ''JOBS_URL'' ''http://jobs-api:8001'',
      ev_matchingURL = env_or getenv ''MATCHING_URL'' ''http://ai-matching:8002'',
      ev_contractsURL = env_or getenv ''CONTRACTS_URL'' ''http://contracts:8003'',
      ev_paymentsURL = env_or getenv ''PAYMENTS_URL'' ''http://payments:8004'',
      ev_otelEndpoint = env_or getenv ''OTEL_ENDPOINT'' ''localhost:4317'',
      ev_cookieSecure = (getenv ''COOKIE_SECURE'' \<noteq> ''false'')\<rparr>"

definition client_env :: "(string \<Rightarrow> string) \<Rightarrow> bff_env" where
  "client_env getenv = bff_env_from getenv ''8010''"

definition second :: int where "second = 1000000000"

definition env_auth :: "bff_env \<Rightarrow> AuthConfig" where
  "env_auth ev =
     \<lparr>Secret = ev_jwtSecret ev, AccessTokenTTL = 15 * 60 * second,
      RefreshTokenTTL = 7 * 24 * 3600 * second, CookieSecure = ev_cookieSecure ev\<rparr>"

record bff_config =
  cf_auth :: AuthConfig
  cf_contracts :: ServiceClient
  cf_payments :: ServiceClient
  cf_limiter :: RateLimiter

record client_config = bff_config +
  cf_jobs :: ServiceClient
  cf_matching :: ServiceClient

definition service :: "string \<Rightarrow> string \<Rightarrow> ServiceClient" where
  "service url name = \<lparr>BaseURL = url, Name = name\<rparr>"

definition NewRateLimiter :: "int \<Rightarrow> int \<Rightarrow> RateLimiter" where
  "NewRateLimiter rps burst = \<lparr>rl_rate = rps, rl_burst = burst\<rparr>"

definition client_config_of :: "bff_env \<Rightarrow> client_config" where
  "client_config_of ev =
     \<lparr>cf_auth = env_auth ev,
      cf_contracts = service (ev_contractsURL ev) ''contracts'',
      cf_payments = service (ev_paymentsURL ev) ''payments'',
      cf_limiter = NewRateLimiter 100 20,
      cf_jobs = service (ev_jobsURL ev) ''jobs-api'',
      cf_matching = service (ev_matchingURL ev) ''ai-matching''\<rparr>"

section \<open>Handlers\<close>

definition with_query :: "string \<Rightarrow> request \<Rightarrow> string" where
  "with_query path q = (if q_RawQuery q \<noteq> '''' then path @ ''?'' @ q_RawQuery q else path)"

definition client_job_Create :: "'w transport \<Rightarrow> ServiceClient \<Rightarrow> ('l, 'w) handler" where
  "client_job_Create http jobs ctx q = client_Forward http jobs ctx ''POST'' ''/api/v1/jobs'' (Some (q_body q))"

definition client_job_List :: "'w transport \<Rightarrow> ServiceClient \<Rightarrow> ('l, 'w) handler" where
  "client_job_List http jobs ctx q =
     client_Forward http jobs ctx ''GET'' (with_query ''/api/v1/jobs'' q) None"

definition client_job_GetByID :: "'w transport \<Rightarrow> ServiceClient \<Rightarrow> path_values \<Rightarrow> ('l, 'w) handler" where
  "client_job_GetByID http jobs vs ctx q =
     (let i = PathEscape (PathValue vs ''id'') in
      client_Forward http jobs ctx ''GET'' (''/api/v1/jobs/'' @ i) None)"

definition client_FindMatches :: "'w transport \<Rightarrow> ServiceClient \<Rightarrow> path_values \<Rightarrow> ('l, 'w) handler" where
  "client_FindMatches http matching vs ctx q =
     (let i = PathEscape (PathValue vs ''id'') in
      client_Forward http matching ctx ''POST'' (with_query (''/api/v1/match/job/'' @ i) q) (Some (q_body q)))"

definition client_contract_List :: "'w transport \<Rightarrow> ServiceClient \<Rightarrow> ('l, 'w) handler" where
  "client_contract_List http contracts ctx q =
     (let userID = UserIDFrom ctx in
      if userID = '''' then raise (WriteError 401 ''missing user ID'')
      else client_Forward http contracts ctx ''GET'' (''/api/v1/contracts?client_id='' @ QueryEscape userID) None)"

definition client_contract_Create :: "'w transport \<Rightarrow> ServiceClient \<Rightarrow> ('l, 'w) handler" where
  "client_contract_Create http contracts ctx q =
     client_Forward http contracts ctx ''POST'' ''/api/v1/contracts'' (Some (q_body q))"

definition client_contract_GetByID :: "'w transport \<Rightarrow> ServiceClient \<Rightarrow> path_values \<Rightarrow> ('l, 'w) handler" where
  "client_contract_GetByID http contracts vs ctx q =
     (let i = PathEscape (PathValue vs ''id'') in
      client_Forward http contracts ctx ''GET'' (''/api/v1/contracts/'' @ i) None)"

definition client_contract_Accept :: "'w transport \<Rightarrow> ServiceClient \<Rightarrow> path_values \<Rightarrow> ('l, 'w) handler" where
  "client_contract_Accept http contracts vs ctx q =
     (let i = PathEscape (PathValue vs ''id'') in
      client_Forward http contracts ctx ''PUT'' (''/api/v1/contracts/'' @ i @ ''/accept'') (Some (q_body q)))"

definition client_contract_Complete :: "'w transport \<Rightarrow> ServiceClient \<Rightarrow> path_values \<Rightarrow> ('l, 'w) handler" where
  "client_contract_Complete http contracts vs ctx q =
     (let i = PathEscape (PathValue vs ''id'') in
      client_Forward http contracts ctx ''PUT'' (''/api/v1/contracts/'' @ i @ ''/complete'') (Some (q_body q)))"

definition client_contract_Cancel :: "'w transport \<Rightarrow> ServiceClient \<Rightarrow> path_values \<Rightarrow> ('l, 'w) handler" where
  "client_contract_Cancel http contracts vs ctx q =
     (let i = PathEscape (PathValue vs ''id'') in
      client_Forward http contracts ctx ''PUT'' (''/api/v1/contracts/'' @ i @ ''/cancel'') (Some (q_body q)))"

definition client_GetBalance :: "'w transport \<Rightarrow> ServiceClient \<Rightarrow> ('l, 'w) handler" where
  "client_GetBalance http payments ctx q =
     (let userID = UserIDFrom ctx in
      if userID = '''' then raise (WriteError 401 ''missing user ID'')
      else client_Forward http payments ctx ''GET'' (''/api/v1/payments/wallet/'' @ PathEscape userID) None)"

section \<open>Routes\<close>

abbreviation api :: "segment list \<Rightarrow> segment list" where
  "api p \<equiv> Lit ''api'' # Lit ''v1'' # p"

definition client_job_routes ::
  "'w transport \<Rightarrow> ServiceClient \<Rightarrow> ctx \<Rightarrow> request \<Rightarrow> (('l, 'w, reply) bff_prog) routes" where
  "client_job_routes http jobs ctx q =
     [(''POST'', api [Lit ''jobs''], \<lambda>_. client_job_Create http jobs ctx q),
      (''GET'', api [Lit ''jobs''], \<lambda>_. client_job_List http jobs ctx q),
      (''GET'', api [Lit ''jobs'', Wild ''id''], \<lambda>vs. client_job_GetByID http jobs vs ctx q)]"

definition client_match_routes ::
  "'w transport \<Rightarrow> ServiceClient \<Rightarrow> ctx \<Rightarrow> request \<Rightarrow> (('l, 'w, reply) bff_prog) routes" where
  "client_match_routes http matching ctx q =
     [(''POST'', api [Lit ''jobs'', Wild ''id'', Lit ''matches''], \<lambda>vs. client_FindMatches http matching vs ctx q)]"

definition client_contract_routes ::
  "'w transport \<Rightarrow> ServiceClient \<Rightarrow> ctx \<Rightarrow> request \<Rightarrow> (('l, 'w, reply) bff_prog) routes" where
  "client_contract_routes http contracts ctx q =
     [(''GET'', api [Lit ''contracts''], \<lambda>_. client_contract_List http contracts ctx q),
      (''POST'', api [Lit ''contracts''], \<lambda>_. client_contract_Create http contracts ctx q),
      (''GET'', api [Lit ''contracts'', Wild ''id''], \<lambda>vs. client_contract_GetByID http contracts vs ctx q),
      (''PUT'', api [Lit ''contracts'', Wild ''id'', Lit ''accept''], \<lambda>vs. client_contract_Accept http contracts vs ctx q),
      (''PUT'', api [Lit ''contracts'', Wild ''id'', Lit ''complete''], \<lambda>vs. client_contract_Complete http contracts vs ctx q),
      (''PUT'', api [Lit ''contracts'', Wild ''id'', Lit ''cancel''], \<lambda>vs. client_contract_Cancel http contracts vs ctx q)]"

definition client_payment_routes ::
  "'w transport \<Rightarrow> ServiceClient \<Rightarrow> ctx \<Rightarrow> request \<Rightarrow> (('l, 'w, reply) bff_prog) routes" where
  "client_payment_routes http payments ctx q =
     [(''GET'', api [Lit ''wallet''], \<lambda>_. client_GetBalance http payments ctx q)]"

section \<open>The service\<close>

text \<open>
  The libraries' parameters in one record. \<open>lib_metrics\<close> is what the Prometheus handler writes.
\<close>

record ('l, 'w) libs =
  lib_jwt :: jwt_lib
  lib_limiter :: "'l limiter_lib"
  lib_http :: "'w transport"
  lib_metrics :: "string \<times> payload"

text \<open>
  The outer mux, the same in the three services: health, metrics, log-in, and everything under
  \<open>/api/\<close> behind the middleware. Requests \<open>ServeMux\<close> answers with a redirect (to the cleaned
  path, or from \<open>/api\<close> to \<open>/api/\<close>) are not among the model's.
\<close>

definition health :: reply where
  "health = WriteJSON 200 (JObj [(''status'', JStr ''ok'')])"

definition metrics :: "string \<times> payload \<Rightarrow> reply" where
  "metrics m = \<lparr>r_status = 200, r_content_type = fst m, r_cookies = [], r_body = snd m\<rparr>"

definition outer_routes :: "('l, 'w) libs \<Rightarrow> AuthConfig \<Rightarrow> request \<Rightarrow> (('l, 'w, reply) bff_prog) routes" where
  "outer_routes L a q =
     (''GET'', [Lit ''health''], \<lambda>_. ret health) #
     (''GET'', [Lit ''metrics''], \<lambda>_. ret (metrics (lib_metrics L))) #
     auth_routes (lib_jwt L) a q"

definition outer_mux :: "('l, 'w) libs \<Rightarrow> AuthConfig \<Rightarrow> ('l, 'w) handler \<Rightarrow> ('l, 'w) handler" where
  "outer_mux L a protected ctx q =
     (case q_path q of
        s # _ # _ \<Rightarrow> if s = ''api'' then protected ctx q else serve_mux (outer_routes L a q) q
      | _ \<Rightarrow> serve_mux (outer_routes L a q) q)"

definition client_api :: "('l, 'w) libs \<Rightarrow> client_config \<Rightarrow> ('l, 'w) handler" where
  "client_api L cf ctx q =
     serve_mux
      (client_job_routes (lib_http L) (cf_jobs cf) ctx q @
       client_match_routes (lib_http L) (cf_matching cf) ctx q @
       client_contract_routes (lib_http L) (cf_contracts cf) ctx q @
       client_payment_routes (lib_http L) (cf_payments cf) ctx q) q"

definition client_protected :: "('l, 'w) libs \<Rightarrow> client_config \<Rightarrow> ('l, 'w) handler" where
  "client_protected L cf =
     JWTMiddleware (lib_jwt L) (cf_auth cf)
       (RateLimiter_Middleware (lib_limiter L) (cf_limiter cf) (client_api L cf))"

definition client_serve :: "('l, 'w) libs \<Rightarrow> client_config \<Rightarrow> request \<Rightarrow> ('l, 'w) bff \<Rightarrow> reply \<times> ('l, 'w) bff" where
  "client_serve L cf q = RequestLogger (outer_mux L (cf_auth cf) (client_protected L cf)) [] q"

end
