(* ===== verification/BffServices.thy ===== *)
theory BffServices
  imports BffClientService
begin

text \<open>The BFFs of freelancers and of administrators (services/bff/freelancer, services/bff/admin).\<close>

section \<open>Freelancers\<close>

definition freelancer_env :: "(string \<Rightarrow> string) \<Rightarrow> bff_env" where
  "freelancer_env getenv = bff_env_from getenv ''8011''"

record freelancer_config = bff_config +
  fc_matching :: ServiceClient

definition freelancer_config_of :: "bff_env \<Rightarrow> freelancer_config" where
  "freelancer_config_of ev =
     \<lparr>cf_auth = env_auth ev,
      cf_contracts = service (ev_contractsURL ev) ''contracts'',
      cf_payments = service (ev_paymentsURL ev) ''payments'',
      cf_limiter = NewRateLimiter 100 20,
      fc_matching = service (ev_matchingURL ev) ''ai-matching''\<rparr>"

definition freelancer_FindJobMatches :: "'w transport \<Rightarrow> ServiceClient \<Rightarrow> ('l, 'w) handler" where
  "freelancer_FindJobMatches http matching ctx q =
     (let asked = query_get (q_RawQuery q) ''profile_id'';
          profileID = (if asked = '''' then UserIDFrom ctx else asked);
          topK = query_get (q_RawQuery q) ''top_k'';
          path = ''/api/v1/match/profile/'' @ PathEscape profileID in
      if profileID = '''' then raise (WriteError 401 ''missing user ID'')
      else client_Forward http matching ctx ''POST''
        (if topK \<noteq> '''' then path @ ''?top_k='' @ QueryEscape topK else path) (Some (q_body q)))"

definition freelancer_contract_List :: "'w transport \<Rightarrow> ServiceClient \<Rightarrow> ('l, 'w) handler" where
  "freelancer_contract_List http contracts ctx q =
     (let userID = UserIDFrom ctx in
      if userID = '''' then raise (WriteError 401 ''missing user ID'')
      else client_Forward http contracts ctx ''GET'' (''/api/v1/contracts?freelancer_id='' @ QueryEscape userID) None)"

definition freelancer_contract_GetByID :: "'w transport \<Rightarrow> ServiceClient \<Rightarrow> path_values \<Rightarrow> ('l, 'w) handler" where
  "freelancer_contract_GetByID http contracts vs ctx q =
     (let i = PathEscape (PathValue vs ''id'') in
      client_Forward http contracts ctx ''GET'' (''/api/v1/contracts/'' @ i) None)"

definition freelancer_contract_Accept :: "'w transport \<Rightarrow> ServiceClient \<Rightarrow> path_values \<Rightarrow> ('l, 'w) handler" where
  "freelancer_contract_Accept http contracts vs ctx q =
     (let i = PathEscape (PathValue vs ''id'') in
      client_Forward http contracts ctx ''PUT'' (''/api/v1/contracts/'' @ i @ ''/accept'') (Some (q_body q)))"

definition freelancer_GetBalance :: "'w transport \<Rightarrow> ServiceClient \<Rightarrow> ('l, 'w) handler" where
  "freelancer_GetBalance http payments ctx q =
     (let userID = UserIDFrom ctx in
      if userID = '''' then raise (WriteError 401 ''missing user ID'')
      else client_Forward http payments ctx ''GET'' (''/api/v1/payments/wallet/'' @ PathEscape userID) None)"

definition freelancer_match_routes ::
  "'w transport \<Rightarrow> ServiceClient \<Rightarrow> ctx \<Rightarrow> request \<Rightarrow> (('l, 'w, reply) bff_prog) routes" where
  "freelancer_match_routes http matching ctx q =
     [(''POST'', api [Lit ''matches''], \<lambda>_. freelancer_FindJobMatches http matching ctx q)]"

definition freelancer_contract_routes ::
  "'w transport \<Rightarrow> ServiceClient \<Rightarrow> ctx \<Rightarrow> request \<Rightarrow> (('l, 'w, reply) bff_prog) routes" where
  "freelancer_contract_routes http contracts ctx q =
     [(''GET'', api [Lit ''contracts''], \<lambda>_. freelancer_contract_List http contracts ctx q),
      (''GET'', api [Lit ''contracts'', Wild ''id''], \<lambda>vs. freelancer_contract_GetByID http contracts vs ctx q),
      (''PUT'', api [Lit ''contracts'', Wild ''id'', Lit ''accept''], \<lambda>vs. freelancer_contract_Accept http contracts vs ctx q)]"

definition freelancer_payment_routes ::
  "'w transport \<Rightarrow> ServiceClient \<Rightarrow> ctx \<Rightarrow> request \<Rightarrow> (('l, 'w, reply) bff_prog) routes" where
  "freelancer_payment_routes http payments ctx q =
     [(''GET'', api [Lit ''wallet''], \<lambda>_. freelancer_GetBalance http payments ctx q)]"

definition freelancer_api :: "('l, 'w) libs \<Rightarrow> freelancer_config \<Rightarrow> ('l, 'w) handler" where
  "freelancer_api L cf ctx q =
     serve_mux
      (freelancer_match_routes (lib_http L) (fc_matching cf) ctx q @
       freelancer_contract_routes (lib_http L) (cf_contracts cf) ctx q @
       freelancer_payment_routes (lib_http L) (cf_payments cf) ctx q) q"

definition freelancer_protected :: "('l, 'w) libs \<Rightarrow> freelancer_config \<Rightarrow> ('l, 'w) handler" where
  "freelancer_protected L cf =
     JWTMiddleware (lib_jwt L) (cf_auth cf)
       (RateLimiter_Middleware (lib_limiter L) (cf_limiter cf) (freelancer_api L cf))"

definition freelancer_serve ::
  "('l, 'w) libs \<Rightarrow> freelancer_config \<Rightarrow> request \<Rightarrow> ('l, 'w) bff \<Rightarrow> reply \<times> ('l, 'w) bff" where
  "freelancer_serve L cf q = RequestLogger (outer_mux L (cf_auth cf) (freelancer_protected L cf)) [] q"

section \<open>Administrators\<close>

definition admin_env :: "(string \<Rightarrow> string) \<Rightarrow> bff_env" where
  "admin_env getenv = bff_env_from getenv ''8012''"

record admin_config = bff_config +
  ac_jobs :: ServiceClient

definition admin_config_of :: "bff_env \<Rightarrow> admin_config" where
  "admin_config_of ev =
     \<lparr>cf_auth = env_auth ev,
      cf_contracts = service (ev_contractsURL ev) ''contracts'',
      cf_payments = service (ev_paymentsURL ev) ''payments'',
      cf_limiter = NewRateLimiter 100 20,
      ac_jobs = service (ev_jobsURL ev) ''jobs-api''\<rparr>"

definition admin_job_List :: "'w transport \<Rightarrow> ServiceClient \<Rightarrow> ('l, 'w) handler" where
  "admin_job_List http jobs ctx q =
     client_Forward http jobs ctx ''GET'' (with_query ''/api/v1/jobs'' q) None"

definition admin_job_GetByID :: "'w transport \<Rightarrow> ServiceClient \<Rightarrow> path_values \<Rightarrow> ('l, 'w) handler" where
  "admin_job_GetByID http jobs vs ctx q =
     (let i = PathValue vs ''id'' in
      client_Forward http jobs ctx ''GET'' (''/api/v1/jobs/'' @ i) None)"

definition admin_contract_List :: "'w transport \<Rightarrow> ServiceClient \<Rightarrow> ('l, 'w) handler" where
  "admin_contract_List http contracts ctx q =
     client_Forward http contracts ctx ''GET'' (with_query ''/api/v1/contracts'' q) None"

definition admin_contract_GetByID :: "'w transport \<Rightarrow> ServiceClient \<Rightarrow> path_values \<Rightarrow> ('l, 'w) handler" where
  "admin_contract_GetByID http contracts vs ctx q =
     (let i = PathValue vs ''id'' in
      client_Forward http contracts ctx ''GET'' (''/api/v1/contracts/'' @ i) None)"

definition admin_wallet_List :: "'w transport \<Rightarrow> ServiceClient \<Rightarrow> ('l, 'w) handler" where
  "admin_wallet_List http payments ctx q =
     client_Forward http payments ctx ''GET'' (with_query ''/api/v1/payments/wallets'' q) None"

section \<open>The dashboard\<close>

text \<open>Decoding \<open>{"total": n}\<close> into an \<open>int\<close>, as \<open>scan_string\<close> does for strings.\<close>

fun scan_int :: "string \<Rightarrow> (string \<times> json) list \<Rightarrow> bool \<times> int \<Rightarrow> bool \<times> int" where
  "scan_int name [] (bad, v) = (bad, v)"
| "scan_int name ((k, j) # rest) (bad, v) =
     (if to_lower k = name then
        (case j of
           JNum n \<Rightarrow> if - (2 ^ 63) \<le> n \<and> n < 2 ^ 63 then scan_int name rest (bad, n)
                     else scan_int name rest (True, v)
         | JNull \<Rightarrow> scan_int name rest (bad, v)
         | _ \<Rightarrow> scan_int name rest (True, v))
      else scan_int name rest (bad, v))"

definition decode_total :: "payload \<Rightarrow> int option" where
  "decode_total p =
     (case p of
        Json JNull \<Rightarrow> Some 0
      | Json (JObj members) \<Rightarrow>
          (case scan_int ''total'' members (False, 0) of (bad, v) \<Rightarrow> if bad then None else Some v)
      | _ \<Rightarrow> None)"

record serviceStats =
  ss_Total :: int
  ss_Error :: string

datatype stat = StatJobs | StatContracts | StatWallets

text \<open>
  \<open>Stats\<close> starts three goroutines and waits for them. Each fetches one total, locks the mutex,
  writes its part of the response, and runs its deferred calls, the last one first: \<open>mu.Unlock\<close>,
  then \<open>wg.Done\<close>. A program counter names what a goroutine does next; the request to the upstream
  service with its answer is one move, as it is for all callers of \<open>client_Do\<close>.
\<close>

datatype fetch_pc =
    Requesting
  | Locking "do_err + int"
  | Writing "do_err + int"
  | Unlocking
  | Finishing
  | Gone

record dashboard =
  d_pc :: "stat \<Rightarrow> fetch_pc"
  d_mu :: bool
  d_wg :: int
  d_resp :: "stat \<Rightarrow> serviceStats"
  d_reply :: "reply option"

datatype thread = Handler | Goroutine stat

definition stat_client :: "admin_config \<Rightarrow> stat \<Rightarrow> ServiceClient" where
  "stat_client cf t = (case t of StatJobs \<Rightarrow> ac_jobs cf | StatContracts \<Rightarrow> cf_contracts cf | StatWallets \<Rightarrow> cf_payments cf)"

definition stat_path :: "stat \<Rightarrow> string" where
  "stat_path t = (case t of StatJobs \<Rightarrow> ''/api/v1/jobs?limit=1''
     | StatContracts \<Rightarrow> ''/api/v1/contracts?limit=1''
     | StatWallets \<Rightarrow> ''/api/v1/payments/wallets?limit=1'')"

definition fetched :: "ServiceClient \<Rightarrow> do_err + int \<Rightarrow> serviceStats \<Rightarrow> serviceStats" where
  "fetched c result target =
     (case result of Inl _ \<Rightarrow> target\<lparr>ss_Error := Name c @ '' unavailable''\<rparr>
      | Inr n \<Rightarrow> target\<lparr>ss_Total := n\<rparr>)"

definition goes :: "stat \<Rightarrow> fetch_pc \<Rightarrow> dashboard \<Rightarrow> dashboard" where
  "goes t pc d = d\<lparr>d_pc := (d_pc d)(t := pc)\<rparr>"

text \<open>One move of a goroutine; one that finds the mutex locked stays where it is.\<close>

definition fetch ::
  "'w transport \<Rightarrow> admin_config \<Rightarrow> ctx \<Rightarrow> stat \<Rightarrow> dashboard \<Rightarrow> (('l, 'w) bff, reply, dashboard) prog" where
  "fetch http cf ctx t d =
     (case d_pc d t of
        Requesting \<Rightarrow>
          bnd (attempt (client_Do http (stat_client cf t) ctx ''GET'' (stat_path t) None decode_total)) (\<lambda>result.
          ret (goes t (Locking result) d))
      | Locking result \<Rightarrow> ret (if d_mu d then d else goes t (Writing result) (d\<lparr>d_mu := True\<rparr>))
      | Writing result \<Rightarrow>
          ret (goes t Unlocking
            (d\<lparr>d_resp := (d_resp d)(t := fetched (stat_client cf t) result (d_resp d t))\<rparr>))
      | Unlocking \<Rightarrow> ret (goes t Finishing (d\<lparr>d_mu := False\<rparr>))
      | Finishing \<Rightarrow> ret (goes t Gone (d\<lparr>d_wg := d_wg d - 1\<rparr>))
      | Gone \<Rightarrow> ret d)"

definition stats_json :: "serviceStats \<Rightarrow> json" where
  "stats_json st = JObj ((''total'', JNum (ss_Total st)) #
     (if ss_Error st = '''' then [] else [(''error'', JStr (ss_Error st))]))"

definition dashboard_json :: "(stat \<Rightarrow> serviceStats) \<Rightarrow> json" where
  "dashboard_json resp =
     JObj [(''jobs'', stats_json (resp StatJobs)), (''contracts'', stats_json (resp StatContracts)),
           (''wallets'', stats_json (resp StatWallets))]"

text \<open>The handler's own move: \<open>wg.Wait\<close> holds it until the counter is 0, then it replies.\<close>

definition await :: "dashboard \<Rightarrow> dashboard" where
  "await d =
     (if d_wg d = 0 \<and> d_reply d = None
      then d\<lparr>d_reply := Some (WriteJSON 200 (dashboard_json (d_resp d)))\<rparr> else d)"

fun dashboard_run ::
  "'w transport \<Rightarrow> admin_config \<Rightarrow> ctx \<Rightarrow> thread list \<Rightarrow> dashboard \<Rightarrow> (('l, 'w) bff, reply, dashboard) prog" where
  "dashboard_run http cf ctx [] d = ret d"
| "dashboard_run http cf ctx (Handler # ts) d = dashboard_run http cf ctx ts (await d)"
| "dashboard_run http cf ctx (Goroutine t # ts) d =
     bnd (fetch http cf ctx t d) (\<lambda>d'. dashboard_run http cf ctx ts d')"

text \<open>After \<open>wg.Add(3)\<close> and the three \<open>go\<close> statements.\<close>

definition dashboard_start :: dashboard where
  "dashboard_start =
     \<lparr>d_pc = (\<lambda>_. Requesting), d_mu = False, d_wg = 3,
      d_resp = (\<lambda>_. \<lparr>ss_Total = 0, ss_Error = ''''\<rparr>), d_reply = None\<rparr>"

text \<open>
  The threads move in the order of a schedule, which may be any, and after it in turn; fifteen
  rounds are enough for all goroutines to end (\<open>dashboard_ends\<close>), so there always is a reply.
\<close>

definition fair_rounds :: "thread list" where
  "fair_rounds =
     concat (replicate 15 [Goroutine StatJobs, Goroutine StatContracts, Goroutine StatWallets]) @ [Handler]"

definition dashboard_Stats :: "'w transport \<Rightarrow> admin_config \<Rightarrow> thread list \<Rightarrow> ('l, 'w) handler" where
  "dashboard_Stats http cf schedule ctx q =
     bnd (dashboard_run http cf ctx (schedule @ fair_rounds) dashboard_start) (\<lambda>d. ret (the (d_reply d)))"

section \<open>The administrators' service\<close>

definition admin_job_routes ::
  "'w transport \<Rightarrow> ServiceClient \<Rightarrow> ctx \<Rightarrow> request \<Rightarrow> (('l, 'w, reply) bff_prog) routes" where
  "admin_job_routes http jobs ctx q =
     [(''GET'', api [Lit ''jobs''], \<lambda>_. admin_job_List http jobs ctx q),
      (''GET'', api [Lit ''jobs'', Wild ''id''], \<lambda>vs. admin_job_GetByID http jobs vs ctx q)]"

definition admin_contract_routes ::
  "'w transport \<Rightarrow> ServiceClient \<Rightarrow> ctx \<Rightarrow> request \<Rightarrow> (('l, 'w, reply) bff_prog) routes" where
  "admin_contract_routes http contracts ctx q =
     [(''GET'', api [Lit ''contracts''], \<lambda>_. admin_contract_List http contracts ctx q),
      (''GET'', api [Lit ''contracts'', Wild ''id''], \<lambda>vs. admin_contract_GetByID http contracts vs ctx q)]"

definition admin_wallet_routes ::
  "'w transport \<Rightarrow> ServiceClient \<Rightarrow> ctx \<Rightarrow> request \<Rightarrow> (('l, 'w, reply) bff_prog) routes" where
  "admin_wallet_routes http payments ctx q =
     [(''GET'', api [Lit ''wallets''], \<lambda>_. admin_wallet_List http payments ctx q)]"

definition dashboard_routes ::
  "'w transport \<Rightarrow> admin_config \<Rightarrow> thread list \<Rightarrow> ctx \<Rightarrow> request \<Rightarrow> (('l, 'w, reply) bff_prog) routes" where
  "dashboard_routes http cf schedule ctx q =
     [(''GET'', api [Lit ''dashboard'', Lit ''stats''], \<lambda>_. dashboard_Stats http cf schedule ctx q)]"

definition admin_api :: "('l, 'w) libs \<Rightarrow> admin_config \<Rightarrow> thread list \<Rightarrow> ('l, 'w) handler" where
  "admin_api L cf schedule ctx q =
     serve_mux
      (admin_job_routes (lib_http L) (ac_jobs cf) ctx q @
       admin_contract_routes (lib_http L) (cf_contracts cf) ctx q @
       admin_wallet_routes (lib_http L) (cf_payments cf) ctx q @
       dashboard_routes (lib_http L) cf schedule ctx q) q"

definition admin_protected :: "('l, 'w) libs \<Rightarrow> admin_config \<Rightarrow> thread list \<Rightarrow> ('l, 'w) handler" where
  "admin_protected L cf schedule =
     JWTMiddleware (lib_jwt L) (cf_auth cf)
       (RequireRole ''admin''
         (RateLimiter_Middleware (lib_limiter L) (cf_limiter cf) (admin_api L cf schedule)))"

definition admin_serve ::
  "('l, 'w) libs \<Rightarrow> admin_config \<Rightarrow> thread list \<Rightarrow> request \<Rightarrow> ('l, 'w) bff \<Rightarrow> reply \<times> ('l, 'w) bff" where
  "admin_serve L cf schedule q =
     RequestLogger (outer_mux L (cf_auth cf) (admin_protected L cf schedule)) [] q"

end
