(* ===== verification/BffDashboard.thy ===== *)
theory BffDashboard
  imports BffServices
begin

text \<open>
  The administrators' dashboard: however its three goroutines and its handler interleave, the
  handler comes to a reply, and it is the one of asking the three services one after the other in
  some order.
\<close>

section \<open>One service after the other\<close>

definition ask ::
  "'w transport \<Rightarrow> ctx \<Rightarrow> ServiceClient \<Rightarrow> string \<Rightarrow> ('l, 'w) bff \<Rightarrow> serviceStats \<times> ('l, 'w) bff" where
  "ask http ctx c path s =
     (case client_Do http c ctx ''GET'' path None decode_total s of
        (Inl _, s') \<Rightarrow> (\<lparr>ss_Total = 0, ss_Error = Name c @ '' unavailable''\<rparr>, s')
      | (Inr n, s') \<Rightarrow> (\<lparr>ss_Total = n, ss_Error = ''''\<rparr>, s'))"

definition ask_for ::
  "'w transport \<Rightarrow> admin_config \<Rightarrow> ctx \<Rightarrow> stat \<Rightarrow> ('l, 'w) bff \<Rightarrow> serviceStats \<times> ('l, 'w) bff" where
  "ask_for http cf ctx t =
     (case t of
        StatJobs \<Rightarrow> ask http ctx (ac_jobs cf) ''/api/v1/jobs?limit=1''
      | StatContracts \<Rightarrow> ask http ctx (cf_contracts cf) ''/api/v1/contracts?limit=1''
      | StatWallets \<Rightarrow> ask http ctx (cf_payments cf) ''/api/v1/payments/wallets?limit=1'')"

fun ask_each ::
  "'w transport \<Rightarrow> admin_config \<Rightarrow> ctx \<Rightarrow> stat list \<Rightarrow> (stat \<Rightarrow> serviceStats) \<Rightarrow> ('l, 'w) bff
   \<Rightarrow> (stat \<Rightarrow> serviceStats) \<times> ('l, 'w) bff" where
  "ask_each http cf ctx [] f s = (f, s)"
| "ask_each http cf ctx (t # ts) f s =
     (case ask_for http cf ctx t s of (x, s') \<Rightarrow> ask_each http cf ctx ts (f(t := x)) s')"

definition blank :: "stat \<Rightarrow> serviceStats" where
  "blank = (\<lambda>_. \<lparr>ss_Total = 0, ss_Error = ''''\<rparr>)"

lemma ask_each_snoc:
  "ask_each http cf ctx (ts @ [t]) f s =
    (case ask_each http cf ctx ts f s of (g, s1) \<Rightarrow> case ask_for http cf ctx t s1 of (x, s2) \<Rightarrow> (g(t := x), s2))"
  by (induction ts arbitrary: f s) (simp_all split: prod.split)

text \<open>What a goroutine makes of its request is what asking gives.\<close>

lemma client_Do_ask:
  assumes "client_Do http (stat_client cf t) ctx ''GET'' (stat_path t) None decode_total s = (r, s')"
  shows "ask_for http cf ctx t s = (fetched (stat_client cf t) r (blank t), s')"
  using assms
  by (cases t) (auto simp: ask_for_def ask_def stat_client_def stat_path_def fetched_def blank_def split: sum.split)

section \<open>The invariant\<close>

definition critical :: "fetch_pc \<Rightarrow> bool" where
  "critical pc \<longleftrightarrow> (case pc of Writing _ \<Rightarrow> True | Unlocking \<Rightarrow> True | _ \<Rightarrow> False)"

definition stats :: "stat list" where
  "stats = [StatJobs, StatContracts, StatWallets]"

lemma set_stats: "t \<in> set stats"
  by (cases t) (simp_all add: stats_def)

text \<open>The mutex is locked while one goroutine, and only one, is in its critical section; the counter
  is the number of goroutines that have not ended.\<close>

definition sync_ok :: "dashboard \<Rightarrow> bool" where
  "sync_ok d \<longleftrightarrow>
     length (filter (\<lambda>t. critical (d_pc d t)) stats) = (if d_mu d then 1 else 0) \<and>
     d_wg d = int (length (filter (\<lambda>t. d_pc d t \<noteq> Gone) stats))"

text \<open>\<open>X\<close> is what has been asked for: a goroutine carries it until it has written it.\<close>

definition data_ok :: "admin_config \<Rightarrow> (stat \<Rightarrow> serviceStats) \<Rightarrow> dashboard \<Rightarrow> bool" where
  "data_ok cf X d \<longleftrightarrow>
     (\<forall>t. case d_pc d t of
        Requesting \<Rightarrow> d_resp d t = blank t
      | Locking r \<Rightarrow> d_resp d t = blank t \<and> X t = fetched (stat_client cf t) r (blank t)
      | Writing r \<Rightarrow> d_resp d t = blank t \<and> X t = fetched (stat_client cf t) r (blank t)
      | _ \<Rightarrow> d_resp d t = X t) \<and>
     (\<forall>r. d_reply d = Some r \<longrightarrow> (\<forall>t. d_pc d t = Gone) \<and> r = WriteJSON 200 (dashboard_json X))"

definition dash_inv ::
  "'w transport \<Rightarrow> admin_config \<Rightarrow> ctx \<Rightarrow> ('l, 'w) bff \<Rightarrow> stat list \<Rightarrow> dashboard \<Rightarrow> ('l, 'w) bff \<Rightarrow> bool" where
  "dash_inv http cf ctx s0 ts d s \<longleftrightarrow>
     sync_ok d \<and> distinct ts \<and> (\<forall>t. t \<in> set ts \<longleftrightarrow> d_pc d t \<noteq> Requesting) \<and>
     (\<exists>X. ask_each http cf ctx ts blank s0 = (X, s) \<and> data_ok cf X d)"

lemma dash_start: "dash_inv http cf ctx s [] dashboard_start s"
  by (simp add: dash_inv_def sync_ok_def data_ok_def dashboard_start_def stats_def critical_def blank_def)

lemma all_gone: "sync_ok d \<Longrightarrow> d_wg d = 0 \<longleftrightarrow> (\<forall>t. d_pc d t = Gone)"
  using set_stats by (auto simp: sync_ok_def filter_empty_conv)

lemma await_inv:
  assumes "dash_inv http cf ctx s0 ts d s"
  shows "dash_inv http cf ctx s0 ts (await d) s"
proof (cases "d_wg d = 0 \<and> d_reply d = None")
  case True
  with assms have "\<forall>t. d_pc d t = Gone" by (auto simp: dash_inv_def all_gone)
  moreover from this assms have "d_resp d = X" if "data_ok cf X d" for X
    using that by (auto simp: data_ok_def)
  ultimately show ?thesis using assms True
    by (auto simp: dash_inv_def await_def sync_ok_def data_ok_def)
next
  case False
  then have "await d = d" by (auto simp: await_def)
  with assms show ?thesis by simp
qed

text \<open>The moves of a goroutine, one by one.\<close>

lemma sync_move:
  assumes "sync_ok d"
  shows "d_pc d t = Requesting \<Longrightarrow> sync_ok (goes t (Locking r) d)"
    "d_pc d t = Locking r \<Longrightarrow> \<not> d_mu d \<Longrightarrow> sync_ok (goes t (Writing r) (d\<lparr>d_mu := True\<rparr>))"
    "d_pc d t = Writing r \<Longrightarrow> sync_ok (goes t Unlocking (d\<lparr>d_resp := f\<rparr>))"
    "d_pc d t = Unlocking \<Longrightarrow> sync_ok (goes t Finishing (d\<lparr>d_mu := False\<rparr>))"
    "d_pc d t = Finishing \<Longrightarrow> sync_ok (goes t Gone (d\<lparr>d_wg := d_wg d - 1\<rparr>))"
  using assms
  by (cases t; auto simp: sync_ok_def stats_def goes_def critical_def split: if_splits)+

lemma data_move:
  assumes "data_ok cf X d" "d_reply d = None"
  shows "d_pc d t = Requesting \<Longrightarrow> data_ok cf (X(t := fetched (stat_client cf t) r (blank t))) (goes t (Locking r) d)"
    "d_pc d t = Locking r \<Longrightarrow> data_ok cf X (goes t (Writing r) (d\<lparr>d_mu := True\<rparr>))"
    "d_pc d t = Writing r \<Longrightarrow>
      data_ok cf X (goes t Unlocking (d\<lparr>d_resp := (d_resp d)(t := fetched (stat_client cf t) r (d_resp d t))\<rparr>))"
    "d_pc d t = Unlocking \<Longrightarrow> data_ok cf X (goes t Finishing (d\<lparr>d_mu := False\<rparr>))"
    "d_pc d t = Finishing \<Longrightarrow> data_ok cf X (goes t Gone (d\<lparr>d_wg := n\<rparr>))"
  using assms by (auto simp: data_ok_def goes_def split: fetch_pc.splits)

lemma data_reply: "data_ok cf X d \<Longrightarrow> d_pc d t \<noteq> Gone \<Longrightarrow> d_reply d = None"
  by (cases "d_reply d") (auto simp: data_ok_def)

lemma fetch_inv:
  assumes inv: "dash_inv http cf ctx s0 ts d s" and run: "fetch http cf ctx t d s = (q, s')"
  obtains d' ts' where "q = Inr d'" "dash_inv http cf ctx s0 ts' d' s'"
proof -
  obtain X where X: "ask_each http cf ctx ts blank s0 = (X, s)" "data_ok cf X d" and ts: "distinct ts"
    "\<forall>t. t \<in> set ts \<longleftrightarrow> d_pc d t \<noteq> Requesting" and sync: "sync_ok d"
    using inv by (auto simp: dash_inv_def)
  consider "d_pc d t = Gone" | "d_pc d t = Requesting" | "d_pc d t \<noteq> Gone" "d_pc d t \<noteq> Requesting" by blast
  then show thesis
  proof cases
    case 1
    with run inv show thesis by (intro that) (auto simp: fetch_def ret_def)
  next
    case asks: 2
    then have "d_reply d = None" using data_reply [OF X(2), of t] by simp
    note steps = sync_move [OF sync] data_move [OF X(2) this]
    obtain r s1 where do: "client_Do http (stat_client cf t) ctx ''GET'' (stat_path t) None decode_total s = (r, s1)"
      by fastforce
    with run asks have q: "q = Inr (goes t (Locking r) d)" "s' = s1"
      by (auto simp: fetch_def bnd_def attempt_def ret_def)
    have "ask_each http cf ctx (ts @ [t]) blank s0 = (X(t := fetched (stat_client cf t) r (blank t)), s')"
      by (simp add: ask_each_snoc X(1) client_Do_ask [OF do] q(2))
    moreover have "distinct (ts @ [t])" "\<forall>u. u \<in> set (ts @ [t]) \<longleftrightarrow> d_pc (goes t (Locking r) d) u \<noteq> Requesting"
      using ts asks by (auto simp: goes_def)
    ultimately have "dash_inv http cf ctx s0 (ts @ [t]) (goes t (Locking r) d) s'"
      using steps(1,6) [OF asks] unfolding dash_inv_def by blast
    with q(1) show thesis by (rule that)
  next
    case moves: 3
    then have "d_reply d = None" using data_reply [OF X(2), of t] by simp
    note steps = sync_move [OF sync] data_move [OF X(2) this]
    have same: "dash_inv http cf ctx s0 ts (goes t pc d1) s"
      if "sync_ok (goes t pc d1)" "data_ok cf X (goes t pc d1)" "d_pc d1 = d_pc d" "pc \<noteq> Requesting" for pc d1
      using that ts X moves by (auto simp: dash_inv_def goes_def)
    have "\<exists>d'. q = Inr d' \<and> dash_inv http cf ctx s0 ts d' s'"
    proof (cases "d_pc d t")
      case (Locking r)
      with run inv same [OF steps(2,7) [OF Locking]] show ?thesis by (auto simp: fetch_def ret_def)
    next
      case (Writing r)
      with run same [OF steps(3,8) [OF Writing]] show ?thesis by (auto simp: fetch_def ret_def)
    next
      case Unlocking
      with run same [OF steps(4,9) [OF Unlocking]] show ?thesis by (auto simp: fetch_def ret_def)
    next
      case Finishing
      with run same [OF steps(5,10) [OF Finishing]] show ?thesis by (auto simp: fetch_def ret_def)
    qed (use moves in simp_all)
    then show thesis using that by blast
  qed
qed

lemma dashboard_run_inv:
  assumes "dash_inv http cf ctx s0 ts d s"
  shows "\<exists>d' ts' s'. dashboard_run http cf ctx ths d s = (Inr d', s') \<and> dash_inv http cf ctx s0 ts' d' s'"
  using assms
proof (induction ths arbitrary: d s ts)
  case Nil
  then show ?case by (auto simp: ret_def)
next
  case (Cons th ths)
  show ?case
  proof (cases th)
    case Handler
    with Cons.IH [OF await_inv [OF Cons.prems]] show ?thesis by simp
  next
    case (Goroutine t)
    obtain q s1 where run: "fetch http cf ctx t d s = (q, s1)" by fastforce
    from fetch_inv [OF Cons.prems run] obtain d1 ts1 where "q = Inr d1" "dash_inv http cf ctx s0 ts1 d1 s1" .
    with Cons.IH [of ts1 d1 s1] run Goroutine show ?thesis by (simp add: bnd_def)
  qed
qed

section \<open>The goroutines end\<close>

text \<open>How many moves are left.\<close>

definition moves_left :: "fetch_pc \<Rightarrow> nat" where
  "moves_left pc = (case pc of Requesting \<Rightarrow> 5 | Locking _ \<Rightarrow> 4 | Writing _ \<Rightarrow> 3 | Unlocking \<Rightarrow> 2 | Finishing \<Rightarrow> 1 | Gone \<Rightarrow> 0)"

definition rank :: "dashboard \<Rightarrow> nat" where
  "rank d = sum_list (map (\<lambda>t. moves_left (d_pc d t)) stats)"

lemma rank_await [simp]: "rank (await d) = rank d"
  by (simp add: rank_def await_def)

definition blocked :: "dashboard \<Rightarrow> stat \<Rightarrow> bool" where
  "blocked d t \<longleftrightarrow> d_pc d t = Gone \<or> d_mu d \<and> (\<exists>r. d_pc d t = Locking r)"

lemma fetch_rank:
  assumes "fetch http cf ctx t d s = (Inr d', s')"
  shows "rank d' < rank d \<and> \<not> blocked d t \<or> d' = d \<and> s' = s \<and> blocked d t"
proof (cases "blocked d t")
  case True
  with assms show ?thesis by (auto simp: fetch_def blocked_def ret_def)
next
  case False
  have "moves_left (d_pc d' t) < moves_left (d_pc d t)" "\<forall>u. u \<noteq> t \<longrightarrow> d_pc d' u = d_pc d u"
    using assms False
    by (auto simp: fetch_def blocked_def ret_def bnd_def attempt_def goes_def moves_left_def
        split: fetch_pc.splits if_splits prod.splits)
  with False show ?thesis by (cases t) (auto simp: rank_def stats_def)
qed

lemma not_all_blocked:
  assumes "sync_ok d" "\<forall>t. blocked d t"
  shows "rank d = 0"
proof -
  have "\<not> critical (d_pc d t)" for t
    using spec [OF assms(2), of t] by (auto simp: blocked_def critical_def)
  with assms(1) have "\<not> d_mu d" by (auto simp: sync_ok_def)
  with assms(2) show ?thesis by (simp add: blocked_def rank_def stats_def moves_left_def)
qed

lemma run_append:
  "dashboard_run http cf ctx (ths @ ths') d = bnd (dashboard_run http cf ctx ths d) (dashboard_run http cf ctx ths')"
proof (induction ths arbitrary: d)
  case Nil
  show ?case by (simp add: bnd_def ret_def fun_eq_iff)
next
  case (Cons th ths)
  then show ?case by (cases th) (auto simp: bnd_def fun_eq_iff split: prod.split sum.split)
qed

lemma run_rank:
  assumes "dashboard_run http cf ctx ths d s = (Inr d', s')"
  shows "rank d' \<le> rank d"
  using assms
proof (induction ths arbitrary: d s)
  case (Cons th ths)
  show ?case
  proof (cases th)
    case Handler
    with Cons show ?thesis by fastforce
  next
    case (Goroutine t)
    with Cons.prems obtain d1 s1 where "fetch http cf ctx t d s = (Inr d1, s1)"
      "dashboard_run http cf ctx ths d1 s1 = (Inr d', s')" by (auto elim!: bnd_InrE)
    with Cons.IH fetch_rank show ?thesis by fastforce
  qed
qed (simp add: ret_def)

text \<open>A round in which nobody moves finds everybody blocked.\<close>

lemma idle_round:
  assumes "dashboard_run http cf ctx (map Goroutine ts) d s = (Inr d', s')" "rank d' = rank d"
  shows "\<forall>t\<in>set ts. blocked d t"
  using assms
proof (induction ts arbitrary: s)
  case (Cons t ts)
  then obtain d1 s1 where run: "fetch http cf ctx t d s = (Inr d1, s1)"
    "dashboard_run http cf ctx (map Goroutine ts) d1 s1 = (Inr d', s')" by (auto elim!: bnd_InrE)
  from fetch_rank [OF run(1)] run_rank [OF run(2)] Cons.prems(2) have "d1 = d" "blocked d t" by auto
  with Cons.IH run(2) Cons.prems(2) show ?case by auto
qed simp

lemma rounds_end:
  assumes "dash_inv http cf ctx s0 ts d s" "rank d \<le> n"
    "dashboard_run http cf ctx (concat (replicate n (map Goroutine stats))) d s = (Inr d', s')"
  shows "rank d' = 0"
  using assms
proof (induction n arbitrary: ts d s)
  case 0
  then show ?case by (simp add: ret_def)
next
  case (Suc n)
  obtain d1 ts1 s1 where one: "dashboard_run http cf ctx (map Goroutine stats) d s = (Inr d1, s1)"
    "dash_inv http cf ctx s0 ts1 d1 s1" using dashboard_run_inv [OF Suc.prems(1)] by blast
  have "rank d1 \<le> n"
  proof (cases "rank d1 = rank d")
    case True
    with idle_round [OF one(1)] set_stats have "\<forall>t. blocked d t" by blast
    with Suc.prems(1) True show ?thesis by (simp add: dash_inv_def not_all_blocked)
  next
    case False
    with run_rank [OF one(1)] Suc.prems(2) show ?thesis by linarith
  qed
  with Suc.IH [OF one(2)] Suc.prems(3) one(1) show ?case by (simp add: run_append bnd_def)
qed

lemma rank_0: "rank d = 0 \<longleftrightarrow> (\<forall>t. d_pc d t = Gone)"
proof
  assume "rank d = 0"
  then have "moves_left (d_pc d t) = 0" for t by (cases t) (simp_all add: rank_def stats_def)
  moreover have "moves_left pc = 0 \<Longrightarrow> pc = Gone" for pc by (cases pc) (simp_all add: moves_left_def)
  ultimately show "\<forall>t. d_pc d t = Gone" by blast
qed (simp add: rank_def moves_left_def stats_def)

lemma dashboard_ends:
  obtains d ts s' where "dashboard_run http cf ctx (schedule @ fair_rounds) dashboard_start s = (Inr d, s')"
    "dash_inv http cf ctx s ts d s'" "set ts = UNIV" "d_reply d \<noteq> None"
proof -
  obtain d1 ts1 s1 where one: "dashboard_run http cf ctx schedule dashboard_start s = (Inr d1, s1)"
    "dash_inv http cf ctx s ts1 d1 s1" using dashboard_run_inv [OF dash_start] by blast
  let ?rounds = "concat (replicate 15 (map Goroutine stats))"
  obtain d2 ts2 s2 where two: "dashboard_run http cf ctx ?rounds d1 s1 = (Inr d2, s2)"
    "dash_inv http cf ctx s ts2 d2 s2" using dashboard_run_inv [OF one(2)] by blast
  have "rank dashboard_start = 15" by (simp add: rank_def stats_def moves_left_def dashboard_start_def)
  with run_rank [OF one(1)] rounds_end [OF one(2) _ two(1)] have gone: "\<forall>t. d_pc d2 t = Gone"
    by (simp add: rank_0)
  show thesis
  proof (rule that)
    show "dashboard_run http cf ctx (schedule @ fair_rounds) dashboard_start s = (Inr (await d2), s2)"
      using one(1) two(1) by (simp add: fair_rounds_def stats_def run_append bnd_def ret_def)
    show "dash_inv http cf ctx s ts2 (await d2) s2" by (rule await_inv [OF two(2)])
    show "set ts2 = UNIV" using two(2) gone by (auto simp: dash_inv_def)
    have "d_wg d2 = 0" using two(2) gone by (simp add: dash_inv_def all_gone)
    then show "d_reply (await d2) \<noteq> None" by (simp add: await_def)
  qed
qed

text \<open>So the handler replies, and with what asking in some order gives.\<close>

lemma dashboard_linear:
  "\<exists>ts f s'. distinct ts \<and> set ts = UNIV \<and> ask_each http cf ctx ts blank s = (f, s') \<and>
    dashboard_Stats http cf schedule ctx q s = (Inr (WriteJSON 200 (dashboard_json f)), s')"
proof -
  obtain d ts s' where d: "dashboard_run http cf ctx (schedule @ fair_rounds) dashboard_start s = (Inr d, s')"
    "dash_inv http cf ctx s ts d s'" "set ts = UNIV" "d_reply d \<noteq> None" by (rule dashboard_ends)
  from d(2) obtain X where "ask_each http cf ctx ts blank s = (X, s')" "data_ok cf X d" "distinct ts"
    by (auto simp: dash_inv_def)
  moreover from this(2) d(4) have "d_reply d = Some (WriteJSON 200 (dashboard_json X))" by (auto simp: data_ok_def)
  ultimately show ?thesis using d(1,3) by (auto simp: dashboard_Stats_def bnd_def ret_def)
qed

end
