(* ===== verification/BffSpec.thy ===== *)
theory BffSpec
  imports BffDashboard
begin

text \<open>
  What the BFF services promise whatever the libraries and the upstream services do: under whose
  name they call upstream, how often, and who gets past the middleware.
\<close>

named_theorems sends_intros \<open>programs that call upstream only in a user's name\<close>

section \<open>Calls in a user's name\<close>

definition header_user :: "out_req \<Rightarrow> string" where
  "header_user req = (case map_of (o_headers req) ''X-User-ID'' of None \<Rightarrow> '''' | Some u \<Rightarrow> u)"

text \<open>\<open>sends u n m\<close>: a run of \<open>m\<close> makes at most \<open>n\<close> calls, all for \<open>u\<close>, and touches neither clock nor limiters.\<close>

definition calls :: "string \<Rightarrow> nat \<Rightarrow> ('l, 'w) bff \<Rightarrow> ('l, 'w) bff \<Rightarrow> bool" where
  "calls u n s s' \<longleftrightarrow> b_now s' = b_now s \<and> b_limiters s' = b_limiters s \<and>
     (\<exists>reqs. b_sent s' = b_sent s @ reqs \<and> length reqs \<le> n \<and> list_all (\<lambda>req. header_user req = u) reqs)"

definition sends :: "string \<Rightarrow> nat \<Rightarrow> (('l, 'w) bff, 'e, 'a) prog \<Rightarrow> bool" where
  "sends u n m \<longleftrightarrow> (\<forall>s. calls u n s (snd (m s)))"

lemma calls_refl [simp]: "calls u n s s"
  by (simp add: calls_def)

lemma calls_trans: "calls u m s s1 \<Longrightarrow> calls u n s1 s2 \<Longrightarrow> calls u (m + n) s s2"
  unfolding calls_def by (elim conjE exE) (intro conjI exI [of _ "_ @ _"]; simp)

lemma calls_mono: "calls u m s s' \<Longrightarrow> m \<le> n \<Longrightarrow> calls u n s s'"
  unfolding calls_def by (meson le_trans)

lemma sends_ret [sends_intros]: "sends u n (ret x)"
  and sends_raise [sends_intros]: "sends u n (raise e)"
  by (simp_all add: sends_def ret_def raise_def)

lemma sends_if [sends_intros]: "sends u n m \<Longrightarrow> sends u n m' \<Longrightarrow> sends u n (if b then m else m')"
  by simp

lemma sends_map_err [sends_intros]: "sends u n m \<Longrightarrow> sends u n (map_err h m)"
  and sends_attempt [sends_intros]: "sends u n m \<Longrightarrow> sends u n (attempt m)"
  by (auto simp: sends_def map_err_def attempt_def split: prod.splits sum.splits; metis snd_conv)+

lemma sends_bnd:
  assumes "sends u k m" "\<And>x. sends u n (f x)" shows "sends u (k + n) (bnd m f)"
proof -
  have "calls u (k + n) s (snd (bnd m f s))" for s
  proof (cases "m s")
    case (Pair q s1)
    with assms(1) have "calls u k s s1" unfolding sends_def by (metis snd_conv)
    with assms(2) Pair show ?thesis
      by (cases q) (auto simp: bnd_def sends_def intro: calls_mono calls_trans)
  qed
  then show ?thesis by (simp add: sends_def)
qed

lemma sends_mono: "sends u m p \<Longrightarrow> m \<le> n \<Longrightarrow> sends u n p"
  unfolding sends_def using calls_mono by blast

lemma new_request_user: "new_request c ctx meth path p = Some req \<Longrightarrow> header_user req = UserIDFrom ctx"
  by (auto simp: new_request_def header_user_def split: if_splits)

lemma sends_http_Do: "header_user req = u \<Longrightarrow> sends u 1 (http_Do http req)"
  by (auto simp: sends_def calls_def http_Do_def Let_def split: prod.splits option.splits)

lemma sends_bnd1: "sends u n m \<Longrightarrow> (\<And>x. sends u 0 (f x)) \<Longrightarrow> sends u n (bnd m f)"
  using sends_bnd [of u n m 0 f] by simp

lemma sends_Forward:
  assumes "u = UserIDFrom ctx" "0 < n" shows "sends u n (client_Forward http c ctx meth path p)"
proof (cases "new_request c ctx meth path p")
  case None
  then show ?thesis by (simp add: client_Forward_def sends_raise)
next
  case (Some req)
  with assms have "sends u n (http_Do http req)" using sends_http_Do new_request_user
    by (metis One_nat_def Suc_leI sends_mono)
  with Some show ?thesis
    by (auto simp: client_Forward_def intro!: sends_bnd1 sends_map_err sends_ret split: prod.split)
qed

lemma sends_Do: "sends (UserIDFrom ctx) 1 (client_Do http c ctx meth path p decode)"
proof (cases "new_request c ctx meth path (map_option Json p)")
  case None
  then show ?thesis by (simp add: client_Do_def sends_raise)
next
  case (Some req)
  with sends_http_Do [OF new_request_user [OF Some]] show ?thesis
    by (auto simp: client_Do_def intro!: sends_bnd1 sends_map_err sends_ret sends_raise
        split: prod.split option.split)
qed

section \<open>The services' routes\<close>

lemma find_route_in: "find_route rs m p = Some h \<Longrightarrow> \<exists>m' pat f vs. (m', pat, f) \<in> set rs \<and> h = f vs"
  by (induction rs m p rule: find_route.induct) (auto split: option.splits if_splits)

lemma sends_mux:
  assumes "list_all (\<lambda>(m, pat, f). \<forall>vs. sends u n (f vs)) rs" shows "sends u n (serve_mux rs q)"
  using assms unfolding serve_mux_def
  by (auto split: option.splits dest!: find_route_in simp: list_all_iff intro!: sends_intros)

lemma client_api_sends: "sends (UserIDFrom ctx) 1 (client_api L cf ctx q)"
  unfolding client_api_def
  by (rule sends_mux) (simp add: client_job_routes_def client_match_routes_def client_contract_routes_def
      client_payment_routes_def client_job_Create_def client_job_List_def client_job_GetByID_def
      client_FindMatches_def client_contract_List_def client_contract_Create_def client_contract_GetByID_def
      client_contract_Accept_def client_contract_Complete_def client_contract_Cancel_def client_GetBalance_def
      Let_def sends_Forward sends_raise)

lemma freelancer_api_sends: "sends (UserIDFrom ctx) 1 (freelancer_api L cf ctx q)"
  unfolding freelancer_api_def
  by (rule sends_mux) (simp add: freelancer_match_routes_def freelancer_contract_routes_def
      freelancer_payment_routes_def freelancer_FindJobMatches_def freelancer_contract_List_def
      freelancer_contract_GetByID_def freelancer_contract_Accept_def freelancer_GetBalance_def
      Let_def sends_Forward sends_raise)

text \<open>Each goroutine calls once: those that have not called yet bound the calls.\<close>

definition unfetched :: "dashboard \<Rightarrow> nat" where
  "unfetched d = length (filter (\<lambda>t. d_pc d t = Requesting) [StatJobs, StatContracts, StatWallets])"

lemma fetch_sends: "sends (UserIDFrom ctx) (if d_pc d t = Requesting then 1 else 0) (fetch http cf ctx t d)"
proof (cases "d_pc d t = Requesting")
  case True
  have "sends (UserIDFrom ctx) (1 + 0) (bnd (attempt (client_Do http (stat_client cf t) ctx ''GET'' (stat_path t) None decode_total))
      (\<lambda>result. ret (goes t (Locking result) d)))"
    by (intro sends_bnd sends_attempt sends_Do sends_ret)
  with True show ?thesis by (simp add: fetch_def)
qed (auto simp: fetch_def intro: sends_ret split: fetch_pc.split)

lemma unfetched_goes:
  "pc \<noteq> Requesting \<Longrightarrow> unfetched (goes t pc d) = unfetched d - (if d_pc d t = Requesting then 1 else 0)"
  "d_pc d t = Requesting \<Longrightarrow> 0 < unfetched d"
  by (cases t; simp add: unfetched_def goes_def)+

lemma unfetched_fields:
  "unfetched (d\<lparr>d_mu := b\<rparr>) = unfetched d" "unfetched (d\<lparr>d_wg := n\<rparr>) = unfetched d"
  "unfetched (d\<lparr>d_resp := f\<rparr>) = unfetched d"
  by (simp_all add: unfetched_def)

lemma fetch_runs:
  "\<exists>d' s'. fetch http cf ctx t d s = (Inr d', s') \<and>
    unfetched d' + (if d_pc d t = Requesting then 1 else 0) \<le> unfetched d"
proof (cases "d_pc d t")
  case Requesting
  then show ?thesis using unfetched_goes [where t = t and d = d]
    by (auto simp: fetch_def bnd_def attempt_def ret_def split: prod.split)
qed (use unfetched_goes(1) [where t = t] in \<open>auto simp: fetch_def ret_def unfetched_fields\<close>)

lemma unfetched_await [simp]: "unfetched (await d) = unfetched d"
  by (simp add: unfetched_def await_def)

lemma dashboard_run_calls:
  "\<exists>d' s'. dashboard_run http cf ctx ts d s = (Inr d', s') \<and> calls (UserIDFrom ctx) (unfetched d) s s'"
proof (induction ts arbitrary: d s)
  case Nil
  then show ?case by (simp add: ret_def)
next
  case (Cons th ts)
  show ?case
  proof (cases th)
    case Handler
    with Cons.IH [of "await d" s] show ?thesis by simp
  next
    case (Goroutine t)
    obtain d1 s1 where run: "fetch http cf ctx t d s = (Inr d1, s1)"
      "unfetched d1 + (if d_pc d t = Requesting then 1 else 0) \<le> unfetched d"
      using fetch_runs by blast
    from fetch_sends [of ctx d t http cf] run(1)
    have c: "calls (UserIDFrom ctx) (if d_pc d t = Requesting then 1 else 0) s s1"
      unfolding sends_def by (metis snd_conv)
    from Cons.IH [of d1 s1] obtain d' s' where rest: "dashboard_run http cf ctx ts d1 s1 = (Inr d', s')"
      "calls (UserIDFrom ctx) (unfetched d1) s1 s'" by blast
    from calls_trans [OF c rest(2)] run(2) have "calls (UserIDFrom ctx) (unfetched d) s s'"
      by (elim calls_mono) linarith
    with run(1) rest(1) Goroutine show ?thesis by (simp add: bnd_def)
  qed
qed

lemma dashboard_sends: "sends (UserIDFrom ctx) 3 (dashboard_Stats http cf schedule ctx q)"
  unfolding sends_def
proof
  fix s
  have "unfetched dashboard_start = 3" by (simp add: unfetched_def dashboard_start_def)
  with dashboard_run_calls [of http cf ctx "schedule @ fair_rounds" dashboard_start s]
  obtain d' s' where "dashboard_run http cf ctx (schedule @ fair_rounds) dashboard_start s = (Inr d', s')"
    "calls (UserIDFrom ctx) 3 s s'" by auto
  then show "calls (UserIDFrom ctx) 3 s (snd (dashboard_Stats http cf schedule ctx q s))"
    by (simp add: dashboard_Stats_def bnd_def ret_def)
qed

lemma admin_api_sends: "sends (UserIDFrom ctx) 3 (admin_api L cf schedule ctx q)"
proof -
  have fwd: "sends (UserIDFrom ctx) 3 (client_Forward http c ctx meth path p)" for http c meth path p
    by (simp add: sends_Forward)
  show ?thesis unfolding admin_api_def
    by (rule sends_mux) (simp add: admin_job_routes_def admin_contract_routes_def admin_wallet_routes_def
        dashboard_routes_def admin_job_List_def admin_job_GetByID_def admin_contract_List_def
        admin_contract_GetByID_def admin_wallet_List_def Let_def fwd dashboard_sends)
qed

section \<open>Replies without cookies\<close>

definition bare :: "(('l, 'w) bff, reply, reply) prog \<Rightarrow> bool" where
  "bare m \<longleftrightarrow> (\<forall>s. r_cookies (fst (answer m s)) = [])"

lemma unavailable_bare [simp]: "r_cookies (unavailable c) = []"
  by (simp add: unavailable_def)

lemma bare_ret: "r_cookies r = [] \<Longrightarrow> bare (ret r)"
  and bare_raise: "r_cookies r = [] \<Longrightarrow> bare (raise r)"
  by (simp_all add: bare_def)

lemma bare_Forward: "bare (client_Forward http c ctx meth path p)"
  by (auto simp: bare_def client_Forward_def answer_def bnd_def map_err_def http_Do_def raise_def ret_def Let_def
      split: option.splits prod.splits sum.splits)

lemma bare_mux:
  assumes "list_all (\<lambda>(m, pat, f). \<forall>vs. bare (f vs)) rs" shows "bare (serve_mux rs q)"
  using assms unfolding serve_mux_def
  by (auto split: option.splits dest!: find_route_in simp: list_all_iff not_found_def method_not_allowed_def
      intro!: bare_ret)

lemma client_api_bare: "bare (client_api L cf ctx q)"
  unfolding client_api_def
  by (rule bare_mux) (simp add: client_job_routes_def client_match_routes_def client_contract_routes_def
      client_payment_routes_def client_job_Create_def client_job_List_def client_job_GetByID_def
      client_FindMatches_def client_contract_List_def client_contract_Create_def client_contract_GetByID_def
      client_contract_Accept_def client_contract_Complete_def client_contract_Cancel_def client_GetBalance_def
      Let_def bare_Forward bare_raise)

lemma freelancer_api_bare: "bare (freelancer_api L cf ctx q)"
  unfolding freelancer_api_def
  by (rule bare_mux) (simp add: freelancer_match_routes_def freelancer_contract_routes_def
      freelancer_payment_routes_def freelancer_FindJobMatches_def freelancer_contract_List_def
      freelancer_contract_GetByID_def freelancer_contract_Accept_def freelancer_GetBalance_def
      Let_def bare_Forward bare_raise)

lemma dashboard_bare: "bare (dashboard_Stats http cf schedule ctx q)"
  unfolding bare_def
proof
  fix s
  show "r_cookies (fst (answer (dashboard_Stats http cf schedule ctx q) s)) = []"
    using dashboard_linear [of http cf ctx s schedule q] by (auto simp: answer_def)
qed

lemma admin_api_bare: "bare (admin_api L cf schedule ctx q)"
  unfolding admin_api_def
  by (rule bare_mux) (simp add: admin_job_routes_def admin_contract_routes_def admin_wallet_routes_def
      dashboard_routes_def admin_job_List_def admin_job_GetByID_def admin_contract_List_def
      admin_contract_GetByID_def admin_wallet_List_def Let_def bare_Forward dashboard_bare)

end
