(* ===== verification/BffSession.thy ===== *)
theory BffSession
  imports BffSpec
begin

text \<open>
  Sessions: what is assumed of the JWT library, and what the chain of middleware does to a request.
\<close>

section \<open>What is assumed of the JWT library\<close>

text \<open>
  Claims a token carries unchanged through JSON: ASCII strings and integers a \<open>float64\<close> holds
  exactly.
\<close>

definition ascii :: "string \<Rightarrow> bool" where
  "ascii s \<longleftrightarrow> list_all (\<lambda>ch. byte_of ch < 128) s"

definition plain_claim :: "json \<Rightarrow> bool" where
  "plain_claim v = (case v of JStr s \<Rightarrow> ascii s | JNum n \<Rightarrow> \<bar>n\<bar> \<le> 2 ^ 53 | _ \<Rightarrow> False)"

definition plain_claims :: "claims \<Rightarrow> bool" where
  "plain_claims cs \<longleftrightarrow> map fst cs = [''sub'', ''role'', ''exp'', ''iat'', ''type''] \<and> list_all plain_claim (map snd cs)"

text \<open>
  As documented: a parse reports a valid token only if its signature verifies with the key the
  function gave for its method; a token parses to the claims that were signed; it is valid with
  the right key until \<open>exp\<close>, and never from then on. \<open>verifies\<close> is the library's notion of an
  HMAC signature that fits a key.
\<close>

definition jwt_sound :: "jwt_lib \<Rightarrow> (string \<Rightarrow> string \<Rightarrow> bool) \<Rightarrow> bool" where
  "jwt_sound J verifies \<longleftrightarrow> (\<forall>now tok kf c. Parse J now tok kf = Some (True, c) \<longrightarrow>
     (\<exists>m k. kf m = Some k \<and> verifies k tok))"

definition jwt_genuine :: "jwt_lib \<Rightarrow> bool" where
  "jwt_genuine J \<longleftrightarrow> (\<forall>k cs tok now kf v c. plain_claims cs \<longrightarrow> SignedString J k cs = Some tok \<longrightarrow>
     Parse J now tok kf = Some (v, c) \<longrightarrow> c = MapClaims cs)"

definition jwt_accepts :: "jwt_lib \<Rightarrow> bool" where
  "jwt_accepts J \<longleftrightarrow> (\<forall>k cs tok now kf e. plain_claims cs \<longrightarrow> SignedString J k cs = Some tok \<longrightarrow>
     kf (HMAC ''HS256'') = Some k \<longrightarrow> map_of cs ''exp'' = Some (JNum e) \<longrightarrow> now < e * second \<longrightarrow>
     Parse J now tok kf = Some (True, MapClaims cs))"

definition jwt_expires :: "jwt_lib \<Rightarrow> bool" where
  "jwt_expires J \<longleftrightarrow> (\<forall>now tok kf cs e. Parse J now tok kf = Some (True, MapClaims cs) \<longrightarrow>
     map_of cs ''exp'' = Some (JNum e) \<longrightarrow> now < e * second)"

definition jwt_laws :: "jwt_lib \<Rightarrow> (string \<Rightarrow> string \<Rightarrow> bool) \<Rightarrow> bool" where
  "jwt_laws J verifies \<longleftrightarrow> jwt_sound J verifies \<and> jwt_genuine J \<and> jwt_accepts J \<and> jwt_expires J"

lemma jwt_soundD:
  assumes "jwt_laws J verifies" "Parse J now tok (hmac_key a) = Some (True, c)"
  shows "verifies (Secret a) tok"
proof -
  from assms(1) have "jwt_sound J verifies" by (simp add: jwt_laws_def)
  then obtain m k where "hmac_key a m = Some k" "verifies k tok"
    unfolding jwt_sound_def using assms(2) by metis
  then show ?thesis by (cases m) (simp_all add: hmac_key_def)
qed

lemma jwt_genuineD:
  assumes "jwt_laws J verifies" "plain_claims cs" "SignedString J k cs = Some tok" "Parse J now tok kf = Some (v, c)"
  shows "c = MapClaims cs"
proof -
  from assms(1) have "jwt_genuine J" by (simp add: jwt_laws_def)
  then show ?thesis using assms(2-4) unfolding jwt_genuine_def by metis
qed

lemma jwt_acceptsD:
  assumes "jwt_laws J verifies" "plain_claims cs" "SignedString J (Secret a) cs = Some tok"
    "map_of cs ''exp'' = Some (JNum e)" "now < e * second"
  shows "Parse J now tok (hmac_key a) = Some (True, MapClaims cs)"
proof -
  from assms(1) have "jwt_accepts J" by (simp add: jwt_laws_def)
  moreover have "hmac_key a (HMAC ''HS256'') = Some (Secret a)" by (simp add: hmac_key_def)
  ultimately show ?thesis using assms(2-5) unfolding jwt_accepts_def by metis
qed

lemma jwt_expiresD:
  assumes "jwt_laws J verifies" "Parse J now tok kf = Some (True, MapClaims cs)" "map_of cs ''exp'' = Some (JNum e)"
  shows "now < e * second"
proof -
  from assms(1) have "jwt_expires J" by (simp add: jwt_laws_def)
  then show ?thesis using assms(2,3) unfolding jwt_expires_def by metis
qed

text \<open>The claims of an issued token.\<close>

lemma issued_claims [simp]:
  "map_of (token_claims u role now ttl ty) ''exp'' = Some (JNum (unix_time (now + ttl)))"
  "claim_string (token_claims u role now ttl ty) ''sub'' = u"
  "claim_string (token_claims u role now ttl ty) ''role'' = role"
  "claim_string (token_claims u role now ttl ty) ''type'' = ty"
  by (simp_all add: token_claims_def claim_string_def)

definition clock_range :: "int \<Rightarrow> bool" where
  "clock_range t \<longleftrightarrow> 0 \<le> t \<and> t < 2 ^ 62"

definition ttl_ok :: "AuthConfig \<Rightarrow> bool" where
  "ttl_ok a \<longleftrightarrow> 0 \<le> AccessTokenTTL a \<and> AccessTokenTTL a \<le> 2 ^ 60 \<and>
     0 \<le> RefreshTokenTTL a \<and> RefreshTokenTTL a \<le> 2 ^ 60"

lemma env_ttl_ok: "ttl_ok (env_auth ev)"
  by (simp add: ttl_ok_def env_auth_def second_def)

lemma issued_plain:
  assumes "clock_range now" "0 \<le> ttl" "ttl \<le> 2 ^ 60" "ascii u" "ascii role" "ascii ty"
  shows "plain_claims (token_claims u role now ttl ty)"
proof -
  have "\<bar>unix_time t\<bar> \<le> 2 ^ 53" if "0 \<le> t" "t \<le> 2 ^ 62 + 2 ^ 60" for t
  proof -
    have "t div 1000000000 \<le> (2 ^ 62 + 2 ^ 60) div 1000000000" using that by (intro zdiv_mono1) simp_all
    with that show ?thesis by (simp add: unix_time_def)
  qed
  with assms show ?thesis
    by (simp add: plain_claims_def token_claims_def plain_claim_def clock_range_def)
qed

section \<open>Checking a token\<close>

lemma check_token_InrE:
  assumes "check_token J a wanted msg tok s = (Inr (u, role), s')"
  obtains cs where "s' = s" "Parse J (b_now s) tok (hmac_key a) = Some (True, MapClaims cs)"
    "claim_string cs ''type'' = wanted" "u = claim_string cs ''sub''" "role = claim_string cs ''role''"
    "u \<noteq> ''''" "role \<noteq> ''''"
  using assms by (auto simp: check_token_def Let_def raise_def ret_def
      split: option.splits prod.splits if_splits token_claims.splits)

lemma check_token_InlE:
  assumes "check_token J a wanted msg tok s = (Inl r, s')"
  obtains "s' = s" "r_status r = 401" "r_cookies r = []"
  using assms by (auto simp: check_token_def Let_def raise_def ret_def WriteError_def WriteJSON_def
      split: option.splits prod.splits if_splits token_claims.splits)

section \<open>Opening a session\<close>

text \<open>The tokens that came with a reply.\<close>

definition given :: "reply \<Rightarrow> string list" where
  "given r = map ck_Value (r_cookies r)"

definition issued_to :: "jwt_lib \<Rightarrow> AuthConfig \<Rightarrow> string \<Rightarrow> string \<Rightarrow> string \<Rightarrow> bool" where
  "issued_to J a u role tok \<longleftrightarrow> ascii u \<and> ascii role \<and> (\<exists>now ttl ty.
     plain_claims (token_claims u role now ttl ty) \<and>
     SignedString J (Secret a) (token_claims u role now ttl ty) = Some tok)"

lemma open_session_cases:
  assumes "open_session J a u role s = (q, s')"
  obtains (failed) r where "q = Inl r" "r_status r = 500" "r_cookies r = []" "s' = s"
  | (opened) acc ref where "s' = s"
      "SignedString J (Secret a) (token_claims u role (b_now s) (AccessTokenTTL a) ''access'') = Some acc"
      "SignedString J (Secret a) (token_claims u role (b_now s) (RefreshTokenTTL a) ''refresh'') = Some ref"
      "q = Inr (setTokenCookies a acc ref (WriteJSON 200 (user_json u role)))"
proof -
  let ?acc = "SignedString J (Secret a) (token_claims u role (b_now s) (AccessTokenTTL a) ''access'')"
  let ?ref = "SignedString J (Secret a) (token_claims u role (b_now s) (RefreshTokenTTL a) ''refresh'')"
  have run: "(q, s') = (case (?acc, ?ref) of
      (Some acc, Some ref) \<Rightarrow> (Inr (setTokenCookies a acc ref (WriteJSON 200 (user_json u role))), s)
    | _ \<Rightarrow> (Inl (WriteError 500 ''failed to generate tokens''), s))"
    unfolding assms [symmetric] open_session_def GenerateTokens_def bnd_def map_err_def ret_def raise_def Let_def
    by (simp split: option.split)
  show thesis
  proof (cases ?acc)
    case None
    with run show thesis by (intro failed [of "WriteError 500 ''failed to generate tokens''"]) simp_all
  next
    case (Some acc)
    note acc = this
    show thesis
    proof (cases ?ref)
      case None
      with run acc show thesis by (intro failed [of "WriteError 500 ''failed to generate tokens''"]) simp_all
    next
      case (Some ref)
      with run acc show thesis by (intro opened) simp_all
    qed
  qed
qed

lemma given_session [simp]:
  "given (setTokenCookies a acc ref (WriteJSON 200 (user_json u role))) = [acc, ref]"
  by (simp add: given_def setTokenCookies_def token_cookie_def)

lemma access_type: "ascii ''access''" "ascii ''refresh''"
  by code_simp+

lemma open_session_issues:
  assumes "open_session J a u role s = (q, s')" "ttl_ok a" "clock_range (b_now s)" "ascii u" "ascii role"
  shows "s' = s" "list_all (issued_to J a u role) (given (case q of Inl r \<Rightarrow> r | Inr r \<Rightarrow> r))"
proof -
  have plain: "plain_claims (token_claims u role (b_now s) (AccessTokenTTL a) ''access'')"
    "plain_claims (token_claims u role (b_now s) (RefreshTokenTTL a) ''refresh'')"
    by (rule issued_plain; use assms access_type in \<open>simp add: ttl_ok_def\<close>)+
  have issued: "issued_to J a u role tok"
    if "plain_claims (token_claims u role now ttl ty)" "SignedString J (Secret a) (token_claims u role now ttl ty) = Some tok"
    for now ttl ty tok using that assms(4,5) unfolding issued_to_def by blast
  from assms(1) show "s' = s" by (cases rule: open_session_cases)
  from assms(1) show "list_all (issued_to J a u role) (given (case q of Inl r \<Rightarrow> r | Inr r \<Rightarrow> r))"
  proof (cases rule: open_session_cases)
    case (failed r)
    then show ?thesis by (simp add: given_def)
  next
    case (opened acc ref)
    from issued [OF plain(1) opened(2)] issued [OF plain(2) opened(3)] opened(4) show ?thesis by simp
  qed
qed

end
