(* ===== verification/BffRuns.thy ===== *)
theory BffRuns
  imports BffSession
begin

text \<open>
  One request to a BFF, case by case, for the three services at once: they differ in their routes
  and in whether they ask for a role, and share everything else. The locale \<open>bff_service\<close> is the
  contract they share. Histories of requests follow.
\<close>

section \<open>The middleware\<close>

definition admitted :: "jwt_lib \<Rightarrow> AuthConfig \<Rightarrow> request \<Rightarrow> ('l, 'w) bff \<Rightarrow> string \<Rightarrow> string \<Rightarrow> bool" where
  "admitted J a q s u role \<longleftrightarrow> (\<exists>tok. Cookie ''access_token'' q = Some tok \<and>
     check_token J a ''access'' ''invalid token'' tok s = (Inr (u, role), s))"

lemma admittedE:
  assumes "admitted J a q s u role"
  obtains tok cs where "Cookie ''access_token'' q = Some tok"
    "Parse J (b_now s) tok (hmac_key a) = Some (True, MapClaims cs)" "claim_string cs ''type'' = ''access''"
    "u = claim_string cs ''sub''" "role = claim_string cs ''role''" "u \<noteq> ''''" "role \<noteq> ''''"
  using assms unfolding admitted_def by (metis check_token_InrE)

abbreviation user_ctx :: "string \<Rightarrow> string \<Rightarrow> ctx" where
  "user_ctx u role \<equiv> WithValue (WithValue [] CtxKeyUserID u) CtxKeyRole role"

lemma JWTMiddleware_cases:
  assumes "JWTMiddleware J a next [] q s = (res, s')"
  obtains (refused) r where "res = Inl r" "s' = s" "r_status r = 401" "r_cookies r = []"
      "\<And>u role. \<not> admitted J a q s u role"
  | (admitted) u role where "admitted J a q s u role" "next (user_ctx u role) q s = (res, s')"
proof (cases "Cookie ''access_token'' q")
  case None
  with assms show thesis
    by (intro refused [of "WriteError 401 ''missing access token''"]) (simp_all add: JWTMiddleware_def raise_def admitted_def)
next
  case (Some tok)
  note cookie = this
  from assms cookie have run: "bnd (check_token J a ''access'' ''invalid token'' tok)
      (\<lambda>(sub, role). next (user_ctx sub role) q) s = (res, s')" by (simp add: JWTMiddleware_def)
  from run show thesis
  proof (cases rule: bnd_eqE)
    case (stop e)
    from stop(1) have "s' = s" "r_status e = 401" "r_cookies e = []" by (auto elim!: check_token_InlE)
    with stop cookie show thesis by (intro refused [of e]) (auto simp: admitted_def)
  next
    case (go x s1)
    obtain u role where x: "x = (u, role)" by fastforce
    from go(1) [unfolded x] have "s1 = s" by (rule check_token_InrE)
    with go cookie x show thesis by (intro admitted [of u role]) (auto simp: admitted_def)
  qed
qed

text \<open>The limiter a user's next request meets.\<close>

definition limiter_of :: "'l limiter_lib \<Rightarrow> RateLimiter \<Rightarrow> string \<Rightarrow> ('l, 'w) bff \<Rightarrow> 'l" where
  "limiter_of lib rl u s =
     (case map_of (b_limiters s) u of Some l \<Rightarrow> l | None \<Rightarrow> NewLimiter lib (rl_rate rl) (rl_burst rl))"

lemma RateLimiter_cases:
  assumes "RateLimiter_Middleware lib rl next ctx q s = (res, s')" "UserIDFrom ctx = u" "u \<noteq> ''''"
  obtains (refused) l where "Allow lib (b_now s) (limiter_of lib rl u s) = (False, l)"
      "res = Inl (WriteError 429 ''rate limit exceeded'')" "b_sent s' = b_sent s" "b_now s' = b_now s"
      "map_of (b_limiters s') = (map_of (b_limiters s))(u \<mapsto> l)"
  | (passed) l s1 where "Allow lib (b_now s) (limiter_of lib rl u s) = (True, l)"
      "next ctx q s1 = (res, s')" "b_sent s1 = b_sent s" "b_now s1 = b_now s" "b_world s1 = b_world s"
      "map_of (b_limiters s1) = (map_of (b_limiters s))(u \<mapsto> l)"
proof -
  obtain ok l where allow: "Allow lib (b_now s) (limiter_of lib rl u s) = (ok, l)" by fastforce
  define s0 where "s0 = snd (getLimiter lib rl u s :: (reply + _) \<times> _)"
  define s1 where "s1 = s0\<lparr>b_limiters := (u, l) # b_limiters s0\<rparr>"
  have get: "getLimiter lib rl u s = (Inr (limiter_of lib rl u s) :: reply + _, s0)"
    by (simp add: s0_def getLimiter_def limiter_of_def Let_def split: option.splits)
  have s0: "b_sent s0 = b_sent s" "b_now s0 = b_now s" "b_world s0 = b_world s"
    "(map_of (b_limiters s0))(u \<mapsto> l) = (map_of (b_limiters s))(u \<mapsto> l)"
    by (auto simp: s0_def getLimiter_def Let_def split: option.splits)
  have run: "(res, s') = (if ok then next ctx q s1 else (Inl (WriteError 429 ''rate limit exceeded''), s1))"
    unfolding assms(1) [symmetric] RateLimiter_Middleware_def Let_def assms(2)
    using assms(3) get allow s0(2) by (simp add: bnd_def limiter_Allow_def s1_def raise_def)
  show thesis
  proof (cases ok)
    case True
    with run allow s0 show thesis by (intro passed [of l s1]) (simp_all add: s1_def)
  next
    case False
    with run allow s0 show thesis by (intro refused [of l]) (simp_all add: s1_def)
  qed
qed

section \<open>Log-in\<close>

definition logs_in :: "request \<Rightarrow> string \<Rightarrow> string \<Rightarrow> bool" where
  "logs_in q u role \<longleftrightarrow> q_method q = ''POST'' \<and> q_path q = [''auth'', ''login''] \<and>
     (\<exists>email password user. decode_login (q_body q) = Some (email, password) \<and>
        map_of TestUsers email = Some user \<and> tu_Password user = password \<and>
        u = tu_UserID user \<and> role = tu_Role user)"

lemma TestUsers_ascii: "map_of TestUsers email = Some user \<Longrightarrow> ascii (tu_UserID user) \<and> ascii (tu_Role user)"
proof -
  have "list_all (\<lambda>(_, user). ascii (tu_UserID user) \<and> ascii (tu_Role user)) TestUsers" by code_simp
  then show "map_of TestUsers email = Some user \<Longrightarrow> ascii (tu_UserID user) \<and> ascii (tu_Role user)"
    by (auto simp: list_all_iff dest!: map_of_SomeD)
qed

lemma Login_cases:
  assumes "Login J a q s = (res, s')"
  obtains (refused) r where "res = Inl r" "s' = s" "r_status r = 400 \<or> r_status r = 401" "r_cookies r = []"
  | (accepted) email password user where "decode_login (q_body q) = Some (email, password)"
      "map_of TestUsers email = Some user" "tu_Password user = password"
      "open_session J a (tu_UserID user) (tu_Role user) s = (res, s')"
  using assms unfolding Login_def
  by (auto simp: raise_def split: option.splits prod.splits if_splits)

lemma Refresh_cases:
  assumes "Refresh J a q s = (res, s')"
  obtains (refused) r where "res = Inl r" "s' = s" "r_status r = 401" "r_cookies r = []"
  | (accepted) tok u role where "Cookie ''refresh_token'' q = Some tok"
      "check_token J a ''refresh'' ''invalid refresh token'' tok s = (Inr (u, role), s)"
      "open_session J a u role s = (res, s')"
proof (cases "Cookie ''refresh_token'' q")
  case None
  with assms show thesis
    by (intro refused [of "WriteError 401 ''missing refresh token''"]) (simp_all add: Refresh_def raise_def)
next
  case (Some tok)
  note cookie = this
  from assms cookie have run: "bnd (check_token J a ''refresh'' ''invalid refresh token'' tok)
      (\<lambda>(sub, role). open_session J a sub role) s = (res, s')" by (simp add: Refresh_def)
  from run show thesis
  proof (cases rule: bnd_eqE)
    case (stop e)
    then show thesis by (auto elim!: check_token_InlE intro: refused)
  next
    case (go x s1)
    obtain u role where x: "x = (u, role)" by fastforce
    from go(1) [unfolded x] have "s1 = s" by (rule check_token_InrE)
    with go cookie x show thesis by (intro accepted [of tok u role]) auto
  qed
qed

text \<open>The open part of the outer mux.\<close>

lemma open_routes_cases:
  assumes "serve_mux (outer_routes L a q) q s = (res, s')"
  obtains (other) r where "res = Inr r" "s' = s" "r_cookies r = []"
  | (login) "q_method q = ''POST''" "q_path q = [''auth'', ''login'']" "Login (lib_jwt L) a q s = (res, s')"
  | (refresh) "q_method q = ''POST''" "q_path q = [''auth'', ''refresh'']" "Refresh (lib_jwt L) a q s = (res, s')"
proof (cases "find_route (outer_routes L a q) (q_method q) (q_path q)")
  case None
  with assms show thesis
    by (auto simp: serve_mux_def not_found_def method_not_allowed_def ret_def intro: other split: if_splits)
next
  case (Some h)
  have path: "match_path [Lit x, Lit y] p = Some vs \<Longrightarrow> p = [x, y]" for x y p vs
    by (simp add: match_Lit match_Nil)
  from Some have "h \<in> {ret health, ret (metrics (lib_metrics L))} \<or>
      q_method q = ''POST'' \<and> (q_path q = [''auth'', ''login''] \<and> h = Login (lib_jwt L) a q \<or>
        q_path q = [''auth'', ''refresh''] \<and> h = Refresh (lib_jwt L) a q)"
    unfolding outer_routes_def auth_routes_def
    by (auto simp: method_matches_def split: option.splits if_splits dest!: path)
  with Some assms show thesis
    by (auto simp: serve_mux_def health_def metrics_def ret_def intro: other login refresh)
qed

definition reply_of :: "reply + reply \<Rightarrow> reply" where
  "reply_of res = (case res of Inl r \<Rightarrow> r | Inr r \<Rightarrow> r)"

lemma reply_of_simps [simp]: "reply_of (Inl r) = r" "reply_of (Inr r) = r"
  by (simp_all add: reply_of_def)

lemma answer_reply_of: "answer m s = (reply_of (fst (m s)), snd (m s))"
  by (simp add: answer_def reply_of_def split: sum.split prod.split)

text \<open>Outside \<open>/api/\<close>: nothing happens, or a session is opened by log-in or refresh.\<close>

lemma open_cases:
  assumes "serve_mux (outer_routes L a q) q s = (res, s1)"
  obtains (quiet) "s1 = s" "r_cookies (reply_of res) = []"
  | (login) u role where "logs_in q u role" "ascii u" "ascii role" "s1 = s"
      "open_session (lib_jwt L) a u role s = (Inr (reply_of res), s)"
  | (refresh) tok u role where "Cookie ''refresh_token'' q = Some tok" "s1 = s"
      "check_token (lib_jwt L) a ''refresh'' ''invalid refresh token'' tok s = (Inr (u, role), s)"
      "open_session (lib_jwt L) a u role s = (Inr (reply_of res), s)"
  using assms
proof (cases rule: open_routes_cases)
  case other
  then show thesis by (intro that(1)) simp_all
next
  case login
  from login(3) show thesis
  proof (cases rule: Login_cases)
    case refused
    then show thesis by (intro that(1)) simp_all
  next
    case (accepted email password user)
    from accepted(4) show thesis
    proof (cases rule: open_session_cases)
      case failed
      then show thesis by (intro that(1)) simp_all
    next
      case (opened acc ref)
      with accepted login(1,2) TestUsers_ascii [OF accepted(2)] show thesis
        by (intro that(2) [of "tu_UserID user" "tu_Role user"]) (auto simp: logs_in_def)
    qed
  qed
next
  case refresh
  from refresh(3) show thesis
  proof (cases rule: Refresh_cases)
    case refused
    then show thesis by (intro that(1)) simp_all
  next
    case (accepted tok u role)
    from accepted(3) show thesis
    proof (cases rule: open_session_cases)
      case failed
      then show thesis by (intro that(1)) simp_all
    next
      case (opened acc ref)
      with accepted show thesis by (intro that(3) [of tok u role]) simp_all
    qed
  qed
qed

section \<open>One request\<close>

text \<open>
  The contract of a BFF service: its request passes the log, the outer mux, the token check, a
  further guard and the limiter; its routes call upstream at most \<open>most\<close> times, in the name of the
  user in the context, and set no cookies.
\<close>

locale bff_service =
  fixes L :: "('l, 'w) libs" and a :: AuthConfig and rl :: RateLimiter
    and guard :: "('l, 'w) handler \<Rightarrow> ('l, 'w) handler" and routes :: "('l, 'w) handler"
    and serve :: "request \<Rightarrow> ('l, 'w) bff \<Rightarrow> reply \<times> ('l, 'w) bff" and most :: nat
  assumes serves: "serve q = RequestLogger (outer_mux L a (JWTMiddleware (lib_jwt L) a
      (guard (RateLimiter_Middleware (lib_limiter L) rl routes)))) [] q"
    and guards: "guard next ctx q s = next ctx q s \<or> (\<exists>r. guard next ctx q s = (Inl r, s) \<and> r_cookies r = [])"
    and routes_send: "sends (UserIDFrom ctx) most (routes ctx q)"
    and routes_bare: "bare (routes ctx q)"
begin

abbreviation limited :: "('l, 'w) handler" where
  "limited \<equiv> RateLimiter_Middleware (lib_limiter L) rl routes"

lemma serve_runs:
  assumes "serve q s = (r, s')"
  obtains res s1 where "outer_mux L a (JWTMiddleware (lib_jwt L) a (guard limited)) [] q s = (res, s1)"
    "r = reply_of res" "b_now s' = b_now s1" "b_sent s' = b_sent s1"
    "b_limiters s' = b_limiters s1" "b_world s' = b_world s1"
proof -
  obtain res s1 where run: "outer_mux L a (JWTMiddleware (lib_jwt L) a (guard limited)) [] q s = (res, s1)"
    by fastforce
  have "(r, s') = (reply_of res, s1\<lparr>b_log := b_log s1 @ [(q_method q, q_path q, r_status (reply_of res))]\<rparr>)"
    unfolding assms [symmetric] serves RequestLogger_def answer_reply_of run by simp
  with run show thesis by (intro that [of res s1]) simp_all
qed

lemma protected_cases:
  assumes "JWTMiddleware (lib_jwt L) a (guard limited) [] q s = (res, s1)"
  obtains (refused) "s1 = s" "r_cookies (reply_of res) = []"
  | (let_in) u role where "admitted (lib_jwt L) a q s u role" "u \<noteq> ''''"
      "limited (user_ctx u role) q s = (res, s1)"
  using assms
proof (cases rule: JWTMiddleware_cases)
  case (refused r)
  then show thesis by (intro that(1)) simp_all
next
  case (admitted u role)
  from admitted(1) have "u \<noteq> ''''" by (rule admittedE)
  with admitted guards [of limited "user_ctx u role" q s] show thesis by (auto intro: that)
qed

lemma api_cases:
  assumes "limited (user_ctx u role) q s = (res, s1)" "u \<noteq> ''''"
  obtains ok l reqs where "Allow (lib_limiter L) (b_now s) (limiter_of (lib_limiter L) rl u s) = (ok, l)"
    "map_of (b_limiters s1) = (map_of (b_limiters s))(u \<mapsto> l)" "b_now s1 = b_now s"
    "b_sent s1 = b_sent s @ reqs" "list_all (\<lambda>req. header_user req = u) reqs"
    "length reqs \<le> (if ok then most else 0)" "r_cookies (reply_of res) = []"
proof (rule RateLimiter_cases [OF assms(1) _ assms(2)])
  show "UserIDFrom (user_ctx u role) = u" by simp
next
  fix l
  assume "Allow (lib_limiter L) (b_now s) (limiter_of (lib_limiter L) rl u s) = (False, l)"
    "res = Inl (WriteError 429 ''rate limit exceeded'')" "b_sent s1 = b_sent s" "b_now s1 = b_now s"
    "map_of (b_limiters s1) = (map_of (b_limiters s))(u \<mapsto> l)"
  then show thesis by (intro that [of False l "[]"]) simp_all
next
  fix l s2
  assume passed: "Allow (lib_limiter L) (b_now s) (limiter_of (lib_limiter L) rl u s) = (True, l)"
    "routes (user_ctx u role) q s2 = (res, s1)" "b_sent s2 = b_sent s" "b_now s2 = b_now s"
    "map_of (b_limiters s2) = (map_of (b_limiters s))(u \<mapsto> l)"
  from routes_send [of "user_ctx u role" q] passed(2) have "calls u most s2 s1"
    unfolding sends_def by (metis snd_conv context_values(1))
  then obtain reqs where reqs: "b_now s1 = b_now s2" "b_limiters s1 = b_limiters s2" "b_sent s1 = b_sent s2 @ reqs"
    "length reqs \<le> most" "list_all (\<lambda>req. header_user req = u) reqs" by (auto simp: calls_def)
  from routes_bare [of "user_ctx u role" q] have "r_cookies (reply_of res) = []"
    unfolding bare_def answer_reply_of by (metis passed(2) fst_conv)
  with passed reqs show thesis by (intro that [of True l reqs]) simp_all
qed

theorem serve_cases:
  assumes "serve q s = (r, s')"
  obtains (quiet) "r_cookies r = []" "b_sent s' = b_sent s" "b_limiters s' = b_limiters s" "b_now s' = b_now s"
  | (opened) u role where "logs_in q u role \<and> ascii u \<and> ascii role \<or>
        (\<exists>tok. Cookie ''refresh_token'' q = Some tok \<and>
           check_token (lib_jwt L) a ''refresh'' ''invalid refresh token'' tok s = (Inr (u, role), s))"
      "open_session (lib_jwt L) a u role s = (Inr r, s)" "b_sent s' = b_sent s" "b_limiters s' = b_limiters s"
      "b_now s' = b_now s"
  | (calls) u role ok l reqs where "admitted (lib_jwt L) a q s u role"
      "Allow (lib_limiter L) (b_now s) (limiter_of (lib_limiter L) rl u s) = (ok, l)"
      "map_of (b_limiters s') = (map_of (b_limiters s))(u \<mapsto> l)" "b_now s' = b_now s"
      "b_sent s' = b_sent s @ reqs" "list_all (\<lambda>req. header_user req = u) reqs"
      "length reqs \<le> (if ok then most else 0)" "r_cookies r = []"
proof -
  from assms obtain res s1 where run: "outer_mux L a (JWTMiddleware (lib_jwt L) a (guard limited)) [] q s = (res, s1)"
    and r: "r = reply_of res" and s': "b_now s' = b_now s1" "b_sent s' = b_sent s1" "b_limiters s' = b_limiters s1"
    by (rule serve_runs)
  consider (protected) "JWTMiddleware (lib_jwt L) a (guard limited) [] q s = (res, s1)"
    | (open_part) "serve_mux (outer_routes L a q) q s = (res, s1)"
    using run unfolding outer_mux_def by (auto split: list.splits if_splits)
  then show thesis
  proof cases
    case protected
    then show thesis
    proof (cases rule: protected_cases)
      case refused
      with r s' show thesis by (intro quiet) simp_all
    next
      case (let_in u role)
      from let_in(3,2) show thesis by (rule api_cases) (use let_in(1) r s' in \<open>intro calls; simp\<close>)
    qed
  next
    case open_part
    then show thesis
    proof (cases rule: open_cases)
      case quiet
      with r s' show thesis by (intro that(1)) simp_all
    next
      case (login u role)
      with r s' show thesis by (intro opened [of u role]) simp_all
    next
      case (refresh tok u role)
      with r s' show thesis by (intro opened [of u role]) auto
    qed
  qed
qed

end

end
