(* ===== verification/BffHistories.thy ===== *)
theory BffHistories
  imports BffRuns
begin

text \<open>
  Histories of requests: in whose name the BFFs call upstream when nobody forges tokens, and how
  often each does. Proved once for the contract \<open>bff_service\<close> and interpreted on the three services.
\<close>

section \<open>Histories\<close>

text \<open>Requests with the time each arrives at.\<close>

fun history :: "(request \<Rightarrow> ('l, 'w) bff \<Rightarrow> reply \<times> ('l, 'w) bff) \<Rightarrow> (int \<times> request) list
  \<Rightarrow> ('l, 'w) bff \<Rightarrow> ('l, 'w) bff" where
  "history serve [] s = s"
| "history serve ((t, q) # es) s = history serve es (snd (serve q (s\<lparr>b_now := t\<rparr>)))"

definition logged_in :: "(int \<times> request) list \<Rightarrow> string \<Rightarrow> bool" where
  "logged_in es u \<longleftrightarrow> list_ex (\<lambda>(_, q). \<exists>role. logs_in q u role) es"

lemma logged_in_append [simp]: "logged_in (es @ fs) u \<longleftrightarrow> logged_in es u \<or> logged_in fs u"
  by (auto simp: logged_in_def)

lemma logged_in_one [simp]: "logged_in [(t, q)] u \<longleftrightarrow> (\<exists>role. logs_in q u role)"
  by (simp add: logged_in_def)

definition session_inv ::
  "jwt_lib \<Rightarrow> AuthConfig \<Rightarrow> (int \<times> request) list \<Rightarrow> string list \<Rightarrow> ('l, 'w) bff \<Rightarrow> bool" where
  "session_inv J a past known s \<longleftrightarrow>
     (\<forall>req\<in>set (b_sent s). logged_in past (header_user req)) \<and>
     (\<forall>tok\<in>set known. \<exists>u role. issued_to J a u role tok \<and> logged_in past u)"

lemma session_inv_extend:
  assumes "session_inv J a past known s" "b_sent s' = b_sent s @ reqs"
    "list_all (\<lambda>req. logged_in (past @ new) (header_user req)) reqs"
    "list_all (\<lambda>tok. \<exists>u role. issued_to J a u role tok \<and> logged_in (past @ new) u) toks"
  shows "session_inv J a (past @ new) (known @ toks) s'"
proof -
  have old: "\<forall>req\<in>set (b_sent s). logged_in (past @ new) (header_user req)"
    "\<forall>tok\<in>set known. \<exists>u role. issued_to J a u role tok \<and> logged_in (past @ new) u"
    using assms(1) unfolding session_inv_def logged_in_append by blast+
  with assms(2-4) show ?thesis unfolding session_inv_def list_all_iff by (simp add: ball_Un)
qed

text \<open>A token that passes a check names whom it was issued to.\<close>

lemma checked_issued:
  assumes laws: "jwt_laws J verifies"
    and check: "check_token J a wanted msg tok s = (Inr (u, role), s')"
    and known: "verifies (Secret a) tok \<longrightarrow> tok \<in> set known" "session_inv J a past known s0"
  shows "issued_to J a u role tok \<and> logged_in past u"
proof -
  from check obtain cs where parse: "Parse J (b_now s) tok (hmac_key a) = Some (True, MapClaims cs)"
    and u: "u = claim_string cs ''sub''" "role = claim_string cs ''role''" by (rule check_token_InrE)
  from jwt_soundD [OF laws parse] known obtain v r where v: "issued_to J a v r tok" "logged_in past v"
    unfolding session_inv_def by blast
  then obtain now ttl ty where plain: "plain_claims (token_claims v r now ttl ty)"
    and signed: "SignedString J (Secret a) (token_claims v r now ttl ty) = Some tok"
    unfolding issued_to_def by blast
  from jwt_genuineD [OF laws plain signed parse] u have "u = v" "role = r" by simp_all
  with v show ?thesis by simp
qed

lemma Cookie_in: "Cookie name q = Some tok \<Longrightarrow> (name, tok) \<in> set (q_cookies q)"
  by (simp add: Cookie_def map_of_SomeD)

section \<open>The limiter's budget\<close>

fun allows :: "'l limiter_lib \<Rightarrow> 'l \<Rightarrow> int list \<Rightarrow> nat \<times> 'l" where
  "allows lib l [] = (0, l)"
| "allows lib l (t # ts) =
     (case Allow lib t l of (ok, l') \<Rightarrow>
      case allows lib l' ts of (n, l'') \<Rightarrow> (n + of_bool ok, l''))"

text \<open>
  The documented token bucket: what a limiter lets through is bounded by its burst and its rate
  times the time from the first event to the last. Times are nanoseconds.
\<close>

definition limiter_law :: "'l limiter_lib \<Rightarrow> bool" where
  "limiter_law lib \<longleftrightarrow> (\<forall>r b ts. 0 \<le> r \<longrightarrow> 0 \<le> b \<longrightarrow> sorted ts \<longrightarrow> ts \<noteq> [] \<longrightarrow>
     int (fst (allows lib (NewLimiter lib r b) ts)) * second \<le> b * second + r * (last ts - hd ts))"

lemma allows_snoc:
  "allows lib l (ts @ [t]) =
    (case Allow lib t (snd (allows lib l ts)) of (ok, l') \<Rightarrow> (fst (allows lib l ts) + of_bool ok, l'))"
  by (induction ts arbitrary: l) (auto split: prod.splits)

definition user_calls :: "string \<Rightarrow> ('l, 'w) bff \<Rightarrow> nat" where
  "user_calls u s = length (filter (\<lambda>req. header_user req = u) (b_sent s))"

definition budget_inv :: "'l limiter_lib \<Rightarrow> RateLimiter \<Rightarrow> nat \<Rightarrow> int \<Rightarrow> int \<Rightarrow> ('l, 'w) bff \<Rightarrow> bool" where
  "budget_inv lib rl most t0 t s \<longleftrightarrow> (\<forall>u. \<exists>ts. sorted ts \<and> set ts \<subseteq> {t0..t} \<and>
     limiter_of lib rl u s = snd (allows lib (NewLimiter lib (rl_rate rl) (rl_burst rl)) ts) \<and>
     user_calls u s \<le> most * fst (allows lib (NewLimiter lib (rl_rate rl) (rl_burst rl)) ts))"

lemma budget_later: "budget_inv lib rl most t0 t s \<Longrightarrow> t \<le> t' \<Longrightarrow> budget_inv lib rl most t0 t' (s\<lparr>b_now := n\<rparr>)"
  unfolding budget_inv_def limiter_of_def user_calls_def by fastforce

lemma budget_bound:
  assumes "budget_inv lib rl most t0 t s" "limiter_law lib" "0 \<le> rl_rate rl" "0 \<le> rl_burst rl" "t0 \<le> t"
  shows "int (user_calls u s) * second \<le> int most * (rl_burst rl * second + rl_rate rl * (t - t0))"
proof -
  let ?n = "\<lambda>ts. fst (allows lib (NewLimiter lib (rl_rate rl) (rl_burst rl)) ts)"
  from assms(1) obtain ts where ts: "sorted ts" "set ts \<subseteq> {t0..t}" "user_calls u s \<le> most * ?n ts"
    unfolding budget_inv_def by blast
  have "int (?n ts) * second \<le> rl_burst rl * second + rl_rate rl * (t - t0)"
  proof (cases "ts = []")
    case True
    with assms show ?thesis by (simp add: second_def)
  next
    case False
    then have "last ts \<le> t" "t0 \<le> hd ts" using ts(2) by (auto dest: last_in_set hd_in_set)
    then have "last ts - hd ts \<le> t - t0" by linarith
    then have "rl_rate rl * (last ts - hd ts) \<le> rl_rate rl * (t - t0)"
      using assms(3) by (rule mult_left_mono)
    moreover have "int (?n ts) * second \<le> rl_burst rl * second + rl_rate rl * (last ts - hd ts)"
      using assms(2-4) ts(1) False unfolding limiter_law_def by blast
    ultimately show ?thesis by linarith
  qed
  then have "int most * (int (?n ts) * second) \<le> int most * (rl_burst rl * second + rl_rate rl * (t - t0))"
    by (rule mult_left_mono) simp
  moreover have "int (user_calls u s) * second \<le> int (most * ?n ts) * second"
    by (intro mult_right_mono) (use ts(3) of_nat_mono in \<open>blast, simp add: second_def\<close>)
  ultimately show ?thesis by (simp add: mult.assoc)
qed

section \<open>The contract over histories\<close>

context bff_service begin

lemma session_step:
  assumes laws: "jwt_laws (lib_jwt L) verifies" "ttl_ok a" and t: "clock_range t"
    and run: "serve q (s\<lparr>b_now := t\<rparr>) = (r, s')"
    and honest: "list_all (\<lambda>(_, tok). verifies (Secret a) tok \<longrightarrow> tok \<in> set known) (q_cookies q)"
    and inv: "session_inv (lib_jwt L) a past known s"
  shows "session_inv (lib_jwt L) a (past @ [(t, q)]) (known @ given r) s'"
  using run
proof (cases rule: serve_cases)
  case quiet
  with session_inv_extend [OF inv, of s' "[]" "[(t, q)]" "[]"] show ?thesis by (simp add: given_def)
next
  case (opened u role)
  have who: "ascii u \<and> ascii role \<and> logged_in (past @ [(t, q)]) u"
    using opened(1)
  proof (elim disjE exE conjE)
    assume "logs_in q u role" "ascii u" "ascii role"
    then show ?thesis by auto
  next
    fix tok
    assume tok: "Cookie ''refresh_token'' q = Some tok"
      and check: "check_token (lib_jwt L) a ''refresh'' ''invalid refresh token'' tok (s\<lparr>b_now := t\<rparr>) = (Inr (u, role), s\<lparr>b_now := t\<rparr>)"
    from honest Cookie_in [OF tok] have "verifies (Secret a) tok \<longrightarrow> tok \<in> set known" by (auto simp: list_all_iff)
    from checked_issued [OF laws(1) check this inv] show ?thesis by (auto simp: issued_to_def)
  qed
  with open_session_issues [OF opened(2) laws(2)] t
  have "list_all (issued_to (lib_jwt L) a u role) (given r)" by simp
  with who have "list_all (\<lambda>tok. \<exists>u role. issued_to (lib_jwt L) a u role tok \<and> logged_in (past @ [(t, q)]) u) (given r)"
    by (auto simp: list_all_iff)
  with session_inv_extend [OF inv, of s' "[]"] opened(3) show ?thesis by simp
next
  case (calls u role ok l reqs)
  from calls(1) obtain tok where tok: "Cookie ''access_token'' q = Some tok"
    and check: "check_token (lib_jwt L) a ''access'' ''invalid token'' tok (s\<lparr>b_now := t\<rparr>) = (Inr (u, role), s\<lparr>b_now := t\<rparr>)"
    unfolding admitted_def by blast
  from honest Cookie_in [OF tok] have "verifies (Secret a) tok \<longrightarrow> tok \<in> set known" by (auto simp: list_all_iff)
  from checked_issued [OF laws(1) check this inv] calls(6)
  have "list_all (\<lambda>req. logged_in (past @ [(t, q)]) (header_user req)) reqs" by (auto simp: list_all_iff)
  with session_inv_extend [OF inv, of s' reqs "[(t, q)]" "[]"] calls(5,8) show ?thesis by (simp add: given_def)
qed

lemma budget_step:
  assumes run: "serve q s = (r, s')" and inv: "budget_inv (lib_limiter L) rl most t0 t s"
    and t: "b_now s = t" "t0 \<le> t"
  shows "budget_inv (lib_limiter L) rl most t0 t s'"
  using run
proof (cases rule: serve_cases)
  case (calls u role ok l reqs)
  show ?thesis unfolding budget_inv_def
  proof (intro allI)
    fix v
    from inv obtain ts where ts: "sorted ts" "set ts \<subseteq> {t0..t}"
      "limiter_of (lib_limiter L) rl v s = snd (allows (lib_limiter L) (NewLimiter (lib_limiter L) (rl_rate rl) (rl_burst rl)) ts)"
      "user_calls v s \<le> most * fst (allows (lib_limiter L) (NewLimiter (lib_limiter L) (rl_rate rl) (rl_burst rl)) ts)"
      unfolding budget_inv_def by blast
    have others: "limiter_of (lib_limiter L) rl v s' = (if v = u then l else limiter_of (lib_limiter L) rl v s)"
      by (simp add: limiter_of_def calls(3))
    have count: "user_calls v s' = user_calls v s + (if v = u then length reqs else 0)"
      using calls(6) by (auto simp: user_calls_def calls(5) list_all_iff filter_id_conv filter_empty_conv)
    show "\<exists>ts. sorted ts \<and> set ts \<subseteq> {t0..t} \<and>
        limiter_of (lib_limiter L) rl v s' = snd (allows (lib_limiter L) (NewLimiter (lib_limiter L) (rl_rate rl) (rl_burst rl)) ts) \<and>
        user_calls v s' \<le> most * fst (allows (lib_limiter L) (NewLimiter (lib_limiter L) (rl_rate rl) (rl_burst rl)) ts)"
    proof (cases "v = u")
      case False
      with ts others count show ?thesis by auto
    next
      case True
      have "sorted (ts @ [t])" "set (ts @ [t]) \<subseteq> {t0..t}" using ts t by (auto simp: sorted_append)
      moreover have "allows (lib_limiter L) (NewLimiter (lib_limiter L) (rl_rate rl) (rl_burst rl)) (ts @ [t]) =
          (fst (allows (lib_limiter L) (NewLimiter (lib_limiter L) (rl_rate rl) (rl_burst rl)) ts) + of_bool ok, l)"
        using calls(2) True by (simp add: allows_snoc ts(3) [symmetric] t(1) [symmetric])
      moreover have "user_calls v s' \<le> most *
          (fst (allows (lib_limiter L) (NewLimiter (lib_limiter L) (rl_rate rl) (rl_burst rl)) ts) + of_bool ok)"
        using ts(4) count calls(7) True by (simp add: distrib_left split: if_splits)
      ultimately show ?thesis using others True by (intro exI [of _ "ts @ [t]"]) simp
    qed
  qed
qed (use inv in \<open>simp_all add: budget_inv_def limiter_of_def user_calls_def\<close>)

lemma budget_history:
  assumes "budget_inv (lib_limiter L) rl most t0 t s" "sorted (t # map fst es)" "t0 \<le> t"
  shows "budget_inv (lib_limiter L) rl most t0 (last (t # map fst es)) (history serve es s)"
  using assms
proof (induction es arbitrary: s t)
  case (Cons e es)
  obtain u q where e: "e = (u, q)" by fastforce
  obtain r s' where run: "serve q (s\<lparr>b_now := u\<rparr>) = (r, s')" by fastforce
  from Cons.prems have "t \<le> u" "sorted (u # map fst es)" "t0 \<le> u" by (auto simp: e)
  with budget_step [OF run budget_later [OF Cons.prems(1)]] Cons.IH [of u s'] run show ?case
    by (simp add: e)
qed simp

theorem rate_limited:
  assumes "limiter_law (lib_limiter L)" "0 \<le> rl_rate rl" "0 \<le> rl_burst rl" "sorted (t # map fst es)"
    "b_limiters s = []" "b_sent s = []"
  shows "int (user_calls u (history serve es s)) * second
    \<le> int most * (rl_burst rl * second + rl_rate rl * (last (t # map fst es) - t))"
proof (rule budget_bound [OF _ assms(1-3)])
  have "budget_inv (lib_limiter L) rl most t t s"
    unfolding budget_inv_def by (intro allI exI [of _ "[]"]) (simp add: limiter_of_def user_calls_def assms)
  then show "budget_inv (lib_limiter L) rl most t (last (t # map fst es)) (history serve es s)"
    using assms(4) by (rule budget_history) simp
  show "t \<le> last (t # map fst es)" using assms(4) by (cases es rule: rev_cases) (auto simp: sorted_append)
qed

end

section \<open>The three services\<close>

interpretation client_bff: bff_service L "cf_auth cf" "cf_limiter cf" "\<lambda>next. next" "client_api L cf" "client_serve L cf" 1
  for L :: "('l, 'w) libs" and cf :: client_config
  by unfold_locales
    (simp_all add: client_serve_def client_protected_def client_api_sends client_api_bare del: One_nat_def)

interpretation freelancer_bff: bff_service L "cf_auth cf" "cf_limiter cf" "\<lambda>next. next" "freelancer_api L cf" "freelancer_serve L cf" 1
  for L :: "('l, 'w) libs" and cf :: freelancer_config
  by unfold_locales
    (simp_all add: freelancer_serve_def freelancer_protected_def freelancer_api_sends freelancer_api_bare del: One_nat_def)

interpretation admin_bff: bff_service L "cf_auth cf" "cf_limiter cf" "RequireRole ''admin''" "admin_api L cf schedule"
    "admin_serve L cf schedule" 3
  for L :: "('l, 'w) libs" and cf :: admin_config and schedule
  by unfold_locales
    (simp_all add: admin_serve_def admin_protected_def admin_api_sends admin_api_bare RequireRole_def raise_def)

section \<open>The three services together\<close>

text \<open>
  One deployment: the services run with one environment, so they check tokens with the same secret,
  and call the same upstream world. An event is a request to one of them at a time.
\<close>

datatype app = ClientApp | FreelancerApp | AdminApp

definition platform_serve ::
  "('l, 'w) libs \<Rightarrow> bff_env \<Rightarrow> thread list \<Rightarrow> app \<Rightarrow> request \<Rightarrow> ('l, 'w) bff \<Rightarrow> reply \<times> ('l, 'w) bff" where
  "platform_serve L ev schedule app =
     (case app of
        ClientApp \<Rightarrow> client_serve L (client_config_of ev)
      | FreelancerApp \<Rightarrow> freelancer_serve L (freelancer_config_of ev)
      | AdminApp \<Rightarrow> admin_serve L (admin_config_of ev) schedule)"

type_synonym ('l, 'w) platform = "app \<Rightarrow> ('l, 'w) bff"

definition platform_step ::
  "('l, 'w) libs \<Rightarrow> bff_env \<Rightarrow> thread list \<Rightarrow> int \<times> app \<times> request \<Rightarrow> ('l, 'w) platform \<Rightarrow> reply \<times> ('l, 'w) platform" where
  "platform_step L ev schedule e S =
     (case e of (t, app, q) \<Rightarrow>
      case platform_serve L ev schedule app q ((S app)\<lparr>b_now := t\<rparr>) of (r, s') \<Rightarrow>
        (r, \<lambda>x. (if x = app then s' else S x)\<lparr>b_world := b_world s'\<rparr>))"

fun platform_run ::
  "('l, 'w) libs \<Rightarrow> bff_env \<Rightarrow> thread list \<Rightarrow> (int \<times> app \<times> request) list \<Rightarrow> ('l, 'w) platform \<Rightarrow> ('l, 'w) platform" where
  "platform_run L ev schedule [] S = S"
| "platform_run L ev schedule (e # es) S = platform_run L ev schedule es (snd (platform_step L ev schedule e S))"

text \<open>
  Nobody forges tokens: a cookie whose signature fits the key is one that one of the services has
  given out before.
\<close>

fun unforged ::
  "('l, 'w) libs \<Rightarrow> bff_env \<Rightarrow> thread list \<Rightarrow> (string \<Rightarrow> bool) \<Rightarrow> string list
   \<Rightarrow> (int \<times> app \<times> request) list \<Rightarrow> ('l, 'w) platform \<Rightarrow> bool" where
  "unforged L ev schedule fits known [] S \<longleftrightarrow> True"
| "unforged L ev schedule fits known (e # es) S \<longleftrightarrow>
     list_all (\<lambda>(_, tok). fits tok \<longrightarrow> tok \<in> set known) (q_cookies (snd (snd e))) \<and>
     unforged L ev schedule fits (known @ given (fst (platform_step L ev schedule e S))) es
       (snd (platform_step L ev schedule e S))"

definition requests_of :: "(int \<times> app \<times> request) list \<Rightarrow> (int \<times> request) list" where
  "requests_of es = map (\<lambda>(t, _, q). (t, q)) es"

lemma configured_auth [simp]:
  "cf_auth (client_config_of ev) = env_auth ev" "cf_auth (freelancer_config_of ev) = env_auth ev"
  "cf_auth (admin_config_of ev) = env_auth ev"
  by (simp_all add: client_config_of_def freelancer_config_of_def admin_config_of_def)

lemma platform_serve_step:
  assumes "jwt_laws (lib_jwt L) verifies" "clock_range t"
    and run: "platform_serve L ev schedule app q (s\<lparr>b_now := t\<rparr>) = (r, s')"
    and rest: "list_all (\<lambda>(_, tok). verifies (ev_jwtSecret ev) tok \<longrightarrow> tok \<in> set known) (q_cookies q)"
      "session_inv (lib_jwt L) (env_auth ev) past known s"
  shows "session_inv (lib_jwt L) (env_auth ev) (past @ [(t, q)]) (known @ given r) s'"
proof -
  have secret: "Secret (env_auth ev) = ev_jwtSecret ev" by (simp add: env_auth_def)
  show ?thesis
  proof (cases app)
    case ClientApp
    with client_bff.session_step [of L verifies "client_config_of ev" t q s r s' known past] assms secret env_ttl_ok
    show ?thesis by (simp add: platform_serve_def)
  next
    case FreelancerApp
    with freelancer_bff.session_step [of L verifies "freelancer_config_of ev" t q s r s' known past] assms secret env_ttl_ok
    show ?thesis by (simp add: platform_serve_def)
  next
    case AdminApp
    with admin_bff.session_step [of L verifies "admin_config_of ev" t schedule q s r s' known past] assms secret env_ttl_ok
    show ?thesis by (simp add: platform_serve_def)
  qed
qed

lemma session_inv_world [simp]: "session_inv J a past known (s\<lparr>b_world := w\<rparr>) = session_inv J a past known s"
  by (simp add: session_inv_def)

lemma platform_step_inv:
  assumes "jwt_laws (lib_jwt L) verifies" "clock_range t"
    and "list_all (\<lambda>(_, tok). verifies (ev_jwtSecret ev) tok \<longrightarrow> tok \<in> set known) (q_cookies q)"
    and inv: "\<And>x. session_inv (lib_jwt L) (env_auth ev) past known (S x)"
    and run: "platform_step L ev schedule (t, app, q) S = (r, S')"
  shows "session_inv (lib_jwt L) (env_auth ev) (past @ [(t, q)]) (known @ given r) (S' x)"
proof -
  from run obtain s' where step: "platform_serve L ev schedule app q ((S app)\<lparr>b_now := t\<rparr>) = (r, s')"
    and S': "S' = (\<lambda>x. (if x = app then s' else S x)\<lparr>b_world := b_world s'\<rparr>)"
    by (auto simp: platform_step_def split: prod.splits)
  from platform_serve_step [OF assms(1,2) step assms(3) inv]
  have new: "session_inv (lib_jwt L) (env_auth ev) (past @ [(t, q)]) (known @ given r) s'" .
  then have "list_all (\<lambda>tok. \<exists>u role. issued_to (lib_jwt L) (env_auth ev) u role tok \<and>
      logged_in (past @ [(t, q)]) u) (given r)" by (simp add: session_inv_def list_all_iff)
  with session_inv_extend [OF inv [of x], of "S x" "[]" "[(t, q)]" "given r"] new show ?thesis by (simp add: S')
qed

lemma platform_run_inv:
  assumes "jwt_laws (lib_jwt L) verifies"
    and "list_all (\<lambda>(t, _). clock_range t) es" "unforged L ev schedule (verifies (ev_jwtSecret ev)) known es S"
      "\<And>x. session_inv (lib_jwt L) (env_auth ev) past known (S x)"
  shows "\<exists>known'. \<forall>x. session_inv (lib_jwt L) (env_auth ev) (past @ requests_of es) known' (platform_run L ev schedule es S x)"
  using assms(2-4)
proof (induction es arbitrary: known S past)
  case (Cons e es)
  obtain t app q where e: "e = (t, app, q)" by (cases e) auto
  obtain r S' where run: "platform_step L ev schedule e S = (r, S')" by fastforce
  from Cons.prems platform_step_inv [OF assms(1) _ _ _ run [unfolded e], of known past]
  have "session_inv (lib_jwt L) (env_auth ev) (past @ [(t, q)]) (known @ given r) (S' x)" for x by (simp add: e)
  with Cons.IH [of "known @ given r" S' "past @ [(t, q)]"] Cons.prems run show ?case
    by (simp add: e requests_of_def)
qed (auto simp: requests_of_def)

end
