(* ===== verification/BffLink.thy ===== *)
theory BffLink
  imports BffHistories ContractsService
begin

text \<open>
  What reaches the upstream services: ids and user ids through the escaping of paths and queries,
  and the contracts service behind the BFF of clients.
\<close>

section \<open>The request a handler sends\<close>

text \<open>
  A run of \<open>m\<close> from \<open>s\<close> sends one request, whose target a server reads as these path segments
  and this query.
\<close>

definition sends_to :: "(('l, 'w) bff, reply, reply) prog \<Rightarrow> ('l, 'w) bff \<Rightarrow> string \<Rightarrow> string list \<Rightarrow> string \<Rightarrow> bool" where
  "sends_to m s meth segs qry \<longleftrightarrow> (\<exists>req. b_sent (snd (m s)) = b_sent s @ [req] \<and> o_method req = meth \<and>
     path_segments (target_path (o_target req)) = map Some segs \<and> target_query (o_target req) = qry)"

lemma url_okI:
  "list_all printable t \<Longrightarrow> CHR ''#'' \<notin> set t \<Longrightarrow> unescape False (target_path t) \<noteq> None \<Longrightarrow> url_ok t"
  by (auto simp: url_ok_def printable_def list_all_iff cut_absent)

definition request_for :: "ServiceClient \<Rightarrow> ctx \<Rightarrow> string \<Rightarrow> string \<Rightarrow> payload option \<Rightarrow> out_req" where
  "request_for c ctx meth path p = the (new_request c ctx meth path p)"

lemma request_for_fields:
  assumes "url_ok path"
  shows "o_base (request_for c ctx meth path p) = BaseURL c" "o_method (request_for c ctx meth path p) = meth"
    "o_target (request_for c ctx meth path p) = path" "o_body (request_for c ctx meth path p) = p"
  using assms by (simp_all add: request_for_def new_request_def)

lemma Forward_run:
  assumes "url_ok path"
  shows "client_Forward http c ctx meth path p s =
    (case http (b_world s) (request_for c ctx meth path p) of
       (None, w) \<Rightarrow> (Inl (unavailable c), s\<lparr>b_world := w, b_sent := b_sent s @ [request_for c ctx meth path p]\<rparr>)
     | (Some (status, ctype, resp), w) \<Rightarrow>
         (Inr \<lparr>r_status = status, r_content_type = ctype, r_cookies = [], r_body = resp\<rparr>,
          s\<lparr>b_world := w, b_sent := b_sent s @ [request_for c ctx meth path p]\<rparr>))"
  using assms by (auto simp: request_for_def new_request_def client_Forward_def bnd_def map_err_def http_Do_def
      Let_def ret_def split: option.split prod.split)

text \<open>An escaped id between two parts of a path.\<close>

lemma path_with_id:
  assumes "list_all printable (pre @ suf)" "set (pre @ suf) \<inter> set ''?#'' = {}"
    "unescape False pre \<noteq> None" "unescape False suf \<noteq> None"
  shows "url_ok (pre @ PathEscape i @ suf)" "target_path (pre @ PathEscape i @ suf) = pre @ PathEscape i @ suf"
    "target_query (pre @ PathEscape i @ suf) = ''''"
proof -
  have free: "CHR ''#'' \<notin> set (pre @ PathEscape i @ suf)" "CHR ''?'' \<notin> set (pre @ PathEscape i @ suf)"
    using assms(2) PathEscape_free [of i] by auto
  then show path: "target_path (pre @ PathEscape i @ suf) = pre @ PathEscape i @ suf"
    and "target_query (pre @ PathEscape i @ suf) = ''''" by (simp_all add: target_plain)
  have "list_all printable (pre @ PathEscape i @ suf)"
    using assms(1) PathEscape_visible [of _ i] by (auto simp: list_all_iff visible_def printable_def)
  moreover have "unescape False (pre @ PathEscape i @ suf) \<noteq> None"
    using assms(3,4) by (auto simp: unescape_append)
  ultimately show "url_ok (pre @ PathEscape i @ suf)" using free(1) path by (intro url_okI) simp_all
qed

lemma Forward_sends_to:
  assumes "url_ok path" "path_segments (target_path path) = map Some segs" "target_query path = qry"
  shows "sends_to (client_Forward http c ctx meth path p) s meth segs qry"
  unfolding sends_to_def Forward_run [OF assms(1)] using assms request_for_fields [OF assms(1)]
  by (intro exI [of _ "request_for c ctx meth path p"]) (auto split: prod.split option.split)

lemma segments_with_id:
  "path_segments (''/api/v1/contracts/'' @ PathEscape i) = map Some ['''', ''api'', ''v1'', ''contracts'', i]"
  "path_segments (''/api/v1/jobs/'' @ PathEscape i) = map Some ['''', ''api'', ''v1'', ''jobs'', i]"
  "CHR ''/'' \<notin> set suf \<Longrightarrow> path_segments (''/api/v1/contracts/'' @ PathEscape i @ ''/'' @ suf) =
     map Some ['''', ''api'', ''v1'', ''contracts'', i] @ [unescape False suf]"
proof -
  have free: "CHR ''/'' \<notin> set (PathEscape i)" using PathEscape_free [of i] by auto
  have pre: "path_segments (''/api/v1/contracts/'' @ t) = map Some ['''', ''api'', ''v1'', ''contracts''] @ path_segments t"
    "path_segments (''/api/v1/jobs/'' @ t) = map Some ['''', ''api'', ''v1'', ''jobs''] @ path_segments t" for t
    using path_segments_cut [of "''''"] path_segments_cut [of "''api''"] path_segments_cut [of "''v1''"]
      path_segments_cut [of "''contracts''"] path_segments_cut [of "''jobs''"] by simp_all
  from pre path_segments_last [OF free]
  show "path_segments (''/api/v1/contracts/'' @ PathEscape i) = map Some ['''', ''api'', ''v1'', ''contracts'', i]"
    "path_segments (''/api/v1/jobs/'' @ PathEscape i) = map Some ['''', ''api'', ''v1'', ''jobs'', i]" by simp_all
  assume "CHR ''/'' \<notin> set suf"
  with pre(1) path_segments_cut [OF free] path_segments_last [of suf]
  show "path_segments (''/api/v1/contracts/'' @ PathEscape i @ ''/'' @ suf) =
     map Some ['''', ''api'', ''v1'', ''contracts'', i] @ [unescape False suf]" by simp
qed

text \<open>Parts of paths the handlers put around an id.\<close>

definition path_part :: "string \<Rightarrow> bool" where
  "path_part p \<longleftrightarrow> list_all (\<lambda>ch. printable ch \<and> ch \<notin> set ''?#'') p \<and> unescape False p \<noteq> None"

lemma path_parts:
  "path_part ''/api/v1/contracts/''" "path_part ''/api/v1/jobs/''" "path_part ''/accept''" "path_part ''/complete''"
  "path_part ''/cancel''" "path_part ''''"
  by code_simp+

lemma with_id:
  assumes "path_part pre" "path_part suf"
  shows "url_ok (pre @ PathEscape i @ suf)" "target_path (pre @ PathEscape i @ suf) = pre @ PathEscape i @ suf"
    "target_query (pre @ PathEscape i @ suf) = ''''"
  by (rule path_with_id; use assms in \<open>auto simp: path_part_def list_all_iff\<close>)+

lemma contract_id_sent:
  "sends_to (client_Forward http c ctx meth (''/api/v1/contracts/'' @ PathEscape i) p) s meth
     ['''', ''api'', ''v1'', ''contracts'', i] ''''"
  "CHR ''/'' \<notin> set suf \<Longrightarrow> path_part (''/'' @ suf) \<Longrightarrow> unescape False suf = Some suf \<Longrightarrow>
   sends_to (client_Forward http c ctx meth (''/api/v1/contracts/'' @ PathEscape i @ ''/'' @ suf) p) s meth
     ['''', ''api'', ''v1'', ''contracts'', i, suf] ''''"
  "sends_to (client_Forward http c ctx meth (''/api/v1/jobs/'' @ PathEscape i) p) s meth
     ['''', ''api'', ''v1'', ''jobs'', i] ''''"
  using with_id [OF path_parts(1) path_parts(6), of i] with_id [OF path_parts(2) path_parts(6), of i]
    with_id [OF path_parts(1), of "''/'' @ suf" i] segments_with_id [of i] segments_with_id(3) [of suf i]
  by (intro Forward_sends_to; simp)+

section \<open>The contracts service behind a BFF\<close>

text \<open>
  \<open>RegisterRoutes\<close> of the contracts service registers these handlers; chi, its router, is a
  parameter: method and path to the handler and the URL parameter \<open>id\<close>. The handlers read the rest
  from the query or the body, whose decoding is a parameter as in theory ContractsHandler.
\<close>

datatype contracts_route = RouteCreate | RouteList | RouteGet | RouteAccept | RouteComplete | RouteCancel

type_synonym chi_router = "string \<Rightarrow> string \<Rightarrow> (contracts_route \<times> string) option"

definition contracts_call_of ::
  "(payload option \<Rightarrow> CreateContractRequest option) \<Rightarrow> contracts_route \<Rightarrow> string \<Rightarrow> out_req \<Rightarrow> contracts_call" where
  "contracts_call_of bind route i req =
     (let qry = query_get (target_query (o_target req)) in
      case route of
        RouteCreate \<Rightarrow> PostContract (bind (o_body req))
      | RouteList \<Rightarrow> GetContracts (qry ''client_id'') (qry ''freelancer_id'') (qry ''limit'') (qry ''offset'')
      | RouteGet \<Rightarrow> GetContractBy i
      | RouteAccept \<Rightarrow> PostAccept i
      | RouteComplete \<Rightarrow> PostComplete i
      | RouteCancel \<Rightarrow> PostCancel i)"

definition contracts_http ::
  "chi_router \<Rightarrow> (payload option \<Rightarrow> CreateContractRequest option) \<Rightarrow> codec \<Rightarrow> 'p PaymentsService \<Rightarrow> string
   \<Rightarrow> ((cdb, string, 'p) saga_sess) transport" where
  "contracts_http chi bind k svc base w req =
     (if o_base req \<noteq> base then (None, w)
      else case chi (o_method req) (target_path (o_target req)) of
        None \<Rightarrow> (Some (404, ''text/plain; charset=utf-8'', Bytes (''404 page not found'' @ [CHR 0x0A])), w)
      | Some (route, i) \<Rightarrow>
          (case contracts_serve k svc (contracts_call_of bind route i req) w of
             (r, w') \<Rightarrow> (Some (code r, ''application/json'', Json (body r)), w')))"

lemma client_list_route:
  assumes "q_method q = ''GET''" "q_path q = [''api'', ''v1'', ''contracts'']"
  shows "client_api L cf ctx q = client_contract_List (lib_http L) (cf_contracts cf) ctx q"
  unfolding client_api_def serve_mux_def assms client_job_routes_def client_match_routes_def
    client_contract_routes_def by (simp add: method_matches_def)

text \<open>The query the client's list is asked with reads back as the user's id and nothing else.\<close>

lemma client_list_target:
  fixes u :: string defines "t \<equiv> ''/api/v1/contracts?client_id='' @ QueryEscape u"
  shows "url_ok t" "target_path t = ''/api/v1/contracts''" "query_get (target_query t) ''client_id'' = u"
    "n \<noteq> ''client_id'' \<Longrightarrow> query_get (target_query t) n = ''''"
proof -
  have t: "t = ''/api/v1/contracts'' @ CHR ''?'' # (''client_id'' @ CHR ''='' # QueryEscape u)" by (simp add: t_def)
  have free: "CHR ''#'' \<notin> set (QueryEscape u)" "CHR ''&'' \<notin> set (QueryEscape u)" "CHR '';'' \<notin> set (QueryEscape u)"
    using QueryEscape_free [of u] by auto
  have q: "target_path t = ''/api/v1/contracts''" "target_query t = ''client_id'' @ CHR ''='' # QueryEscape u"
    unfolding t by (rule target_queried; use free in simp)+
  then show "target_path t = ''/api/v1/contracts''" by simp
  show "query_get (target_query t) ''client_id'' = u" unfolding q by (rule query_get_escaped) simp_all
  have pairs: "query_pairs (target_query t) = [(''client_id'', u)]"
  proof -
    have "split_at (CHR ''&'') (target_query t) = [target_query t]" unfolding q
      by (rule split_at_absent) (use free in simp)
    moreover have "cut (CHR ''='') (target_query t) = (''client_id'', QueryEscape u)" unfolding q
      by (rule cut_at) simp
    moreover have "CHR '';'' \<notin> set (target_query t)" "target_query t \<noteq> []" unfolding q using free by auto
    moreover have "unescape True ''client_id'' = Some ''client_id''" by code_simp
    ultimately show ?thesis by (simp add: query_pairs_def query_pair_def)
  qed
  then show "n \<noteq> ''client_id'' \<Longrightarrow> query_get (target_query t) n = ''''" by (simp add: query_get_def)
  show "url_ok t"
  proof (rule url_okI)
    have "list_all printable (QueryEscape u)"
      using QueryEscape_visible [of _ u] by (auto simp: list_all_iff visible_def printable_def)
    moreover have "list_all printable ''/api/v1/contracts?client_id=''" by code_simp
    ultimately show "list_all printable t" unfolding t_def list_all_append by blast
    show "CHR ''#'' \<notin> set t" unfolding t using free by simp
    show "unescape False (target_path t) \<noteq> None" unfolding q(1) by code_simp
  qed
qed

text \<open>A request under \<open>/api/\<close> to the clients' BFF by an admitted user, past the limiter.\<close>

lemma client_serve_admitted:
  assumes "client_serve L cf q s = (r, s')" "admitted (lib_jwt L) (cf_auth cf) q s u role"
    and "q_path q = ''api'' # x # rest"
  obtains (limited) "r = WriteError 429 ''rate limit exceeded''"
  | (passed) s1 s2 where "b_world s1 = b_world s" "answer (client_api L cf (user_ctx u role) q) s1 = (r, s2)"
      "b_world s' = b_world s2"
proof -
  from assms(2) obtain tok where tok: "Cookie ''access_token'' q = Some tok"
    "check_token (lib_jwt L) (cf_auth cf) ''access'' ''invalid token'' tok s = (Inr (u, role), s)"
    unfolding admitted_def by blast
  from assms(2) have u: "u \<noteq> ''''" by (rule admittedE)
  from assms(1) obtain res s1 where run: "outer_mux L (cf_auth cf) (client_protected L cf) [] q s = (res, s1)"
    and r: "r = reply_of res" and w: "b_world s' = b_world s1"
    by (cases rule: client_bff.serve_runs) (auto simp: client_protected_def)
  have "RateLimiter_Middleware (lib_limiter L) (cf_limiter cf) (client_api L cf) (user_ctx u role) q s = (res, s1)"
    using run tok by (simp add: outer_mux_def assms(3) client_protected_def JWTMiddleware_def bnd_def)
  then show thesis
  proof (rule RateLimiter_cases)
    show "UserIDFrom (user_ctx u role) = u" by simp
    show "u \<noteq> ''''" by (rule u)
    show thesis if "res = Inl (WriteError 429 ''rate limit exceeded'')" using that r by (intro limited) simp
    show thesis if "client_api L cf (user_ctx u role) q s2 = (res, s1)" "b_world s2 = b_world s" for s2
      using that r w by (intro passed [of s2 s1]) (simp_all add: answer_reply_of)
  qed
qed

lemma own_list:
  assumes "client_serve L cf q s = (r, s')" "admitted (lib_jwt L) (cf_auth cf) q s u role"
    and q: "q_method q = ''GET''" "q_path q = [''api'', ''v1'', ''contracts'']"
    and http: "lib_http L = contracts_http chi bind k svc (BaseURL (cf_contracts cf))"
    and chi: "chi ''GET'' ''/api/v1/contracts'' = Some (RouteList, i)"
    and ok: "r_status r = 200"
  shows "\<exists>b. r_body r = Json b \<and>
    contracts_serve k svc (GetContracts u '''' '''' '''') (b_world s) = (Resp 200 b, b_world s')"
proof (cases rule: client_serve_admitted [OF assms(1,2) q(2)])
  case 1
  with ok show ?thesis by simp
next
  case passed: (2 s1 s2)
  from assms(2) have u: "u \<noteq> ''''" by (rule admittedE)
  let ?t = "''/api/v1/contracts?client_id='' @ QueryEscape u"
  let ?req = "request_for (cf_contracts cf) (user_ctx u role) ''GET'' ?t None"
  note fields = request_for_fields [OF client_list_target(1) [of u], of "cf_contracts cf" "user_ctx u role" "''GET''" None]
  have call: "contracts_call_of bind RouteList i ?req = GetContracts u '''' '''' ''''"
    by (simp add: contracts_call_of_def fields Let_def client_list_target del: append.simps append_Cons)
  obtain c w where serve: "contracts_serve k svc (GetContracts u '''' '''' '''') (b_world s) = (c, w)" by fastforce
  have "lib_http L (b_world s1) ?req = (Some (code c, ''application/json'', Json (body c)), w)"
    using fields client_list_target(2) [of u] chi serve passed(1) call by (simp add: http contracts_http_def)
  then have "r_body r = Json (body c)" "r_status r = code c" "b_world s2 = w"
    using passed(2) u unfolding client_list_route [OF q] client_contract_List_def Let_def
    by (auto simp: Forward_run [OF client_list_target(1)] answer_def simp del: append.simps append_Cons)
  with serve passed(3) ok show ?thesis by (cases c) auto
qed

end
