(* ===== verification/BffProps.thy ===== *)
theory BffProps
  imports BffLink BffDashboard
begin

text \<open>
  The properties of the BFF services, each with a concrete run that its hypotheses fit. The libraries
  of those runs are a JWT library that knows a table of tokens, a token bucket, and an HTTP transport.
\<close>

section \<open>Libraries for the concrete runs\<close>

type_synonym token_table = "(string \<times> string \<times> claims) list"

text \<open>Tokens of a table: each stands for a key and the claims signed with it.\<close>

definition table_jwt :: "token_table \<Rightarrow> jwt_lib" where
  "table_jwt tab =
     \<lparr>SignedString = (\<lambda>k cs. map_of (map (\<lambda>(tok, x). (x, tok)) tab) (k, cs)),
      Parse = (\<lambda>now tok kf.
        case map_of tab tok of None \<Rightarrow> None
        | Some (k, cs) \<Rightarrow>
            if kf (HMAC ''HS256'') = Some k
            then (case map_of cs ''exp'' of
                Some (JNum e) \<Rightarrow> if now < e * second then Some (True, MapClaims cs) else None
              | _ \<Rightarrow> None)
            else None)\<rparr>"

definition table_verifies :: "token_table \<Rightarrow> string \<Rightarrow> string \<Rightarrow> bool" where
  "table_verifies tab k tok \<longleftrightarrow> (case map_of tab tok of None \<Rightarrow> False | Some (k', _) \<Rightarrow> k' = k)"

lemma table_jwt_parse:
  "Parse (table_jwt tab) now tok kf = Some (v, c) \<longleftrightarrow>
   (\<exists>k cs e. v \<and> c = MapClaims cs \<and> map_of tab tok = Some (k, cs) \<and> kf (HMAC ''HS256'') = Some k \<and>
      map_of cs ''exp'' = Some (JNum e) \<and> now < e * second)"
  by (auto simp: table_jwt_def split: option.splits json.splits if_splits)

lemma table_jwt_signed:
  "distinct (map fst tab) \<Longrightarrow> SignedString (table_jwt tab) k cs = Some tok \<Longrightarrow> map_of tab tok = Some (k, cs)"
  by (auto simp: table_jwt_def dest!: map_of_SomeD intro: map_of_is_SomeI)

lemma table_jwt_laws:
  assumes "distinct (map fst tab)" shows "jwt_laws (table_jwt tab) (table_verifies tab)"
  unfolding jwt_laws_def
proof (intro conjI)
  show "jwt_sound (table_jwt tab) (table_verifies tab)"
    unfolding jwt_sound_def table_jwt_parse table_verifies_def by auto
  show "jwt_genuine (table_jwt tab)"
    unfolding jwt_genuine_def table_jwt_parse using table_jwt_signed [OF assms] by fastforce
  show "jwt_accepts (table_jwt tab)"
    unfolding jwt_accepts_def table_jwt_parse using table_jwt_signed [OF assms] by blast
  show "jwt_expires (table_jwt tab)"
    unfolding jwt_expires_def table_jwt_parse by auto
qed

text \<open>
  A token bucket: rate, burst, tokens in billionths and the time of the last event. It starts full.
\<close>

type_synonym bucket = "int \<times> int \<times> int \<times> int option"

definition bucket_Allow :: "int \<Rightarrow> bucket \<Rightarrow> bool \<times> bucket" where
  "bucket_Allow t l =
     (case l of (r, b, tokens, seen) \<Rightarrow>
      let now = (case seen of None \<Rightarrow> tokens | Some t0 \<Rightarrow> min (b * second) (tokens + r * (t - t0))) in
      if second \<le> now then (True, (r, b, now - second, Some t)) else (False, (r, b, now, Some t)))"

definition bucket_lib :: "bucket limiter_lib" where
  "bucket_lib = \<lparr>NewLimiter = (\<lambda>r b. (r, b, b * second, None)), Allow = bucket_Allow\<rparr>"

lemma bucket_budget:
  assumes "0 \<le> r" "0 \<le> b" "sorted (t0 # ts)"
  shows "0 \<le> tokens \<Longrightarrow> int (fst (allows bucket_lib (r, b, tokens, Some t0) ts)) * second
    \<le> tokens + r * (last (t0 # ts) - t0)"
  using assms(3)
proof (induction ts arbitrary: tokens t0)
  case (Cons t ts)
  define now where "now = min (b * second) (tokens + r * (t - t0))"
  define rest where "rest = (if second \<le> now then now - second else now)"
  have split: "int (fst (allows bucket_lib (r, b, tokens, Some t0) (t # ts))) * second =
      int (fst (allows bucket_lib (r, b, rest, Some t) ts)) * second + (now - rest)"
    by (simp add: bucket_lib_def bucket_Allow_def Let_def now_def [symmetric] rest_def distrib_right
        split: prod.split)
  have le: "now \<le> tokens + r * (t - t0)" "r * (last (t # ts) - t0) = r * (last (t # ts) - t) + r * (t - t0)"
    by (simp_all add: now_def distrib_left [symmetric])
  have "0 \<le> r * (t - t0)" using assms(1) Cons.prems by simp
  then have "0 \<le> now" using assms(2) Cons.prems(1) by (simp add: now_def second_def)
  then have "0 \<le> rest" by (simp add: rest_def)
  with Cons.IH [of rest t] Cons.prems have "int (fst (allows bucket_lib (r, b, rest, Some t) ts)) * second
    \<le> rest + r * (last (t # ts) - t)" by simp
  with split le show ?case by simp
qed simp

lemma bucket_law: "limiter_law bucket_lib"
  unfolding limiter_law_def
proof (intro allI impI)
  fix r b :: int and ts :: "int list"
  assume nonneg: "0 \<le> r" "0 \<le> b" and ts: "sorted ts" "ts \<noteq> []"
  then obtain t ts' where cons: "ts = t # ts'" by (cases ts) auto
  define rest where "rest = (if 1 \<le> b then b * second - second else b * second)"
  have first: "int (fst (allows bucket_lib (NewLimiter bucket_lib r b) ts)) * second =
      int (fst (allows bucket_lib (r, b, rest, Some t) ts')) * second + (b * second - rest)"
    by (simp add: cons bucket_lib_def bucket_Allow_def Let_def rest_def distrib_right second_def split: prod.split)
  have "0 \<le> rest" using nonneg by (simp add: rest_def second_def)
  from bucket_budget [OF nonneg _ this, of t ts'] ts cons first
  show "int (fst (allows bucket_lib (NewLimiter bucket_lib r b) ts)) * second \<le> b * second + r * (last ts - hd ts)"
    by simp
qed

text \<open>
  Two users' tokens at time 0, as the services issue them with the secret of \<open>demo_env\<close>, and an
  upstream world that answers every request alike.
\<close>

definition demo_env :: bff_env where
  "demo_env = bff_env_from (\<lambda>_. '''') ''8010''"

definition demo_client :: string where
  "demo_client = ''11111111-1111-1111-1111-111111111111''"

definition demo_admin :: string where
  "demo_admin = ''44444444-4444-4444-4444-444444444444''"

definition demo_tokens :: token_table where
  "demo_tokens =
     [(''a1'', ev_jwtSecret demo_env, token_claims demo_client ''client'' 0 (AccessTokenTTL (env_auth demo_env)) ''access''),
      (''r1'', ev_jwtSecret demo_env, token_claims demo_client ''client'' 0 (RefreshTokenTTL (env_auth demo_env)) ''refresh''),
      (''a4'', ev_jwtSecret demo_env, token_claims demo_admin ''admin'' 0 (AccessTokenTTL (env_auth demo_env)) ''access''),
      (''r4'', ev_jwtSecret demo_env, token_claims demo_admin ''admin'' 0 (RefreshTokenTTL (env_auth demo_env)) ''refresh'')]"

definition demo_http :: "unit transport" where
  "demo_http w req = (Some (200, ''application/json'', Json (JObj [(''total'', JNum 3)])), w)"

definition demo_libs :: "(bucket, unit) libs" where
  "demo_libs = \<lparr>lib_jwt = table_jwt demo_tokens, lib_limiter = bucket_lib, lib_http = demo_http,
     lib_metrics = (''text/plain'', Bytes '''')\<rparr>"

definition demo_bff :: "'w \<Rightarrow> (bucket, 'w) bff" where
  "demo_bff w = \<lparr>b_now = 0, b_limiters = [], b_world = w, b_sent = [], b_log = []\<rparr>"

definition demo_login :: "string \<Rightarrow> request" where
  "demo_login email = \<lparr>q_method = ''POST'', q_path = [''auth'', ''login''], q_RawQuery = '''', q_cookies = [],
     q_body = Json (JObj [(''email'', JStr email), (''password'', JStr ''password'')])\<rparr>"

definition demo_get :: "string list \<Rightarrow> string \<Rightarrow> request" where
  "demo_get path tok = \<lparr>q_method = ''GET'', q_path = path, q_RawQuery = '''', q_cookies = [(''access_token'', tok)],
     q_body = Bytes ''''\<rparr>"

lemma demo_laws: "jwt_laws (lib_jwt demo_libs) (table_verifies demo_tokens)" "limiter_law (lib_limiter demo_libs)"
proof -
  have "distinct (map fst demo_tokens)" by (simp add: demo_tokens_def)
  then show "jwt_laws (lib_jwt demo_libs) (table_verifies demo_tokens)" by (simp add: demo_libs_def table_jwt_laws)
  show "limiter_law (lib_limiter demo_libs)" by (simp add: demo_libs_def bucket_law)
qed

section \<open>Sessions\<close>

text \<open>C34: With the three BFFs in one deployment, and as long as nobody forges tokens (a cookie whose
  signature fits the secret was given out by one of them before), every request any of them sends
  upstream is in the name of a user who has logged in, with a test user's own password, in the
  history so far, whatever requests, expired or foreign tokens it contains.\<close>

theorem only_for_logged_in:
  assumes "jwt_laws (lib_jwt L) verifies" "list_all (\<lambda>(t, _). clock_range t) es"
    "unforged L ev schedule (verifies (ev_jwtSecret ev)) [] es S" "b_sent (S ClientApp) = []"
    "b_sent (S FreelancerApp) = []" "b_sent (S AdminApp) = []"
  shows "list_all (\<lambda>req. logged_in (requests_of es) (header_user req)) (b_sent (platform_run L ev schedule es S app))"
proof -
  have "session_inv (lib_jwt L) (env_auth ev) [] [] (S x)" for x
    using assms(4-6) by (cases x) (simp_all add: session_inv_def)
  from platform_run_inv [OF assms(1-3) this] show ?thesis by (auto simp: session_inv_def list_all_iff)
qed

definition demo_day :: "(int \<times> app \<times> request) list" where
  "demo_day = [(0, ClientApp, demo_login ''client@example.com''),
     (5 * second, FreelancerApp, demo_get [''api'', ''v1'', ''contracts''] ''a1''),
     (6 * second, AdminApp, demo_get [''api'', ''v1'', ''jobs''] ''a1'')]"

theorem only_for_logged_in_witness:
  "let S = platform_run demo_libs demo_env [] demo_day (\<lambda>_. demo_bff ()) in
   map header_user (b_sent (S FreelancerApp)) = [demo_client] \<and> b_sent (S AdminApp) = [] \<and>
   list_all (\<lambda>req. logged_in (requests_of demo_day) (header_user req)) (b_sent (S FreelancerApp))"
proof -
  have "list_all (\<lambda>(t, _). clock_range t) demo_day" by code_simp
  moreover have "unforged demo_libs demo_env [] (table_verifies demo_tokens (ev_jwtSecret demo_env)) [] demo_day (\<lambda>_. demo_bff ())"
    by code_simp
  moreover have "b_sent (demo_bff ()) = []" by (simp add: demo_bff_def)
  ultimately have "list_all (\<lambda>req. logged_in (requests_of demo_day) (header_user req))
      (b_sent (platform_run demo_libs demo_env [] demo_day (\<lambda>_. demo_bff ()) FreelancerApp))"
    by (intro only_for_logged_in [OF demo_laws(1)])
  moreover have "map header_user (b_sent (platform_run demo_libs demo_env [] demo_day (\<lambda>_. demo_bff ()) FreelancerApp)) = [demo_client]"
    by code_simp
  moreover have "b_sent (platform_run demo_libs demo_env [] demo_day (\<lambda>_. demo_bff ()) AdminApp) = []" by code_simp
  ultimately show ?thesis by (simp add: Let_def)
qed

text \<open>The outcome of checking a token of one kind, good until a time, issued to \<open>u\<close>.\<close>

definition checked ::
  "string \<Rightarrow> int \<Rightarrow> string \<Rightarrow> string \<Rightarrow> string \<Rightarrow> string \<Rightarrow> ('l, 'w) bff
   \<Rightarrow> (reply + string \<times> string) \<times> ('l, 'w) bff" where
  "checked kind until u role wanted msg s =
     (if until \<le> b_now s then (Inl (WriteError 401 msg), s)
      else if wanted \<noteq> kind then (Inl (WriteError 401 ''invalid token type''), s)
      else (Inr (u, role), s))"

lemma issued_checked:
  assumes laws: "jwt_laws J verifies" and plain: "plain_claims (token_claims u role now ttl kind)"
    and signed: "SignedString J (Secret a) (token_claims u role now ttl kind) = Some tok" and u: "u \<noteq> ''''" "role \<noteq> ''''"
  shows "check_token J a wanted msg tok s = checked kind (unix_time (now + ttl) * second) u role wanted msg s"
proof (cases "b_now s < unix_time (now + ttl) * second")
  case True
  from jwt_acceptsD [OF laws plain signed _ True] have
    "Parse J (b_now s) tok (hmac_key a) = Some (True, MapClaims (token_claims u role now ttl kind))" by simp
  with True u show ?thesis by (simp add: check_token_def checked_def raise_def ret_def)
next
  case False
  have "Parse J (b_now s) tok (hmac_key a) \<noteq> Some (True, c)" for c
  proof
    assume parse: "Parse J (b_now s) tok (hmac_key a) = Some (True, c)"
    with jwt_genuineD [OF laws plain signed parse] jwt_expiresD [OF laws, of "b_now s" tok "hmac_key a"] False
    show False by simp
  qed
  with False show ?thesis
    by (auto simp: check_token_def checked_def raise_def split: option.split)
qed

lemma TestUsers_named: "map_of TestUsers email = Some user \<Longrightarrow> tu_UserID user \<noteq> '''' \<and> tu_Role user \<noteq> ''''"
proof -
  have "list_all (\<lambda>(_, user). tu_UserID user \<noteq> '''' \<and> tu_Role user \<noteq> '''') TestUsers" by code_simp
  then show "map_of TestUsers email = Some user \<Longrightarrow> tu_UserID user \<noteq> '''' \<and> tu_Role user \<noteq> ''''"
    by (auto simp: list_all_iff dest!: map_of_SomeD)
qed

lemma client_login_given:
  assumes "client_serve L cf q s = (r, s')" "r_status r = 200" "logs_in q u role"
  obtains acc ref where "given r = [acc, ref]" "u \<noteq> ''''" "role \<noteq> ''''" "ascii u" "ascii role"
    "SignedString (lib_jwt L) (Secret (cf_auth cf)) (token_claims u role (b_now s) (AccessTokenTTL (cf_auth cf)) ''access'') = Some acc"
    "SignedString (lib_jwt L) (Secret (cf_auth cf)) (token_claims u role (b_now s) (RefreshTokenTTL (cf_auth cf)) ''refresh'') = Some ref"
proof -
  from assms(3) obtain email user where q: "q_method q = ''POST''" "q_path q = [''auth'', ''login'']"
    and login: "decode_login (q_body q) = Some (email, tu_Password user)" "map_of TestUsers email = Some user"
    and u: "u = tu_UserID user" "role = tu_Role user" by (auto simp: logs_in_def)
  have "list_all (\<lambda>(email, user). email \<noteq> '''' \<and> tu_Password user \<noteq> '''') TestUsers" by code_simp
  with login(2) have "email \<noteq> ''''" "tu_Password user \<noteq> ''''" by (auto simp: list_all_iff dest!: map_of_SomeD)
  then have "Login (lib_jwt L) (cf_auth cf) q = open_session (lib_jwt L) (cf_auth cf) u role"
    using login u by (simp add: Login_def)
  then have "outer_mux L (cf_auth cf) (client_protected L cf) [] q = open_session (lib_jwt L) (cf_auth cf) u role"
    using q by (simp add: outer_mux_def serve_mux_def outer_routes_def auth_routes_def method_matches_def)
  with assms(1) obtain res s1 where run: "open_session (lib_jwt L) (cf_auth cf) u role s = (res, s1)" "r = reply_of res"
    by (cases rule: client_bff.serve_runs) (auto simp: client_protected_def)
  from run(1) show thesis
  proof (cases rule: open_session_cases)
    case (failed e)
    with run(2) assms(2) show thesis by simp
  next
    case (opened acc ref)
    with run(2) TestUsers_named [OF login(2)] TestUsers_ascii [OF login(2)] u show thesis
      by (intro that [of acc ref]) simp_all
  qed
qed

text \<open>C35: A log-in answered with 200 gives out two tokens. Until 15 minutes after the log-in, to the
  second, the first passes every check for an access token as that user in that role, until 7 days
  after it the second every check for a refresh token; neither passes as the other kind, neither
  passes later, and using a token does not use it up.\<close>

theorem session_round_trip:
  fixes s2 :: "('m, 'v) bff"
  assumes "jwt_laws (lib_jwt L) verifies" "clock_range (b_now s)" "logs_in q u role"
    "client_serve L (client_config_of ev) q s = (r, s')" "r_status r = 200"
  shows "\<exists>acc ref. given r = [acc, ref] \<and>
    check_token (lib_jwt L) (env_auth ev) wanted msg acc s2 =
      checked ''access'' (unix_time (b_now s + 15 * 60 * second) * second) u role wanted msg s2 \<and>
    check_token (lib_jwt L) (env_auth ev) wanted msg ref s2 =
      checked ''refresh'' (unix_time (b_now s + 7 * 24 * 3600 * second) * second) u role wanted msg s2"
  using assms(4,5,3)
proof (cases rule: client_login_given)
  case (1 acc ref)
  have ttl: "AccessTokenTTL (env_auth ev) = 15 * 60 * second" "RefreshTokenTTL (env_auth ev) = 7 * 24 * 3600 * second"
    by (simp_all add: env_auth_def)
  note signed = 1(6,7) [unfolded configured_auth ttl]
  have plain: "plain_claims (token_claims u role (b_now s) (15 * 60 * second) ''access'')"
    "plain_claims (token_claims u role (b_now s) (7 * 24 * 3600 * second) ''refresh'')"
    by (rule issued_plain; use assms(2) 1(4,5) access_type in \<open>simp add: second_def\<close>)+
  from issued_checked [OF assms(1) plain(1) signed(1) 1(2,3)] issued_checked [OF assms(1) plain(2) signed(2) 1(2,3)] 1(1)
  show ?thesis by blast
qed

definition demo_reply :: reply where
  "demo_reply = fst (client_serve demo_libs (client_config_of demo_env) (demo_login ''client@example.com'') (demo_bff ()))"

theorem session_round_trip_witness:
  "\<exists>acc ref. given demo_reply = [acc, ref] \<and>
    check_token (lib_jwt demo_libs) (env_auth demo_env) ''access'' ''invalid token'' acc (demo_bff ()) =
      (Inr (demo_client, ''client''), demo_bff ()) \<and>
    check_token (lib_jwt demo_libs) (env_auth demo_env) ''access'' ''invalid token'' ref (demo_bff ()) =
      (Inl (WriteError 401 ''invalid token type''), demo_bff ())"
proof -
  have "client_serve demo_libs (client_config_of demo_env) (demo_login ''client@example.com'') (demo_bff ()) =
      (demo_reply, snd (client_serve demo_libs (client_config_of demo_env) (demo_login ''client@example.com'') (demo_bff ())))"
    by (simp add: demo_reply_def)
  moreover have "r_status demo_reply = 200" by code_simp
  moreover have "logs_in (demo_login ''client@example.com'') demo_client ''client''"
  proof -
    have "decode_login (q_body (demo_login ''client@example.com'')) = Some (''client@example.com'', ''password'')"
      by code_simp
    moreover have "map_of TestUsers ''client@example.com'' =
        Some \<lparr>tu_Password = ''password'', tu_UserID = demo_client, tu_Role = ''client''\<rparr>" by code_simp
    ultimately show ?thesis by (auto simp: logs_in_def demo_login_def)
  qed
  moreover have "clock_range (b_now (demo_bff ()))" by code_simp
  moreover have "checked ''access'' (unix_time (b_now (demo_bff ()) + 15 * 60 * second) * second) demo_client ''client''
      ''access'' ''invalid token'' (demo_bff ()) = (Inr (demo_client, ''client''), demo_bff ())"
    "checked ''refresh'' (unix_time (b_now (demo_bff ()) + 7 * 24 * 3600 * second) * second) demo_client ''client''
      ''access'' ''invalid token'' (demo_bff ()) = (Inl (WriteError 401 ''invalid token type''), demo_bff ())"
    by (simp_all add: checked_def demo_bff_def unix_time_def second_def)
  ultimately show ?thesis
    using session_round_trip [OF demo_laws(1), of "demo_bff ()" "demo_login ''client@example.com''" demo_client "''client''"
      demo_env demo_reply _ "''access''" "''invalid token''" "demo_bff ()"] by metis
qed

section \<open>The administrators' service\<close>

text \<open>C36: A request under \<open>/api/\<close> to the administrators' service without a valid access token whose role
  is admin is answered 401, or 403 exactly when it has a valid access token of another role, reaches
  no upstream service and uses up nothing of a rate limit.\<close>

theorem admin_only:
  assumes "admin_serve L cf schedule q s = (r, s')" "q_path q = ''api'' # x # rest"
    "\<not> (\<exists>u. admitted (lib_jwt L) (cf_auth cf) q s u ''admin'')"
  shows "r_status r = (if \<exists>u role. admitted (lib_jwt L) (cf_auth cf) q s u role then 403 else 401) \<and>
    b_sent s' = b_sent s \<and> b_world s' = b_world s \<and> b_limiters s' = b_limiters s"
  using assms(1)
proof (cases rule: admin_bff.serve_runs)
  case (1 res s1)
  then have run: "JWTMiddleware (lib_jwt L) (cf_auth cf) (RequireRole ''admin''
      (RateLimiter_Middleware (lib_limiter L) (cf_limiter cf) (admin_api L cf schedule))) [] q s = (res, s1)"
    by (simp add: outer_mux_def assms(2))
  from run show ?thesis
  proof (cases rule: JWTMiddleware_cases)
    case (refused e)
    with 1 show ?thesis by auto
  next
    case (admitted u role)
    with assms(3) have "role \<noteq> ''admin''" by blast
    with admitted(2) have "res = Inl (WriteError 403 (''forbidden: requires '' @ ''admin'' @ '' role''))" "s1 = s"
      by (simp_all add: RequireRole_def raise_def)
    with 1 admitted(1) show ?thesis by auto
  qed
qed

definition demo_peek :: "reply \<times> (bucket, unit) bff" where
  "demo_peek = admin_serve demo_libs (admin_config_of demo_env) [] (demo_get [''api'', ''v1'', ''jobs''] ''a1'') (demo_bff ())"

lemma demo_peek_admitted:
  "admitted (lib_jwt demo_libs) (env_auth demo_env) (demo_get path ''a1'') (demo_bff ()) demo_client ''client''"
proof -
  have "Cookie ''access_token'' (demo_get path ''a1'') = Some ''a1''" by (simp add: Cookie_def demo_get_def)
  moreover have "check_token (lib_jwt demo_libs) (env_auth demo_env) ''access'' ''invalid token'' ''a1'' (demo_bff ()) =
      (Inr (demo_client, ''client''), demo_bff ())" by code_simp
  ultimately show ?thesis by (simp add: admitted_def)
qed

lemma admitted_unique:
  "admitted J a q s u role \<Longrightarrow> admitted J a q s u' role' \<Longrightarrow> u' = u \<and> role' = role"
  by (auto simp: admitted_def)

theorem admin_only_witness:
  "r_status (fst demo_peek) = 403 \<and> b_sent (snd demo_peek) = [] \<and> b_limiters (snd demo_peek) = []"
proof -
  let ?q = "demo_get [''api'', ''v1'', ''jobs''] ''a1''"
  have run: "admin_serve demo_libs (admin_config_of demo_env) [] ?q (demo_bff ()) = (fst demo_peek, snd demo_peek)"
    by (simp add: demo_peek_def)
  have path: "q_path ?q = ''api'' # ''v1'' # [''jobs'']" by (simp add: demo_get_def)
  note in_as = demo_peek_admitted [of "[''api'', ''v1'', ''jobs'']"]
  have "\<not> (\<exists>u. admitted (lib_jwt demo_libs) (cf_auth (admin_config_of demo_env)) ?q (demo_bff ()) u ''admin'')"
    using admitted_unique [OF in_as] by auto
  from admin_only [OF run path this] in_as show ?thesis by (auto simp: demo_bff_def)
qed

section \<open>Rate limits\<close>

text \<open>C37: Over any history of requests in the order of their times, from a fresh start, the number of
  upstream calls a service makes in the name of one user, whatever the user and everybody else send,
  is at most the burst of 20 plus 100 per second of the history for clients and freelancers, and three
  times that for the administrators, whose dashboard makes three calls.\<close>

theorem upstream_rate:
  assumes "limiter_law (lib_limiter L)" "sorted (t # map fst es)" "b_limiters s = []" "b_sent s = []"
  shows "let allowed = 20 * second + 100 * (last (t # map fst es) - t) in
    int (user_calls u (history (client_serve L (client_config_of ev)) es s)) * second \<le> allowed \<and>
    int (user_calls u (history (freelancer_serve L (freelancer_config_of ev)) es s)) * second \<le> allowed \<and>
    int (user_calls u (history (admin_serve L (admin_config_of ev) schedule) es s)) * second \<le> 3 * allowed"
proof -
  have limits: "rl_rate (NewRateLimiter 100 20) = 100" "rl_burst (NewRateLimiter 100 20) = 20"
    "cf_limiter (client_config_of ev) = NewRateLimiter 100 20"
    "cf_limiter (freelancer_config_of ev) = NewRateLimiter 100 20"
    "cf_limiter (admin_config_of ev) = NewRateLimiter 100 20"
    by (simp_all add: NewRateLimiter_def client_config_of_def freelancer_config_of_def admin_config_of_def)
  note run = assms(1) _ _ assms(2-4)
  show ?thesis unfolding Let_def
    using client_bff.rate_limited [OF run, of "client_config_of ev" u]
      freelancer_bff.rate_limited [OF run, of "freelancer_config_of ev" u]
      admin_bff.rate_limited [OF run, of "admin_config_of ev" u schedule] by (simp add: limits)
qed

definition demo_burst :: "(int \<times> request) list" where
  "demo_burst = map (\<lambda>i. (5, demo_get [''api'', ''v1'', ''jobs''] ''a1'')) [1 ..< 4]"

theorem upstream_rate_witness:
  "user_calls demo_client (history (client_serve demo_libs (client_config_of demo_env)) demo_burst (demo_bff ())) = 3 \<and>
   int 3 * second \<le> 20 * second + 100 * (5 - 5)"
proof -
  have calls: "user_calls demo_client (history (client_serve demo_libs (client_config_of demo_env)) demo_burst (demo_bff ())) = 3"
    by code_simp
  have "sorted ((5 :: int) # map fst demo_burst)" "last (5 # map fst demo_burst) = 5" by code_simp+
  moreover have "b_limiters (demo_bff ()) = []" "b_sent (demo_bff ()) = []" by (simp_all add: demo_bff_def)
  ultimately have "int (user_calls demo_client (history (client_serve demo_libs (client_config_of demo_env)) demo_burst (demo_bff ()))) * second
      \<le> 20 * second + 100 * (5 - 5)"
    using upstream_rate [OF demo_laws(2), of 5 demo_burst "demo_bff ()" demo_client demo_env "[]"]
    unfolding Let_def by metis
  with calls show ?thesis by metis
qed

section \<open>Ids and lists\<close>

text \<open>C38: Whatever characters an id in a request to the clients' or freelancers' service has, the one
  request its handler sends upstream has a path whose decoded segments are the route's, with exactly
  this id in its place, and an empty query: an id cannot lead to another route.\<close>

theorem ids_delivered:
  "sends_to (client_contract_GetByID http c vs ctx q) s ''GET'' ['''', ''api'', ''v1'', ''contracts'', PathValue vs ''id''] '''' \<and>
   sends_to (client_contract_Accept http c vs ctx q) s ''PUT'' ['''', ''api'', ''v1'', ''contracts'', PathValue vs ''id'', ''accept''] '''' \<and>
   sends_to (client_contract_Complete http c vs ctx q) s ''PUT'' ['''', ''api'', ''v1'', ''contracts'', PathValue vs ''id'', ''complete''] '''' \<and>
   sends_to (client_contract_Cancel http c vs ctx q) s ''PUT'' ['''', ''api'', ''v1'', ''contracts'', PathValue vs ''id'', ''cancel''] '''' \<and>
   sends_to (client_job_GetByID http c vs ctx q) s ''GET'' ['''', ''api'', ''v1'', ''jobs'', PathValue vs ''id''] '''' \<and>
   sends_to (freelancer_contract_GetByID http c vs ctx q) s ''GET'' ['''', ''api'', ''v1'', ''contracts'', PathValue vs ''id''] '''' \<and>
   sends_to (freelancer_contract_Accept http c vs ctx q) s ''PUT'' ['''', ''api'', ''v1'', ''contracts'', PathValue vs ''id'', ''accept''] ''''"
proof -
  have acts: "sends_to (client_Forward http c ctx ''PUT'' (''/api/v1/contracts/'' @ PathEscape i @ ''/accept'') p) s ''PUT''
      ['''', ''api'', ''v1'', ''contracts'', i, ''accept''] ''''"
    "sends_to (client_Forward http c ctx ''PUT'' (''/api/v1/contracts/'' @ PathEscape i @ ''/complete'') p) s ''PUT''
      ['''', ''api'', ''v1'', ''contracts'', i, ''complete''] ''''"
    "sends_to (client_Forward http c ctx ''PUT'' (''/api/v1/contracts/'' @ PathEscape i @ ''/cancel'') p) s ''PUT''
      ['''', ''api'', ''v1'', ''contracts'', i, ''cancel''] ''''" for i p
    using contract_id_sent(2) [of "''accept''" http c ctx "''PUT''" i p s]
      contract_id_sent(2) [of "''complete''" http c ctx "''PUT''" i p s]
      contract_id_sent(2) [of "''cancel''" http c ctx "''PUT''" i p s] path_parts by simp_all
  show ?thesis
    unfolding client_contract_GetByID_def client_contract_Accept_def client_contract_Complete_def
      client_contract_Cancel_def client_job_GetByID_def freelancer_contract_GetByID_def
      freelancer_contract_Accept_def Let_def
    by (intro conjI acts contract_id_sent(1,3))
qed

text \<open>The administrators' handlers do not escape: an id with a question mark in it ends before it.\<close>

lemma admin_id_cut:
  "sends_to (admin_contract_GetByID demo_http (service '''' ''contracts'') [(''id'', ''c1?limit=5'')] [] (demo_get [] '''')) (demo_bff ())
     ''GET'' ['''', ''api'', ''v1'', ''contracts'', ''c1''] ''limit=5''"
proof -
  have "url_ok ''/api/v1/contracts/c1?limit=5''"
    "path_segments (target_path ''/api/v1/contracts/c1?limit=5'') = map Some ['''', ''api'', ''v1'', ''contracts'', ''c1'']"
    "target_query ''/api/v1/contracts/c1?limit=5'' = ''limit=5''" by code_simp+
  then show ?thesis by (simp add: admin_contract_GetByID_def PathValue_def Forward_sends_to)
qed

text \<open>C39: With the contracts service behind it, a clients' list of contracts answered with 200 to a user
  with a valid access token is the first page, at most 20, of exactly the contracts whose client is
  that user, newest first, whatever the query of the request asks for.\<close>

theorem own_contracts_listed:
  assumes "client_serve L cf q s = (r, s')" "admitted (lib_jwt L) (cf_auth cf) q s u role"
    and "q_method q = ''GET''" "q_path q = [''api'', ''v1'', ''contracts'']"
    and "lib_http L = contracts_http chi bind k svc (BaseURL (cf_contracts cf))"
    and "chi ''GET'' ''/api/v1/contracts'' = Some (RouteList, i)" "r_status r = 200"
  shows "let own = filter (\<lambda>c. c_client_id c = u) (contracts (s_db (b_world s)));
      shown = take 20 (sort_key (\<lambda>c. - c_created_at c) own) in
    r_body r = Json (JObj [(''items'', JArr (map (contract_json k) shown)), (''total'', JNum (int (length own)))]) \<and>
    s_db (b_world s') = s_db (b_world s)"
proof -
  from assms(2) have u: "u \<noteq> ''''" by (rule admittedE)
  from own_list [OF assms] obtain b where r: "r_body r = Json b"
    and "contracts_serve k svc (GetContracts u '''' '''' '''') (b_world s) = (Resp 200 b, b_world s')" by blast
  from GetContracts_answer [OF this(2)] u show ?thesis
    by (auto simp: Let_def r param_def)
qed

definition shop_contract :: "string \<Rightarrow> string \<Rightarrow> int \<Rightarrow> Contract" where
  "shop_contract i client t = no_contract\<lparr>c_id := i, c_client_id := client, c_created_at := t\<rparr>"

definition shop_payments :: "unit PaymentsService" where
  "shop_payments = \<lparr>svc_HoldFunds = (\<lambda>_ p. (Inl ''down'', p)), svc_ReleaseFunds = (\<lambda>_ p. (Inl ''down'', p)),
     svc_TransferFunds = (\<lambda>_ _ p. (Inl ''down'', p))\<rparr>"

definition shop_db :: cdb where
  "shop_db = \<lparr>contracts = [shop_contract ''c1'' demo_client 1, shop_contract ''c2'' demo_admin 2, shop_contract ''c3'' demo_client 3],
     milestones = [], contract_events = []\<rparr>"

definition shop :: "(cdb, string, unit) saga_sess" where
  "shop = \<lparr>s_db = shop_db, s_tx = shop_db, s_faults = [], s_now = 9, s_gen = (\<lambda>_. ''c9''), s_used = 0, s_pay = ()\<rparr>"

definition shop_chi :: chi_router where
  "shop_chi meth path = (if meth = ''GET'' \<and> path = ''/api/v1/contracts'' then Some (RouteList, '''') else None)"

definition shop_codec :: codec where
  "shop_codec = \<lparr>uuid_String = (\<lambda>_. ''''), time_String = (\<lambda>_. '''')\<rparr>"

definition shop_libs :: "(bucket, (cdb, string, unit) saga_sess) libs" where
  "shop_libs = \<lparr>lib_jwt = table_jwt demo_tokens, lib_limiter = bucket_lib,
     lib_http = contracts_http shop_chi (\<lambda>_. None) shop_codec shop_payments ''http://contracts:8003'',
     lib_metrics = (''text/plain'', Bytes '''')\<rparr>"

definition shop_visit :: "reply \<times> (bucket, (cdb, string, unit) saga_sess) bff" where
  "shop_visit = client_serve shop_libs (client_config_of demo_env)
     (demo_get [''api'', ''v1'', ''contracts''] ''a1'') (demo_bff shop)"

theorem own_contracts_listed_witness:
  "r_body (fst shop_visit) = Json (JObj [(''items'', JArr (map (contract_json shop_codec)
     [shop_contract ''c3'' demo_client 3, shop_contract ''c1'' demo_client 1])), (''total'', JNum 2)])"
proof -
  let ?q = "demo_get [''api'', ''v1'', ''contracts''] ''a1''"
  have "client_serve shop_libs (client_config_of demo_env) ?q (demo_bff shop) = (fst shop_visit, snd shop_visit)"
    by (simp add: shop_visit_def)
  moreover have "admitted (lib_jwt shop_libs) (cf_auth (client_config_of demo_env)) ?q (demo_bff shop) demo_client ''client''"
  proof -
    have "Cookie ''access_token'' ?q = Some ''a1''" by (simp add: Cookie_def demo_get_def)
    moreover have "fst (check_token (lib_jwt shop_libs) (env_auth demo_env) ''access'' ''invalid token'' ''a1'' (demo_bff shop)) =
      Inr (demo_client, ''client'')" by code_simp
    ultimately show ?thesis unfolding admitted_def configured_auth
      by (metis check_token_InrE prod.collapse)
  qed
  moreover have "q_method ?q = ''GET''" "q_path ?q = [''api'', ''v1'', ''contracts'']" by (simp_all add: demo_get_def)
  moreover have "lib_http shop_libs = contracts_http shop_chi (\<lambda>_. None) shop_codec shop_payments
      (BaseURL (cf_contracts (client_config_of demo_env)))"
    by (simp add: shop_libs_def client_config_of_def service_def demo_env_def bff_env_from_def env_or_def)
  moreover have "shop_chi ''GET'' ''/api/v1/contracts'' = Some (RouteList, '''')" by (simp add: shop_chi_def)
  moreover have "r_status (fst shop_visit) = 200" by code_simp
  moreover have "filter (\<lambda>c. c_client_id c = demo_client) (contracts (s_db (b_world (demo_bff shop)))) =
      [shop_contract ''c1'' demo_client 1, shop_contract ''c3'' demo_client 3]" by code_simp
  ultimately show ?thesis
    using own_contracts_listed [of shop_libs "client_config_of demo_env" ?q "demo_bff shop" "fst shop_visit" "snd shop_visit"
      demo_client "''client''" shop_chi "\<lambda>_. None" shop_codec shop_payments "''''"]
    by (simp add: Let_def shop_contract_def)
qed

section \<open>The dashboard\<close>

text \<open>C40: However the dashboard's three goroutines and its handler interleave (any schedule, and
  after it turns enough for each goroutine to end), whatever the upstream services answer and whether or not an answer changes them: the handler replies, with 200, and the
  reply is that of asking jobs-api, contracts and payments once each, one after the other in some
  order; it shows under each name the total that service reported, or 0 and that it is unavailable,
  from whatever error. At every moment at most one goroutine is between \<open>mu.Lock\<close> and \<open>mu.Unlock\<close>,
  and there is no reply before all three have ended.\<close>

theorem dashboard_linearizable:
  "(\<exists>ts f s'. distinct ts \<and> set ts = UNIV \<and> ask_each http cf ctx ts blank s = (f, s') \<and>
     dashboard_Stats http cf schedule ctx q s =
       (Inr (WriteJSON 200 (JObj [(''jobs'', stats_json (f StatJobs)), (''contracts'', stats_json (f StatContracts)),
          (''wallets'', stats_json (f StatWallets))])), s')) \<and>
   (\<exists>d s'. dashboard_run http cf ctx schedule dashboard_start s = (Inr d, s') \<and>
     length (filter (\<lambda>t. critical (d_pc d t)) stats) \<le> 1 \<and> (\<forall>t. d_pc d t = Gone \<or> d_reply d = None))"
proof
  from dashboard_linear [of http cf ctx s schedule q]
  show "\<exists>ts f s'. distinct ts \<and> set ts = UNIV \<and> ask_each http cf ctx ts blank s = (f, s') \<and>
     dashboard_Stats http cf schedule ctx q s =
       (Inr (WriteJSON 200 (JObj [(''jobs'', stats_json (f StatJobs)), (''contracts'', stats_json (f StatContracts)),
          (''wallets'', stats_json (f StatWallets))])), s')"
    by (simp add: dashboard_json_def)
  from dashboard_run_inv [OF dash_start, of http cf ctx schedule s] obtain d ts s' where
    "dashboard_run http cf ctx schedule dashboard_start s = (Inr d, s')" "dash_inv http cf ctx s ts d s'" by blast
  then show "\<exists>d s'. dashboard_run http cf ctx schedule dashboard_start s = (Inr d, s') \<and>
     length (filter (\<lambda>t. critical (d_pc d t)) stats) \<le> 1 \<and> (\<forall>t. d_pc d t = Gone \<or> d_reply d = None)"
    by (intro exI [of _ d] exI [of _ s']) (auto simp: dash_inv_def sync_ok_def dest: data_reply)
qed

text \<open>A run in which the goroutines overlap, payments is down, and the handler waits in between.\<close>

lemma dashboard_overlapping:
  "let http = (\<lambda>w req. (if o_base req = ''http://payments:8004'' then None
       else Some (200, ''application/json'', Json (JObj [(''total'', JNum w)])), w + 1)) :: int transport in
   r_body (fst (answer (dashboard_Stats http (admin_config_of demo_env)
     [Goroutine StatWallets, Goroutine StatJobs, Goroutine StatJobs, Handler, Goroutine StatContracts,
      Goroutine StatContracts, Goroutine StatJobs, Goroutine StatWallets] [] (demo_get [] '''')) (demo_bff 3))) =
   Json (JObj [(''jobs'', JObj [(''total'', JNum 4)]), (''contracts'', JObj [(''total'', JNum 5)]),
     (''wallets'', JObj [(''total'', JNum 0), (''error'', JStr ''payments unavailable'')])])"
  by code_simp

end
