(* ===== verification/Jetstream.thy ===== *)
theory Jetstream
  imports ContractsHandler
begin

text \<open>
  The services' side of the message broker: nats.go of each service, and the loop of main.go in
  the contracts service that fetches payment events and settles them. NATS JetStream itself is
  outside the repository. It is a parameter, the record \<open>jetstream\<close> of the operations the code
  calls over a state \<open>'n\<close>; the matching of subjects is a parameter too, with the documented law
  as \<open>wildcard_law\<close>.
\<close>

section \<open>Streams and consumers\<close>

datatype retention = LimitsPolicy | InterestPolicy | WorkQueuePolicy

datatype storage = FileStorage | MemoryStorage

datatype ack_policy = AckExplicitPolicy | AckAllPolicy | AckNonePolicy

record stream_config =
  sc_Name :: string
  sc_Subjects :: "string list"
  sc_Retention :: retention
  sc_Storage :: storage

record consumer_config =
  cc_Durable :: string
  cc_FilterSubjects :: "string list"
  cc_AckPolicy :: ack_policy

text \<open>A fetched message of type \<open>'m\<close> has a subject and data, and is settled by a verdict.\<close>

record ('n, 'm) consumer =
  cons_Fetch :: "nat \<Rightarrow> 'n \<Rightarrow> (string + 'm list) \<times> 'n"
  cons_read :: "'m \<Rightarrow> string \<times> json option"
  cons_settle :: "verdict \<Rightarrow> 'm \<Rightarrow> 'n \<Rightarrow> 'n"

record ('n, 'm) jetstream =
  js_CreateOrUpdateStream :: "stream_config \<Rightarrow> 'n \<Rightarrow> (string + unit) \<times> 'n"
  js_CreateOrUpdateConsumer :: "string \<Rightarrow> consumer_config \<Rightarrow> 'n \<Rightarrow> (string + ('n, 'm) consumer) \<times> 'n"
  js_Publish :: "string \<Rightarrow> json \<Rightarrow> 'n \<Rightarrow> (string + unit) \<times> 'n"

definition wrapped :: "string \<Rightarrow> (string + 'a) \<times> 'n \<Rightarrow> (string + 'a) \<times> 'n" where
  "wrapped msg r = (case r of (Inl err, n) \<Rightarrow> (Inl (msg @ '': '' @ err), n) | (Inr x, n) \<Rightarrow> (Inr x, n))"

definition contracts_stream :: stream_config where
  "contracts_stream = \<lparr>sc_Name = ''CONTRACTS'', sc_Subjects = [''contracts.>''],
     sc_Retention = WorkQueuePolicy, sc_Storage = FileStorage\<rparr>"

definition payments_stream :: stream_config where
  "payments_stream = \<lparr>sc_Name = ''PAYMENTS'', sc_Subjects = [''payments.>''],
     sc_Retention = WorkQueuePolicy, sc_Storage = FileStorage\<rparr>"

definition jobs_stream :: stream_config where
  "jobs_stream = \<lparr>sc_Name = ''JOBS'', sc_Subjects = [''jobs.>''],
     sc_Retention = WorkQueuePolicy, sc_Storage = FileStorage\<rparr>"

definition payments_consumer :: consumer_config where
  "payments_consumer = \<lparr>cc_Durable = ''contracts-saga'',
     cc_FilterSubjects = [''payments.payment.held'', ''payments.payment.released'',
       ''payments.payment.transferred'', ''payments.payment.failed''],
     cc_AckPolicy = AckExplicitPolicy\<rparr>"

section \<open>NATSClient\<close>

definition contracts_EnsureStream :: "('n, 'm) jetstream \<Rightarrow> 'n \<Rightarrow> (string + unit) \<times> 'n" where
  "contracts_EnsureStream js n =
     wrapped ''nats ensure CONTRACTS stream'' (js_CreateOrUpdateStream js contracts_stream n)"

definition payments_EnsureStream :: "('n, 'm) jetstream \<Rightarrow> 'n \<Rightarrow> (string + unit) \<times> 'n" where
  "payments_EnsureStream js n =
     wrapped ''nats ensure stream'' (js_CreateOrUpdateStream js payments_stream n)"

definition jobs_EnsureStream :: "('n, 'm) jetstream \<Rightarrow> 'n \<Rightarrow> (string + unit) \<times> 'n" where
  "jobs_EnsureStream js n =
     wrapped ''nats ensure stream'' (js_CreateOrUpdateStream js jobs_stream n)"

definition EnsurePaymentsConsumer ::
  "('n, 'm) jetstream \<Rightarrow> 'n \<Rightarrow> (string + ('n, 'm) consumer) \<times> 'n" where
  "EnsurePaymentsConsumer js n =
     wrapped ''nats ensure payments consumer''
       (js_CreateOrUpdateConsumer js ''PAYMENTS'' payments_consumer n)"

text \<open>\<open>Publish\<close> is the same in the three services; it is what an outbox publisher is given.\<close>

definition nats_Publish :: "('n, 'm) jetstream \<Rightarrow> 'n publish" where
  "nats_Publish js subject data n = wrapped ''nats publish'' (js_Publish js subject data n)"

lemma wrapped_cases:
  assumes "wrapped msg r = (q, n)"
  obtains (err) e where "r = (Inl e, n)" "q = Inl (msg @ '': '' @ e)" | (ok) x where "r = (Inr x, n)" "q = Inr x"
  using assms by (auto simp: wrapped_def split: prod.splits sum.splits)

lemma broker_ok_nats: "broker_ok (nats_Publish js) log \<longleftrightarrow> broker_ok (js_Publish js) log"
  by (simp add: broker_ok_def nats_Publish_def wrapped_def split: prod.splits sum.splits)

lemma broker_up_nats: "broker_up (nats_Publish js) \<longleftrightarrow> broker_up (js_Publish js)"
proof -
  have "fst (nats_Publish js sub j n) = Inr () \<longleftrightarrow> fst (js_Publish js sub j n) = Inr ()" for sub j n
    by (auto simp: nats_Publish_def wrapped_def split: prod.splits sum.splits)
  then show ?thesis by (simp add: broker_up_def)
qed

section \<open>Which stream takes which subject\<close>

text \<open>
  Subjects are matched as documented: a pattern without a wildcard only matches itself, one that
  ends in \<open>.>\<close> every subject that continues what stands before it.
\<close>

definition literal :: "string \<Rightarrow> bool" where
  "literal p \<longleftrightarrow> CHR ''*'' \<notin> set p \<and> CHR ''>'' \<notin> set p"

definition wildcard_law :: "(string \<Rightarrow> string \<Rightarrow> bool) \<Rightarrow> bool" where
  "wildcard_law matches \<longleftrightarrow>
     (\<forall>p s. literal p \<longrightarrow> literal s \<longrightarrow> (matches p s \<longleftrightarrow> p = s) \<and>
        (matches (p @ ''.>'') s \<longleftrightarrow> (\<exists>t. t \<noteq> '''' \<and> s = p @ ''.'' @ t)))"

definition takes :: "(string \<Rightarrow> string \<Rightarrow> bool) \<Rightarrow> stream_config \<Rightarrow> string \<Rightarrow> bool" where
  "takes matches sc subject \<longleftrightarrow> list_ex (\<lambda>p. matches p subject) (sc_Subjects sc)"

definition hears :: "(string \<Rightarrow> string \<Rightarrow> bool) \<Rightarrow> consumer_config \<Rightarrow> string \<Rightarrow> bool" where
  "hears matches cc subject \<longleftrightarrow> list_ex (\<lambda>p. matches p subject) (cc_FilterSubjects cc)"

text \<open>The names of the patterns and subjects, compared once.\<close>

lemma prefixes:
  "wildcard_law matches \<Longrightarrow> literal s \<Longrightarrow> takes matches contracts_stream s \<longleftrightarrow> (\<exists>t. t \<noteq> '''' \<and> s = ''contracts.'' @ t)"
  "wildcard_law matches \<Longrightarrow> literal s \<Longrightarrow> takes matches payments_stream s \<longleftrightarrow> (\<exists>t. t \<noteq> '''' \<and> s = ''payments.'' @ t)"
  "wildcard_law matches \<Longrightarrow> literal s \<Longrightarrow> takes matches jobs_stream s \<longleftrightarrow> (\<exists>t. t \<noteq> '''' \<and> s = ''jobs.'' @ t)"
proof -
  have l: "literal ''contracts''" "literal ''payments''" "literal ''jobs''" by code_simp+
  assume w: "wildcard_law matches" and s: "literal s"
  note law = w [unfolded wildcard_law_def, rule_format, OF _ s, THEN conjunct2]
  show "takes matches contracts_stream s \<longleftrightarrow> (\<exists>t. t \<noteq> '''' \<and> s = ''contracts.'' @ t)"
    using law [OF l(1)] by (simp add: takes_def contracts_stream_def)
  show "takes matches payments_stream s \<longleftrightarrow> (\<exists>t. t \<noteq> '''' \<and> s = ''payments.'' @ t)"
    using law [OF l(2)] by (simp add: takes_def payments_stream_def)
  show "takes matches jobs_stream s \<longleftrightarrow> (\<exists>t. t \<noteq> '''' \<and> s = ''jobs.'' @ t)"
    using law [OF l(3)] by (simp add: takes_def jobs_stream_def)
qed

lemma hears_iff:
  assumes "wildcard_law matches" "literal s"
  shows "hears matches payments_consumer s \<longleftrightarrow> s \<in> set (cc_FilterSubjects payments_consumer)"
proof -
  have l: "list_all literal (cc_FilterSubjects payments_consumer)" by code_simp
  have "matches p s \<longleftrightarrow> p = s" if "literal p" for p
    using assms that by (simp add: wildcard_law_def)
  with l show ?thesis by (auto simp: hears_def list_all_iff list_ex_iff)
qed

text \<open>No subject goes to two streams.\<close>

lemma streams_apart:
  assumes "wildcard_law matches" "literal s"
  shows "\<not> (takes matches contracts_stream s \<and> takes matches payments_stream s)"
    "\<not> (takes matches contracts_stream s \<and> takes matches jobs_stream s)"
    "\<not> (takes matches payments_stream s \<and> takes matches jobs_stream s)"
  unfolding prefixes [OF assms] by auto

section \<open>The consumer's loop\<close>

text \<open>The messages of one fetch, each handled and settled in turn.\<close>

fun settle_each ::
  "codec \<Rightarrow> ('n, 'm) consumer \<Rightarrow> 'm list \<Rightarrow> 'n \<Rightarrow> (cdb, string, 'p) saga_sess
   \<Rightarrow> 'n \<times> (cdb, string, 'p) saga_sess" where
  "settle_each k cons [] n s = (n, s)"
| "settle_each k cons (m # ms) n s =
     (case consume k (cons_read cons m) s of (v, s') \<Rightarrow>
      settle_each k cons ms (cons_settle cons v m n) s')"

text \<open>
  \<open>ctx i\<close> tells whether the context is cancelled when it is looked at for the \<open>i\<close>th time: at the
  top of each round, and after a fetch that failed. The loop need not end, so its value is optional.
\<close>

partial_function (option) runPaymentsConsumer ::
  "codec \<Rightarrow> ('n, 'm) consumer \<Rightarrow> (nat \<Rightarrow> bool) \<Rightarrow> nat \<Rightarrow> 'n \<Rightarrow> (cdb, string, 'p) saga_sess
   \<Rightarrow> ('n \<times> (cdb, string, 'p) saga_sess) option" where
  "runPaymentsConsumer k cons ctx i n s =
     (if ctx i then Some (n, s)
      else case cons_Fetch cons 10 n of
        (Inl err, n1) \<Rightarrow>
          if ctx (Suc i) then Some (n1, s) else runPaymentsConsumer k cons ctx (Suc (Suc i)) n1 s
      | (Inr ms, n1) \<Rightarrow>
          case settle_each k cons ms n1 s of (n2, s2) \<Rightarrow> runPaymentsConsumer k cons ctx (Suc i) n2 s2)"

text \<open>What handling the messages does to the service is what \<open>consume_all\<close> says.\<close>

lemma settle_each_consume_all:
  "settle_each k cons ms n s =
    (fold (\<lambda>(v, m). cons_settle cons v m) (zip (fst (consume_all k (map (cons_read cons) ms) s)) ms) n,
     snd (consume_all k (map (cons_read cons) ms) s))"
  by (induction ms arbitrary: n s) (simp_all split: prod.splits)

lemma settle_each_keeps:
  assumes "\<And>m s v s'. consume k m s = (v, s') \<Longrightarrow> P s \<Longrightarrow> P s'" "P s" "settle_each k cons ms n s = (n', s')"
  shows "P s'"
  using assms(2,3)
proof (induction ms arbitrary: n s)
  case (Cons m ms)
  obtain v s1 where "consume k (cons_read cons m) s = (v, s1)" by fastforce
  with Cons assms(1) show ?case by simp blast
qed simp

text \<open>It returns once the context is cancelled, and not before.\<close>

lemma runPaymentsConsumer_returns:
  assumes "\<And>j. ctx j \<Longrightarrow> ctx (Suc j)" "ctx N"
    and keeps: "\<And>m s v s'. consume k m s = (v, s') \<Longrightarrow> P s \<Longrightarrow> P s'" and "P s"
  shows "\<exists>n' s'. runPaymentsConsumer k cons ctx i n s = Some (n', s') \<and> P s'"
  using assms(4)
proof (induction "N - i" arbitrary: i n s rule: less_induct)
  case less
  have late: "ctx j" if "N \<le> j" for j
    using that by (induction rule: dec_induct) (use assms(1,2) in auto)
  show ?case
  proof (cases "ctx i")
    case True
    with less.prems show ?thesis by (simp add: runPaymentsConsumer.simps)
  next
    case False
    then have i: "i < N" using late not_less by blast
    obtain r n1 where f: "cons_Fetch cons 10 n = (r, n1)" by fastforce
    show ?thesis
    proof (cases r)
      case (Inl err)
      show ?thesis
      proof (cases "ctx (Suc i)")
        case True
        with False f Inl less.prems show ?thesis by (subst runPaymentsConsumer.simps) simp
      next
        case go: False
        from less.hyps [of "Suc (Suc i)" s n1] i less.prems False f Inl go show ?thesis
          by (subst runPaymentsConsumer.simps) simp
      qed
    next
      case (Inr ms)
      obtain n2 s2 where e: "settle_each k cons ms n1 s = (n2, s2)" by fastforce
      have "P s2" by (rule settle_each_keeps [where P = P, OF _ less.prems e]) (rule keeps)
      from less.hyps [of "Suc i" s2 n2, OF _ this] i False f Inr e show ?thesis
        by (subst runPaymentsConsumer.simps) simp
    qed
  qed
qed

lemma runPaymentsConsumer_cancelled:
  assumes "runPaymentsConsumer k cons ctx i n s = Some r"
  shows "\<exists>j. ctx j"
proof (rule runPaymentsConsumer.raw_induct [where P = "\<lambda>k cons ctx i n s r. \<exists>j. ctx j", OF _ assms])
  fix f :: "codec \<Rightarrow> ('n, 'm) consumer \<Rightarrow> (nat \<Rightarrow> bool) \<Rightarrow> nat \<Rightarrow> 'n \<Rightarrow> (cdb, string, 'p) saga_sess
    \<Rightarrow> ('n \<times> (cdb, string, 'p) saga_sess) option"
  fix k cons ctx i n s r
  assume IH: "\<And>k cons ctx i n s r. f k cons ctx i n s = Some r \<Longrightarrow> \<exists>j. ctx j"
    and run: "(if ctx i then Some (n, s)
      else case cons_Fetch cons 10 n of
        (Inl err, n1) \<Rightarrow> if ctx (Suc i) then Some (n1, s) else f k cons ctx (Suc (Suc i)) n1 s
      | (Inr ms, n1) \<Rightarrow> case settle_each k cons ms n1 s of (n2, s2) \<Rightarrow> f k cons ctx (Suc i) n2 s2) = Some r"
  from run show "\<exists>j. ctx j" by (auto split: if_splits prod.splits sum.splits dest: IH)
qed

end
