(* ===== verification/ContractsDelivery.thy ===== *)
theory ContractsDelivery
  imports Jetstream ContractsProgress
begin

text \<open>
  From the hold to the contract: every hold payments has placed is announced in its outbox with
  the contract's id, the publisher hands that entry to the broker, and the consumer of the
  contracts service that gets it moves the waiting contract on.
\<close>

section \<open>Along a history of the payments service\<close>

text \<open>What the publisher and the seed command leave as it was: the holds, and the entries but for
  their marks.\<close>

lemma wire_unstamped: "wire ` set (unstamped es) = wire ` set es"
  by (simp add: unstamped_def wire_def image_image)

lemma pay_reach_wires:
  assumes "pay_reach k pub p" "P empty_pdb" "\<And>p ev p'. pay_step k p ev p' \<Longrightarrow> P p \<Longrightarrow> P p'"
    and same: "\<And>p p'. holds p' = holds p \<Longrightarrow> wire ` set (outbox p') = wire ` set (outbox p) \<Longrightarrow> P p \<Longrightarrow> P p'"
  shows "P p"
  using assms(1)
proof (induction rule: pay_reach.induct)
  case (seeded s q s')
  from seed_users_rows [OF seeded(2) [unfolded seed_main_def]] seeded(3) show ?case by (auto intro: same)
next
  case (served s call r s')
  from served(2) show ?case
    by (cases rule: pay_serve_cases) (use served(3) assms(3) in auto)
next
  case (published s locked q s')
  have rest: "(s_db s')\<lparr>outbox := []\<rparr> = (s_db s)\<lparr>outbox := []\<rparr>"
    and "unstamped (outbox (s_db s')) = unstamped (outbox (s_db s))"
    using payments_events.PublishBatch_rest [OF published(2)] by (simp_all add: batch_size_def)
  from this(2) have wires: "wire ` set (outbox (s_db s')) = wire ` set (outbox (s_db s))"
    by (metis wire_unstamped)
  from rest have "holds (s_db s') = holds (s_db s)" by (cases "s_db s"; cases "s_db s'") simp
  from same [OF this wires published(3)] show ?case .
qed (rule assms(2))

section \<open>Every hold is announced as it was placed\<close>

definition held_told :: "codec \<Rightarrow> pdb \<Rightarrow> bool" where
  "held_told k p \<longleftrightarrow> (\<forall>h\<in>set (holds p).
     (EventPaymentHeld, hold_json k (h\<lparr>h_status := ''active''\<rparr>)) \<in> wire ` set (outbox p))"

lemma pay_step_held_told:
  assumes "pay_step k p ev p'" "held_told k p"
  shows "held_told k p'"
  using assms(1)
proof cases
  case (placed h row t e)
  then have "h\<lparr>h_status := ''active''\<rparr> = h" by (cases h) (simp add: active_def)
  with placed assms(2) show ?thesis by (auto simp: held_told_def emits_def wire_def)
next
  case (failed req row t e)
  with assms(2) show ?thesis by (auto simp: held_told_def)
next
  case (released h t e)
  with assms(2) show ?thesis by (auto simp: held_told_def set_status_def upd_def)
next
  case (transferred h r src rcp t1 t2 e now2 now1)
  with assms(2) show ?thesis by (auto simp: held_told_def set_status_def upd_def)
qed

lemma pay_reach_held_told:
  assumes "pay_reach k pub p"
  shows "held_told k p"
  using assms
  by (rule pay_reach_wires [where P = "held_told k"])
    (auto intro: pay_step_held_told, simp_all add: held_told_def empty_pdb_def)

text \<open>And these are the subjects it uses.\<close>

definition payment_subjects :: "string list" where
  "payment_subjects = [EventPaymentHeld, EventPaymentReleased, EventPaymentTransferred, EventPaymentFailed]"

lemma pay_reach_subjects:
  assumes "pay_reach k pub p"
  shows "e_event_type ` set (outbox p) \<subseteq> set payment_subjects"
proof -
  have "fst ` wire ` set (outbox p) \<subseteq> set payment_subjects"
  proof (rule pay_reach_wires [OF assms])
    fix p ev p'
    assume "pay_step k p ev p'" "fst ` wire ` set (outbox p) \<subseteq> set payment_subjects"
    then show "fst ` wire ` set (outbox p') \<subseteq> set payment_subjects"
      by cases (auto simp: wire_def emits_def payment_subjects_def)
  qed (simp_all add: empty_pdb_def)
  then show ?thesis by (simp add: wire_def image_image)
qed

section \<open>What the consumer does with it\<close>

lemma held_json_field: "string_field ''contract_id'' (hold_json k h) = Some (uuid_String k (h_contract_id h))"
  by (simp add: string_field_def hold_json_def field_def json_uuid_def json_time_def omitzero_def
      split: option.splits)

lemma consume_held:
  assumes "s_faults s = []" "c \<in> set (contracts (s_db s))" "c_status c = StatusHoldPending"
    and "string_field ''contract_id'' j = Some (c_id c)" "c_id c \<noteq> ''''"
  obtains s' where "consume k (EventPaymentHeld, Some j) s = (Ack, s')"
    "s_db s' = (s_db s)\<lparr>contracts := advance (c_id c) StatusHoldPending StatusAwaitingAccept (s_now s) (contracts (s_db s))\<rparr>"
proof -
  have st: "StatusAwaitingAccept \<noteq> StatusHoldPending" "fits 30 StatusAwaitingAccept" by code_simp+
  obtain s' where "contract_UpdateStatus auto_stmt (c_id c) StatusHoldPending StatusAwaitingAccept s = (Inr (), s')"
    "s_db s' = (s_db s)\<lparr>contracts := advance (c_id c) StatusHoldPending StatusAwaitingAccept (s_now s) (contracts (s_db s))\<rparr>"
    using UpdateStatus_auto_fine [OF assms(1,2) refl assms(3) st] .
  with assms(4,5) show thesis
    by (intro that) (simp_all add: consume_def dispatch_def saga_HandlePaymentHeld_def EventPaymentHeld_def)
qed

section \<open>From the outbox to the broker\<close>

text \<open>Once the publisher has drained the outbox, everything in it has been stored.\<close>

lemma drained_stored:
  assumes "broker_ok pub log" "broker_up pub" "s_faults s = []"
    and "distinct (map e_id (outbox (s_db s)))" "length (pending (outbox (s_db s))) \<le> 100 * n"
    and "marks_stored log (outbox (s_db s)) (s_nats s)" "e \<in> set (outbox (s_db s))"
  shows "wire e \<in> set (log (s_nats (Run payments_outbox pub (replicate n {}) s)))"
proof -
  have "log (s_nats (Run payments_outbox pub (replicate n {}) s))
      = log (s_nats s) @ map wire (pending (outbox (s_db s)))"
    using payments_events.Run_drains [OF assms(1-5)] by blast
  moreover have "unpublished e \<or> wire e \<in> set (log (s_nats s))"
    using assms(6,7) by (auto simp: marks_stored_def list_all_iff)
  ultimately show ?thesis using assms(7) by (auto simp: pending_def)
qed

section \<open>The subjects of the contracts service\<close>

definition contract_subjects :: "string list" where
  "contract_subjects = [EventContractCreated, EventContractAccepted, EventContractCompleted,
     EventContractCancelled, EventContractDeclined]"

lemma subjects_unstamped: "e_event_type ` set (unstamped es) = e_event_type ` set es"
  by (simp add: unstamped_def image_image)

lemma sys_step_subjects:
  assumes "sys_step look key x y" "e_event_type ` set (contract_events (fst x)) \<subseteq> set contract_subjects"
  shows "e_event_type ` set (contract_events (fst y)) \<subseteq> set contract_subjects"
proof -
  have told: "e_event_type ` set es \<subseteq> set evs" if "tells d i evs es" for d i evs es
    using that by (auto simp: tells_def)
  have known: "set evs \<subseteq> set contract_subjects" if "(a, b, evs) \<in> set moves" for a b evs
    using that by (auto simp: moves_def contract_subjects_def)
  have one: "EventContractCreated \<in> set contract_subjects" "EventContractCancelled \<in> set contract_subjects"
    by (simp_all add: contract_subjects_def)
  from assms(1) show ?thesis
  proof cases
    case (moved c d st st' evs p es now)
    from told [OF moved(8)] known [OF moved(5)] assms(2) moved(1,2) show ?thesis by (auto simp: image_Un)
  next
    case (announced_step d' d p)
    then show ?thesis using assms(2) by (metis fst_conv subjects_unstamped)
  next
    case (confirmed c d p hold es now2 now1)
    from told [OF confirmed(8)] one assms(2) confirmed(1,2) show ?thesis by (auto simp: image_Un)
  next
    case (compensated c d cs now es p)
    from compensated(7) have "e_event_type ` set es \<subseteq> {EventContractCancelled}"
      using told by (metis empty_set empty_subsetI image_empty list.simps(15))
    with one assms(2) compensated(1,2) show ?thesis by (auto simp: image_Un)
  qed (use assms(2) in simp_all)
qed

lemma sys_steps_subjects:
  assumes "(sys_step look key)\<^sup>*\<^sup>* x y" "e_event_type ` set (contract_events (fst x)) \<subseteq> set contract_subjects"
  shows "e_event_type ` set (contract_events (fst y)) \<subseteq> set contract_subjects"
  using assms by (induction rule: rtranclp_induct) (auto dest: sys_step_subjects)

context uuid_text
begin

lemma waiting_announced:
  assumes "hire_reach k parse cpub ppub d p" "c \<in> set (contracts d)" "c_status c = StatusHoldPending"
    and "c_id c = uuid_String k v"
  obtains e where "e \<in> set (outbox p)" "e_event_type e = EventPaymentHeld"
    "string_field ''contract_id'' (e_payload e) = Some (c_id c)"
proof -
  have ne: "StatusHoldPending \<notin> {StatusPending, StatusCancelled}"
    "StatusHoldPending \<notin> {StatusCompleting, StatusCompleted}" "StatusHoldPending \<notin> {StatusDeclining, StatusDeclined}"
    by code_simp+
  from status_backed [OF hire_reach_inv [OF assms(1)] assms(2)] ne have "backed k parse p c ''active''"
    unfolding assms(3) by blast
  then obtain u h where h: "sel h_id u (holds p) = Some h" "parse (c_id c) = Some (h_contract_id h)"
    by (auto simp: backed_def)
  with assms(4) have v: "h_contract_id h = v" by (simp add: parse_String)
  from sel_SomeD [OF h(1)] pay_reach_held_told [OF hire_reach_payments [OF assms(1)]] obtain e where
    e: "e \<in> set (outbox p)" "wire e = (EventPaymentHeld, hold_json k (h\<lparr>h_status := ''active''\<rparr>))"
    by (auto simp: held_told_def)
  from e(2) have "e_event_type e = EventPaymentHeld"
    "string_field ''contract_id'' (e_payload e) = Some (uuid_String k v)"
    using held_json_field [of k "h\<lparr>h_status := ''active''\<rparr>"] v by (simp_all add: wire_def)
  with e(1) assms(4) show thesis by (intro that) simp_all
qed

lemma hold_moves_on:
  assumes "hire_reach k parse cpub ppub d (s_db ps)" "c \<in> set (contracts d)" "c_status c = StatusHoldPending"
    and "c_id c = uuid_String k v" "c_id c \<noteq> ''''"
    and "broker_ok pub log" "broker_up pub" "s_faults ps = []" "length (pending (outbox (s_db ps))) \<le> 100 * n"
    and "marks_stored log (outbox (s_db ps)) (s_nats ps)" "s_faults s = []" "s_db s = d"
  obtains j s' where "(EventPaymentHeld, j) \<in> set (log (s_nats (Run payments_outbox pub (replicate n {}) ps)))"
    "consume k (EventPaymentHeld, Some j) s = (Ack, s')"
    "s_db s' = d\<lparr>contracts := advance (c_id c) StatusHoldPending StatusAwaitingAccept (s_now s) (contracts d)\<rparr>"
proof -
  obtain e where e: "e \<in> set (outbox (s_db ps))" "e_event_type e = EventPaymentHeld"
    "string_field ''contract_id'' (e_payload e) = Some (c_id c)"
    using waiting_announced [OF assms(1-4)] .
  have ids: "distinct (map e_id (outbox (s_db ps)))"
    using pay_reach_inv [OF hire_reach_payments [OF assms(1)]] by (simp add: pay_inv_def pay_wf_def)
  from drained_stored [OF assms(6-8) ids assms(9,10) e(1)] e(2)
  have log: "(EventPaymentHeld, e_payload e) \<in> set (log (s_nats (Run payments_outbox pub (replicate n {}) ps)))"
    by (simp add: wire_def)
  from assms(2,12) have "c \<in> set (contracts (s_db s))" by simp
  from consume_held [OF assms(11) this assms(3) e(3) assms(5)] obtain s' where
    "consume k (EventPaymentHeld, Some (e_payload e)) s = (Ack, s')"
    "s_db s' = (s_db s)\<lparr>contracts := advance (c_id c) StatusHoldPending StatusAwaitingAccept (s_now s) (contracts (s_db s))\<rparr>" .
  with log assms(12) show thesis by (intro that) simp_all
qed

text \<open>The subjects of the contracts service.\<close>

lemma hire_reach_subjects:
  assumes "hire_reach k parse cpub ppub d p"
  shows "e_event_type ` set (contract_events d) \<subseteq> set contract_subjects"
  using assms
proof (induction rule: hire_reach.induct)
  case created
  show ?case by (simp add: empty_cdb_def)
next
  case (served s call r s')
  have inv: "saga_inv (look_payments k parse) parse (sys s)"
    using hire_reach_inv [OF served(1)] by (simp add: hire_inv_iff)
  from sys_steps_subjects [OF link.contracts_serve_steps [OF served(2) inv]] served(3) show ?case by simp
next
  case (consumed s m v s')
  have inv: "saga_inv (look_payments k parse) parse (sys s)"
    using hire_reach_inv [OF consumed(1)] by (simp add: hire_inv_iff)
  from consume_step [OF consumed(2) inv] show ?case
  proof
    assume "sys_step (look_payments k parse) parse (sys s) (sys s')"
    from sys_step_subjects [OF this] consumed(3) show ?thesis by simp
  qed (use consumed(3) in simp)
next
  case (contracts_published s p locked q s')
  from sys_step_subjects [OF published_step [OF contracts_published(2)]] contracts_published(3) show ?case by simp
qed

end

end
