(* ===== verification/Routing.thy ===== *)
theory Routing
  imports ContractsDelivery JobsService
begin

text \<open>
  Which stream and which consumer the subjects of the three services' events go to.
\<close>

definition streams :: "stream_config list" where
  "streams = [contracts_stream, payments_stream, jobs_stream]"

text \<open>The stream that takes a subject is this one, and there is no other.\<close>

definition goes_to :: "(string \<Rightarrow> string \<Rightarrow> bool) \<Rightarrow> string \<Rightarrow> stream_config \<Rightarrow> bool" where
  "goes_to matches subject sc \<longleftrightarrow> filter (\<lambda>c. takes matches c subject) streams = [sc]"

text \<open>By the law of wildcards this is a comparison of prefixes, which evaluates.\<close>

definition begins :: "string \<Rightarrow> string \<Rightarrow> bool" where
  "begins p s \<longleftrightarrow> length p < length s \<and> take (length p) s = p"

lemma begins_iff: "begins p s \<longleftrightarrow> (\<exists>t. t \<noteq> '''' \<and> s = p @ t)"
proof
  assume "begins p s"
  then have "s = p @ drop (length p) s" "drop (length p) s \<noteq> ''''"
    unfolding begins_def by (metis append_take_drop_id, simp)
  then show "\<exists>t. t \<noteq> '''' \<and> s = p @ t" by blast
qed (auto simp: begins_def)

lemma takes_begins:
  assumes "wildcard_law matches" "literal s"
  shows "map (\<lambda>c. takes matches c s) streams = map (\<lambda>p. begins p s) [''contracts.'', ''payments.'', ''jobs.'']"
  unfolding streams_def list.map prefixes [OF assms] begins_iff ..

lemma goes_to_by_prefix:
  assumes "wildcard_law matches" "literal s" "i < 3"
    and "map (\<lambda>p. begins p s) [''contracts.'', ''payments.'', ''jobs.''] = (replicate 3 False)[i := True]"
  shows "goes_to matches s (streams ! i)"
proof -
  have t: "map (\<lambda>c. takes matches c s) streams = (replicate 3 False)[i := True]"
    using takes_begins [OF assms(1,2)] assms(4) by simp
  from assms(3) consider "i = 0" | "i = 1" | "i = 2" by linarith
  then show ?thesis using t by cases (simp_all add: goes_to_def streams_def numeral_3_eq_3 numeral_2_eq_2)
qed

definition job_subjects :: "string list" where
  "job_subjects = [EventJobCreated, EventJobUpdated, EventProfileCreated, EventProfileUpdated]"

lemma jobs_reach_subjects:
  assumes "jobs_reach c parse collation pub d"
  shows "e_event_type ` set (job_events d) \<subseteq> set job_subjects"
  using jobs_reach_inv [OF assms] by (auto simp: jobs_inv_def list_all_iff entry_ok_def job_subjects_def)

text \<open>All subjects, looked up.\<close>

lemma routed:
  assumes "wildcard_law matches"
  shows "s \<in> set payment_subjects \<Longrightarrow> goes_to matches s payments_stream \<and> hears matches payments_consumer s"
    "s \<in> set contract_subjects \<Longrightarrow> goes_to matches s contracts_stream \<and> \<not> hears matches payments_consumer s"
    "s \<in> set job_subjects \<Longrightarrow> goes_to matches s jobs_stream \<and> \<not> hears matches payments_consumer s"
proof -
  have at: "streams ! 0 = contracts_stream" "streams ! 1 = payments_stream" "streams ! 2 = jobs_stream"
    by (simp_all add: streams_def)
  have look: "list_all (\<lambda>s. literal s \<and>
      map (\<lambda>p. begins p s) [''contracts.'', ''payments.'', ''jobs.''] = (replicate 3 False)[1 := True] \<and>
      s \<in> set (cc_FilterSubjects payments_consumer)) payment_subjects"
    "list_all (\<lambda>s. literal s \<and>
      map (\<lambda>p. begins p s) [''contracts.'', ''payments.'', ''jobs.''] = (replicate 3 False)[0 := True] \<and>
      s \<notin> set (cc_FilterSubjects payments_consumer)) contract_subjects"
    "list_all (\<lambda>s. literal s \<and>
      map (\<lambda>p. begins p s) [''contracts.'', ''payments.'', ''jobs.''] = (replicate 3 False)[2 := True] \<and>
      s \<notin> set (cc_FilterSubjects payments_consumer)) job_subjects"
    by code_simp+
  note to = goes_to_by_prefix [OF assms]
  show "s \<in> set payment_subjects \<Longrightarrow> goes_to matches s payments_stream \<and> hears matches payments_consumer s"
    using look(1) to [of s 1, unfolded at] hears_iff [OF assms] by (auto simp: list_all_iff)
  show "s \<in> set contract_subjects \<Longrightarrow> goes_to matches s contracts_stream \<and> \<not> hears matches payments_consumer s"
    using look(2) to [of s 0, unfolded at] hears_iff [OF assms] by (auto simp: list_all_iff)
  show "s \<in> set job_subjects \<Longrightarrow> goes_to matches s jobs_stream \<and> \<not> hears matches payments_consumer s"
    using look(3) to [of s 2, unfolded at] hears_iff [OF assms] by (auto simp: list_all_iff)
qed

end
