(* ===== verification/DeliveryProps.thy ===== *)
theory DeliveryProps
  imports ContractsProps Routing JobsProps
begin

text \<open>
  The properties of event delivery between the services, each with a concrete run that its
  hypotheses fit.
\<close>

section \<open>Data for the concrete runs\<close>

text \<open>A broker that keeps a list, and a consumer that is given the same message at every fetch.\<close>

definition same_message :: "string \<times> json option \<Rightarrow> ((string \<times> json) list, string \<times> json option) consumer" where
  "same_message m = \<lparr>cons_Fetch = (\<lambda>most n. (Inr [m], n)), cons_read = (\<lambda>m. m), cons_settle = (\<lambda>v m n. n)\<rparr>"

definition list_broker :: "((string \<times> json) list, string \<times> json option) jetstream" where
  "list_broker = \<lparr>js_CreateOrUpdateStream = (\<lambda>config n. (Inr (), n)),
     js_CreateOrUpdateConsumer = (\<lambda>stream config n. (Inr (same_message (demo_message ''payments.payment.held'' ''114'')), n)),
     js_Publish = demo_pub\<rparr>"

definition nats_matches :: "string \<Rightarrow> string \<Rightarrow> bool" where
  "nats_matches p s = (if suffix ''.>'' p then strict_prefix (butlast p) s else p = s)"

lemma nats_matches_law: "wildcard_law nats_matches"
  unfolding wildcard_law_def
proof (intro allI impI conjI)
  fix p s :: string
  assume "literal p"
  then have "\<not> suffix ''.>'' p" by (auto simp: literal_def suffix_def)
  then show "nats_matches p s \<longleftrightarrow> p = s" by (simp add: nats_matches_def)
  have "butlast (p @ ''.>'') = p @ ''.''" by (simp add: butlast_append)
  then show "nats_matches (p @ ''.>'') s \<longleftrightarrow> (\<exists>t. t \<noteq> '''' \<and> s = p @ ''.'' @ t)"
    by (auto simp: nats_matches_def suffix_def strict_prefix_def prefix_def)
qed

section \<open>The properties\<close>

text \<open>C26: An event is never without a stream: in every state the services reach, each entry of
  a service's outbox has a subject that this service's own stream takes and no other stream does;
  and the durable consumer of the contracts service is given all events of payments and no
  others.\<close>

theorem events_routed:
  assumes "wildcard_law matches" "\<And>u. parse (uuid_String k u) = Some u"
    and "hire_reach k parse cpub ppub d p" "jobs_reach c parsej collation jpub j"
  shows "list_all (\<lambda>e. goes_to matches (e_event_type e) payments_stream \<and>
      hears matches payments_consumer (e_event_type e)) (outbox p) \<and>
    list_all (\<lambda>e. goes_to matches (e_event_type e) contracts_stream \<and>
      \<not> hears matches payments_consumer (e_event_type e)) (contract_events d) \<and>
    list_all (\<lambda>e. goes_to matches (e_event_type e) jobs_stream \<and>
      \<not> hears matches payments_consumer (e_event_type e)) (job_events j)"
proof -
  note subjects = pay_reach_subjects [OF hire_reach_payments [OF assms(3)], THEN subsetD, OF imageI]
    uuid_text.hire_reach_subjects [OF uuid_textI [OF assms(2)] assms(3), THEN subsetD, OF imageI]
    jobs_reach_subjects [OF assms(4), THEN subsetD, OF imageI]
  show ?thesis
    unfolding list_all_iff
    by (intro conjI ballI; simp add: subjects routed [OF assms(1)])
qed

theorem events_routed_witness:
  "list_all (\<lambda>e. goes_to nats_matches (e_event_type e) payments_stream) (outbox (snd world_completed)) \<and>
   list_all (\<lambda>e. goes_to nats_matches (e_event_type e) contracts_stream) (contract_events (fst world_completed)) \<and>
   list_all (\<lambda>e. goes_to nats_matches (e_event_type e) jobs_stream) (job_events jobs_four) \<and>
   length (outbox (snd world_completed)) = 2"
proof -
  have "length (outbox (snd world_completed)) = 2" by code_simp
  with events_routed [OF nats_matches_law short.parse_String worlds_reached(5) jobs_reached(2)] show ?thesis
    by (simp add: list_all_iff)
qed

text \<open>C13: A contract that waits for its hold moves on: when the payments publisher has drained its
  outbox to the broker, the broker holds a message that announces the hold of this contract, and
  the consumer that gets this message, with a healthy database, acknowledges it and moves exactly
  this contract from HOLD_PENDING to AWAITING_ACCEPT.\<close>

theorem held_event_moves_on:
  assumes "\<And>u. parse (uuid_String k u) = Some u" "hire_reach k parse cpub ppub d (s_db ps)"
    and "c \<in> set (contracts d)" "c_status c = StatusHoldPending" "c_id c = uuid_String k v" "c_id c \<noteq> ''''"
    and "broker_ok (js_Publish js) log" "broker_up (js_Publish js)" "s_faults ps = []"
    and "length (pending (outbox (s_db ps))) \<le> 100 * n" "marks_stored log (outbox (s_db ps)) (s_nats ps)"
    and "s_faults s = []" "s_db s = d"
  shows "\<exists>data s'.
    (EventPaymentHeld, data) \<in> set (log (s_nats (Run payments_outbox (nats_Publish js) (replicate n {}) ps))) \<and>
    consume k (EventPaymentHeld, Some data) s = (Ack, s') \<and>
    contracts (s_db s') = advance (c_id c) StatusHoldPending StatusAwaitingAccept (s_now s) (contracts d)"
proof -
  obtain data s' where
    "(EventPaymentHeld, data) \<in> set (log (s_nats (Run payments_outbox (nats_Publish js) (replicate n {}) ps)))"
    "consume k (EventPaymentHeld, Some data) s = (Ack, s')"
    "s_db s' = d\<lparr>contracts := advance (c_id c) StatusHoldPending StatusAwaitingAccept (s_now s) (contracts d)\<rparr>"
    by (rule uuid_text.hold_moves_on [OF uuid_textI [OF assms(1)] assms(2-6) _ _ assms(9-13), where pub = "nats_Publish js"])
      (use assms(7,8) in \<open>simp_all add: broker_ok_nats broker_up_nats\<close>)
  then show ?thesis by auto
qed

theorem held_event_moves_on_witness:
  "\<exists>data s'. consume short_codec (EventPaymentHeld, Some data)
      (demo_saga 40 [] (fst world_created) (demo_net 40 [] [] (snd world_created))) = (Ack, s') \<and>
    map c_status (contracts (s_db s')) = [''AWAITING_ACCEPT'']"
proof -
  let ?c = "demo_contract ''HOLD_PENDING'' (Some ''25'')" and ?ps = "demo_pub_session 60 [] (snd world_created)"
  let ?s = "demo_saga 40 [] (fst world_created) (demo_net 40 [] [] (snd world_created))"
  have world: "s_db ?ps = snd world_created" "s_db ?s = fst world_created" "s_faults ?s = []" "s_faults ?ps = []"
    by (simp_all add: demo_pub_session_def demo_saga_def)
  have c: "?c \<in> set (contracts (fst world_created))" "c_status ?c = StatusHoldPending"
    "c_id ?c = uuid_String short_codec 276" "c_id ?c \<noteq> ''''"
    "length (pending (outbox (s_db ?ps))) \<le> 100 * 1" "marks_stored id (outbox (s_db ?ps)) (s_nats ?ps)"
    by code_simp+
  have up: "broker_ok (js_Publish list_broker) id" "broker_up (js_Publish list_broker)"
    using demo_pub_ok by (simp_all add: list_broker_def)
  have "reached (fst world_created, s_db ?ps)" using worlds_reached(1) world(1) by simp
  from held_event_moves_on [OF short.parse_String this [unfolded fst_conv snd_conv] c(1-4) up world(4) c(5,6) world(3,2)]
  obtain data s' where "consume short_codec (EventPaymentHeld, Some data) ?s = (Ack, s')"
    "contracts (s_db s') = advance (c_id ?c) StatusHoldPending StatusAwaitingAccept (s_now ?s) (contracts (fst world_created))"
    by blast
  moreover have "map c_status (advance (c_id ?c) StatusHoldPending StatusAwaitingAccept (s_now ?s)
      (contracts (fst world_created))) = [''AWAITING_ACCEPT'']" by code_simp
  ultimately show ?thesis by metis
qed

text \<open>C25: The consumer of payment events runs exactly as long as the service: whatever the broker
  gives it and whatever fails, it returns if and only if the context is cancelled at some time,
  and what it leaves behind is a state the services reach.\<close>

theorem consumer_stops:
  fixes s :: "(cdb, string, net) saga_sess"
  assumes "\<And>i. ctx i \<Longrightarrow> ctx (Suc i)" "hire_reach k parse cpub ppub (s_db s) (s_db (net_pay (s_pay s)))"
  shows "case runPaymentsConsumer k cons ctx 0 n s of
      None \<Rightarrow> (\<forall>i. \<not> ctx i)
    | Some (n', s') \<Rightarrow> (\<exists>i. ctx i) \<and> hire_reach k parse cpub ppub (s_db s') (s_db (net_pay (s_pay s')))"
proof (cases "\<exists>i. ctx i")
  case True
  then obtain N where "ctx N" by blast
  have "\<exists>n' s'. runPaymentsConsumer k cons ctx 0 n s = Some (n', s') \<and>
      hire_reach k parse cpub ppub (s_db s') (s_db (net_pay (s_pay s')))"
  proof (rule runPaymentsConsumer_returns [where ctx = ctx and N = N and
      P = "\<lambda>s. hire_reach k parse cpub ppub (s_db s) (s_db (net_pay (s_pay s)))"])
    show "ctx (Suc j)" if "ctx j" for j using that by (rule assms(1))
    show "ctx N" by fact
    show "hire_reach k parse cpub ppub (s_db s2) (s_db (net_pay (s_pay s2)))"
      if "consume k m s1 = (v, s2)" "hire_reach k parse cpub ppub (s_db s1) (s_db (net_pay (s_pay s1)))"
      for m v and s1 s2 :: "(cdb, string, net) saga_sess"
      using that(2,1) by (rule hire_reach.consumed)
    show "hire_reach k parse cpub ppub (s_db s) (s_db (net_pay (s_pay s)))" by (rule assms(2))
  qed
  with True show ?thesis by auto
next
  case False
  with runPaymentsConsumer_cancelled have "runPaymentsConsumer k cons ctx 0 n s = None" by (metis not_Some_eq)
  with False show ?thesis by simp
qed

theorem consumer_stops_witness:
  "\<exists>n' s'. runPaymentsConsumer short_codec (same_message (demo_message ''payments.payment.held'' ''114'')) (\<lambda>i. 2 \<le> i) 0 []
      (demo_saga 40 [] (fst world_created) (demo_net 40 [] [] (snd world_created))) = Some (n', s') \<and>
    reached (world_of s')"
proof -
  let ?s = "demo_saga 40 [] (fst world_created) (demo_net 40 [] [] (snd world_created))"
  have "reached (s_db ?s, s_db (net_pay (s_pay ?s)))"
    using worlds_reached(1) by (simp add: demo_saga_def demo_net_def demo_session_def)
  from consumer_stops [of "\<lambda>i. 2 \<le> i", OF _ this [unfolded fst_conv snd_conv],
      of "same_message (demo_message ''payments.payment.held'' ''114'')" "[]"]
  show ?thesis by (auto simp: world_of_def split: option.splits)
qed

end
