(* ===== verification/Spec2Isabelle.thy ===== *)
theory Spec2Isabelle
  imports PaymentsProps ContractsProps JobsProps BffProps DeliveryProps Startup
begin

text \<open>
  Hire-flow: the Go services of the repository, modelled and verified.

  \<^bold>\<open>The program.\<close> Clients hire freelancers. jobs-api (services/jobs-api, Echo, PostgreSQL) keeps jobs
  and profiles; payments (services/payments, Gin, PostgreSQL) keeps wallets, holds and a log of
  transactions; contracts (services/contracts, chi, MySQL) keeps contracts and runs the saga that
  puts a contract's amount on hold at payments, over HTTP, and later transfers or releases it. Each
  of the three writes events into an outbox table in the transaction that makes the change; a
  publisher (pkg/outbox, and a copy in contracts) polls the table and hands the entries to NATS
  JetStream, and contracts consumes the events of payments. In front stand three BFF services
  (services/bff/client, freelancer, admin over pkg/bff), which check sessions, limit rates and
  forward requests.

  \<^bold>\<open>How a program is modelled.\<close> A handler, store method or saga operation is a function from a
  session to an error or a result and a session (theory Prelude: \<open>bnd\<close>, \<open>map_err\<close>, \<open>attempt\<close>, in the
  place of Go's \<open>if err != nil\<close>). A session (theory Session) has the committed database, the view of
  the open transaction, a clock, a stream of generated ids, and a plan of faults: each call over the
  connection is fine, fails before it reaches the server, or is done and its reply lost; so a commit
  whose reply is lost is a commit. A SQL statement is a function on the tables with the errors of
  the schema's keys, references, checks and column types. Theorems that mention no fault plan hold
  for every one.

  \<^item> Shared: Prelude (tables, 64-bit integers, programs), Session, Json (what encoding/json does to
    the structs decoded here), Params (strconv.Atoi on query strings), UuidText (the laws of the UUID
    text form, as locale \<open>uuid_text\<close>, with two codecs that keep them), Url (net/url escaping).
  \<^item> Outbox: pkg/outbox, with the locale \<open>outbox_store\<close> for what a publisher relies on. It is
    interpreted on the three services' stores (\<open>payments_events\<close>, \<open>jobs_events\<close>, \<open>contracts_outbox\<close>).
  \<^item> PaymentsStore, PaymentsHandler: wallet_store.go, hold_store.go, transaction_store.go and
    handler.go of services/payments, and cmd/seed. PaymentsSpec is the ledger as a step relation,
    PaymentsRefine shows that the handlers make its steps and no others, PaymentsLedger proves the
    invariants on the steps, PaymentsService lifts them to all reachable databases and has the
    answers of healthy runs; PaymentsRace is two hold requests that overlap.
  \<^item> ContractsStore, Saga, ContractsHandler: the stores, saga.go, handler.go and the consumer of
    main.go. ContractsSpec is the saga as a step relation over both databases, with the locale
    \<open>payments_interface\<close> for what it relies on at the other side; ContractsRefine and ContractsService
    show that everything the service does is such steps; PaymentsClient and PaymentsLink model
    payments_client.go and the wire and show that the payments service itself is an instance of the
    locale; Hire composes the two services; ContractsLife and ContractsProgress are the life of a
    contract and its liveness; ContractsOutbox is outbox_publisher.go.
  \<^item> JobsStore, JobsHandler, JobsSpec, JobsService: services/jobs-api in the same way.
  \<^item> BffHttp, BffClient, BffAuth, BffClientService, BffServices: pkg/bff and the three services.
    BffRuns states the contract they share as the locale \<open>bff_service\<close>, interpreted on each in
    BffHistories; BffDashboard, BffSpec, BffSession and BffLink hold the dashboard's goroutines with
    their mutex and wait group in any interleaving, what one request does, what is assumed of the JWT
    library, and what reaches the upstream services.
  \<^item> Jetstream: nats.go of the three services and the consumer's loop; ContractsDelivery and Routing
    follow an event from its row to the contract it moves. Startup: the \<open>main\<close>s of the six services.
  \<^item> PaymentsProps, ContractsProps, JobsProps, BffProps and DeliveryProps state the properties, each
    with a concrete run that fits its hypotheses.

  \<^bold>\<open>What is shown.\<close> For payments: no wallet promises more than it owns, money is neither made nor
  lost, a hold is settled once and announced once, the log accounts for the holds, and every answer
  is the answer of the step that was made. For contracts and payments together: in every reachable
  state the money of a contract is where its status says, a completed contract has paid its
  freelancer, a success reply means what it says, statuses move along the edges of the life cycle
  only, each turn of a contract with a hold is told once; a waiting contract moves on when its event is delivered, and
  completing and cancelling go through when nothing fails and the freelancer's wallet can be paid. For jobs-api: the last event about a row
  shows the row. For the outbox: nothing is marked published that the broker has not stored, and a
  healthy publisher drains the table; each subject has one stream. For the BFFs: upstream calls are
  made only for users who have logged in, within the rate, with the id asked for.

  \<^bold>\<open>What is shown to go wrong.\<close> A retry after the settlement cannot finish the contract
  (\<open>retry_never_finishes\<close>); a held or failed event for a contract that does not wait for it is given
  back for ever (\<open>event_given_back\<close>); a compensation can be half written (\<open>half_compensated\<close>); a
  contract for a wallet that does not exist is accepted and can never be completed
  (\<open>unknown_freelancer_wallet\<close>); a hold whose reply is lost stays on hold without a contract (\<open>lost_hold\<close>); two
  hold requests that overlap can overdraw a wallet (\<open>overlapping_holds_overdraw\<close>), after which a transfer is refused with 500
  (\<open>transfer_answered\<close>); an administrator's
  id is not escaped (\<open>admin_id_cut\<close>).

  \<^bold>\<open>Assumptions.\<close> The reachable states (\<open>pay_reach\<close>, \<open>hire_reach\<close>, \<open>jobs_reach\<close>) are those of requests
  that run one after the other, each with faults; overlap of two holds is PaymentsRace, that of the
  dashboard's calls BffDashboard. In \<open>hire_reach\<close> releases and transfers at payments come from the
  contracts service, their only caller; other holds and reads may come from anywhere. A consumed
  message may be any message. Outside the repository, and therefore parameters with the documented
  behaviour as hypotheses where a theorem needs it: the UUID and time codecs, the broker
  (\<open>broker_ok\<close>: an acknowledged message is stored; \<open>broker_up\<close>; \<open>wildcard_law\<close>), the collation of names,
  the JWT library, the rate limiter, the HTTP transport of the BFFs, and the binding of request
  bodies by Gin, Echo and encoding/json (a handler gets the bound request or none).

  \<^bold>\<open>Bounds and loops.\<close> Amounts are 64-bit words and budgets are checked against the 32-bit columns;
  \<open>SUM\<close> is unbounded as PostgreSQL's is, and its scan into an int64 can fail. A publisher hands over 100
  events per tick, so as many ticks as there are hundreds of pending events are enough
  (\<open>events_drained\<close>). Nothing runs on fuel but the lists of ticks and of requests and the
  fifteen fair rounds after the dashboard's schedule, which are enough for its goroutines to end
  (\<open>dashboard_ends\<close>); the loop of the
  consumer may not end and is a partial function, which returns exactly when the context is
  cancelled (\<open>consumer_stops\<close>). Healthy runs assume that the ids drawn next are new (\<open>fresh_ids\<close>).

  \<^bold>\<open>Not modelled.\<close> pkg/telemetry and all logging, which only observe; the calls of \<open>main\<close> into
  libraries beyond their order and their success; timeouts other than as lost calls; the redirects of
  \<open>ServeMux\<close> for unclean paths and the method and header checks of Gin, Echo and chi; the frontend
  (TypeScript) and ai-matching (Python), which are other programs in other languages.
\<close>

end
